theory Spec2Isabelle
  imports Main "HOL-Library.Product_Lexorder" "HOL-Library.Multiset"
begin

section \<open>Exceptions\<close>

text \<open>
  Every exception of the program is a value. \<open>AddressValueError\<close> stands for the two
  subclasses of ValueError that the ipaddress constructors raise on text that is not an
  address or not a netmask; \<open>HostBitsSet\<close> is the plain ValueError of a strict network
  constructor; \<open>BatchedValueError\<close> is the ValueError of itertools.batched for a size
  below one; \<open>Exception'\<close> carries the message of a \<open>raise Exception(...)\<close> of the program;
  \<open>ClientError\<close> is whatever a backend call raises.
\<close>

datatype error =
    AddressValueError string
  | HostBitsSet string
  | BatchedValueError
  | KeyError string
  | IndexError
  | Exception' string
  | ClientError string

section \<open>Network values of the ipaddress module\<close>

datatype ip_version = IPV4 | IPV6

fun max_prefixlen :: "ip_version \<Rightarrow> nat" where
  "max_prefixlen IPV4 = 32"
| "max_prefixlen IPV6 = 128"

text \<open>
  An IPv4Network or IPv6Network object: its version, the integer of its network address
  and its prefix length. Python compares two networks by exactly these three.
\<close>

datatype network = Network (version: ip_version) (network_address: nat) (prefixlen: nat)

definition ALL_ONES :: "ip_version \<Rightarrow> nat" where
  "ALL_ONES v = 2 ^ max_prefixlen v - 1"

definition num_addresses :: "network \<Rightarrow> nat" where
  "num_addresses n = 2 ^ (max_prefixlen (version n) - prefixlen n)"

definition netmask :: "network \<Rightarrow> nat" where
  "netmask n = 2 ^ max_prefixlen (version n) - num_addresses n"

definition broadcast_address :: "network \<Rightarrow> nat" where
  "broadcast_address n = network_address n + num_addresses n - 1"

text \<open>The order of \<open>sorted\<close> on networks of one version: by address, then by netmask.\<close>

definition networks_key :: "network \<Rightarrow> nat \<times> nat" where
  "networks_key n = (network_address n, netmask n)"

text \<open>
  What a strict network constructor accepts once the text is read: a prefix length within
  the version's width, an address within its range, and no host bit set.
\<close>

definition well_formed :: "network \<Rightarrow> bool" where
  "well_formed n \<longleftrightarrow>
     prefixlen n \<le> max_prefixlen (version n) \<and>
     network_address n < 2 ^ max_prefixlen (version n) \<and>
     network_address n mod num_addresses n = 0"

text \<open>The addresses of a network, as integers.\<close>

definition addresses :: "network \<Rightarrow> nat set" where
  "addresses n = {network_address n ..< network_address n + num_addresses n}"

text \<open>
  The module's reading and printing of text is a parameter of the development: \<open>read_v4\<close>
  and \<open>read_v6\<close> give the address and prefix length spelt by a string (None where the
  constructor raises AddressValueError or NetmaskValueError), \<open>with_prefixlen\<close> and
  \<open>exploded\<close> are the two properties of a network object that print it.
\<close>

record ipaddress =
  read_v4 :: "string \<Rightarrow> (nat \<times> nat) option"
  read_v6 :: "string \<Rightarrow> (nat \<times> nat) option"
  with_prefixlen :: "network \<Rightarrow> string"
  exploded :: "network \<Rightarrow> string"

definition strict_network :: "ip_version \<Rightarrow> string \<Rightarrow> (nat \<times> nat) option \<Rightarrow> error + network" where
  "strict_network v s r =
     (case r of
        None \<Rightarrow> Inl (AddressValueError s)
      | Some (a, l) \<Rightarrow>
          if l \<le> max_prefixlen v \<and> a < 2 ^ max_prefixlen v
          then (if a mod 2 ^ (max_prefixlen v - l) = 0 then Inr (Network v a l)
                else Inl (HostBitsSet s))
          else Inl (AddressValueError s))"

definition IPv4Network :: "ipaddress \<Rightarrow> string \<Rightarrow> error + network" where
  "IPv4Network lib s = strict_network IPV4 s (read_v4 lib s)"

definition IPv6Network :: "ipaddress \<Rightarrow> string \<Rightarrow> error + network" where
  "IPv6Network lib s = strict_network IPV6 s (read_v6 lib s)"

text \<open>
  \<open>ip_network\<close> tries the IPv4 constructor, then the IPv6 one; only the two text errors
  are caught, a host-bits ValueError leaves at once.
\<close>

definition ip_network :: "ipaddress \<Rightarrow> string \<Rightarrow> error + network" where
  "ip_network lib s =
     (case IPv4Network lib s of
        Inr n \<Rightarrow> Inr n
      | Inl (AddressValueError _) \<Rightarrow>
          (case IPv6Network lib s of
             Inr n \<Rightarrow> Inr n
           | Inl (AddressValueError _) \<Rightarrow> Inl (AddressValueError s)
           | Inl e \<Rightarrow> Inl e)
      | Inl e \<Rightarrow> Inl e)"

text \<open>A list comprehension that calls a constructor on every entry: the first failure leaves.\<close>

fun parse_all :: "(string \<Rightarrow> error + network) \<Rightarrow> string list \<Rightarrow> error + network list" where
  "parse_all p [] = Inr []"
| "parse_all p (s # ss) =
     (case p s of
        Inl e \<Rightarrow> Inl e
      | Inr n \<Rightarrow> (case parse_all p ss of Inl e \<Rightarrow> Inl e | Inr ns \<Rightarrow> Inr (n # ns)))"

subsection \<open>collapse_addresses\<close>

text \<open>\<open>supernet()\<close> with its default difference of one: the network itself at prefix length 0.\<close>

definition supernet :: "network \<Rightarrow> network" where
  "supernet n =
     (if prefixlen n = 0 then n
      else Network (version n)
             (network_address n div (2 * num_addresses n) * (2 * num_addresses n))
             (prefixlen n - 1))"

fun bit_length :: "nat \<Rightarrow> nat" where
  "bit_length n = (if n = 0 then 0 else Suc (bit_length (n div 2)))"

declare bit_length.simps [simp del]

fun trailing_zero_bits :: "nat \<Rightarrow> nat" where
  "trailing_zero_bits n = (if n = 0 \<or> odd n then 0 else Suc (trailing_zero_bits (n div 2)))"

declare trailing_zero_bits.simps [simp del]

definition count_righthand_zero_bits :: "nat \<Rightarrow> nat \<Rightarrow> nat" where
  "count_righthand_zero_bits number bits =
     (if number = 0 then bits else min bits (trailing_zero_bits number))"

function summarize_address_range :: "ip_version \<Rightarrow> nat \<Rightarrow> nat \<Rightarrow> network list" where
  "summarize_address_range v first_int last_int =
     (if first_int \<le> last_int then
        (let nbits = min (count_righthand_zero_bits first_int (max_prefixlen v))
                         (bit_length (last_int - first_int + 1) - 1);
             net = Network v first_int (max_prefixlen v - nbits);
             first_int' = first_int + 2 ^ nbits
         in net # (if first_int' - 1 = ALL_ONES v then []
                   else summarize_address_range v first_int' last_int))
      else [])"
  by pat_completeness auto
termination
  by (relation "measure (\<lambda>(v, f, l). Suc l - f)")
     (auto simp: Let_def intro!: diff_less_mono2)

declare summarize_address_range.simps [simp del]

text \<open>\<open>_find_address_range\<close> over the sorted, deduplicated addresses that follow the first.\<close>

fun find_address_range :: "nat \<Rightarrow> nat \<Rightarrow> nat list \<Rightarrow> (nat \<times> nat) list" where
  "find_address_range first_ip last_ip [] = [(first_ip, last_ip)]"
| "find_address_range first_ip last_ip (ip # it) =
     (if ip \<noteq> last_ip + 1 then (first_ip, last_ip) # find_address_range ip ip it
      else find_address_range first_ip ip it)"

text \<open>
  The merge loop of \<open>_collapse_addresses_internal\<close>. \<open>to_merge\<close> is held with its last
  element first, so that \<open>pop()\<close> takes the head and \<open>append\<close> adds a head; \<open>subnets\<close> is the
  dictionary as its items in insertion order.
\<close>

function merge_loop :: "network list \<Rightarrow> (network \<times> network) list \<Rightarrow> (network \<times> network) list" where
  "merge_loop [] subnets = subnets"
| "merge_loop (net # to_merge) subnets =
     (case map_of subnets (supernet net) of
        None \<Rightarrow> merge_loop to_merge (subnets @ [(supernet net, net)])
      | Some existing \<Rightarrow>
          if existing \<noteq> net
          then merge_loop (supernet net # to_merge)
                 (filter (\<lambda>kv. fst kv \<noteq> supernet net) subnets)
          else merge_loop to_merge subnets)"
  by pat_completeness auto
termination
proof (relation "measure (\<lambda>(to_merge, subnets).
          2 * sum_list (map (\<lambda>n. Suc (prefixlen n)) to_merge) + length subnets)")
  show "wf (measure (\<lambda>(to_merge, subnets).
          2 * sum_list (map (\<lambda>n. Suc (prefixlen n)) to_merge) + length subnets))"
    by simp
next
  fix net :: network and to_merge :: "network list" and subnets :: "(network \<times> network) list"
  assume "map_of subnets (supernet net) = None"
  then show "((to_merge, subnets @ [(supernet net, net)]), net # to_merge, subnets)
      \<in> measure (\<lambda>(to_merge, subnets).
          2 * sum_list (map (\<lambda>n. Suc (prefixlen n)) to_merge) + length subnets)"
    by simp
next
  fix net :: network and to_merge :: "network list" and subnets :: "(network \<times> network) list"
    and existing :: network
  assume some: "map_of subnets (supernet net) = Some existing"
  then have "(supernet net, existing) \<in> set subnets"
    by (rule map_of_SomeD)
  then have "length (filter (\<lambda>kv. fst kv \<noteq> supernet net) subnets) < length subnets"
    by (intro length_filter_less[where x = "(supernet net, existing)"]) auto
  moreover have "prefixlen (supernet net) \<le> prefixlen net"
    by (simp add: supernet_def)
  ultimately show "((supernet net # to_merge, filter (\<lambda>kv. fst kv \<noteq> supernet net) subnets),
        net # to_merge, subnets)
      \<in> measure (\<lambda>(to_merge, subnets).
          2 * sum_list (map (\<lambda>n. Suc (prefixlen n)) to_merge) + length subnets)"
    by simp
next
  fix net :: network and to_merge :: "network list" and subnets :: "(network \<times> network) list"
    and existing :: network
  show "((to_merge, subnets), net # to_merge, subnets)
      \<in> measure (\<lambda>(to_merge, subnets).
          2 * sum_list (map (\<lambda>n. Suc (prefixlen n)) to_merge) + length subnets)"
    by simp
qed

text \<open>The second loop of \<open>_collapse_addresses_internal\<close>, over the sorted values.\<close>

fun skip_subsumed :: "network option \<Rightarrow> network list \<Rightarrow> network list" where
  "skip_subsumed lst [] = []"
| "skip_subsumed lst (net # nets) =
     (case lst of
        None \<Rightarrow> net # skip_subsumed (Some net) nets
      | Some l \<Rightarrow>
          if broadcast_address l \<ge> broadcast_address net then skip_subsumed lst nets
          else net # skip_subsumed (Some net) nets)"

definition collapse_addresses_internal :: "network list \<Rightarrow> network list" where
  "collapse_addresses_internal addrs =
     skip_subsumed None (sort_key networks_key (map snd (merge_loop (rev addrs) [])))"

text \<open>
  \<open>collapse_addresses\<close> on network objects that one constructor built, all of version \<open>v\<close>
  (its TypeError branches are for lists of mixed versions): the networks of full prefix
  length go through \<open>sorted(set(ips))\<close> and the range summary, the others are kept.
\<close>

definition collapse_addresses :: "ip_version \<Rightarrow> network list \<Rightarrow> network list" where
  "collapse_addresses v nets_in =
     (let ips = map network_address (filter (\<lambda>n. prefixlen n = max_prefixlen v) nets_in);
          nets = filter (\<lambda>n. prefixlen n \<noteq> max_prefixlen v) nets_in;
          addrs = (case sort (remdups ips) of
                     [] \<Rightarrow> []
                   | ip # it \<Rightarrow>
                       concat (map (\<lambda>(f, l). summarize_address_range v f l)
                                 (find_address_range ip ip it)))
      in collapse_addresses_internal (addrs @ nets))"

section \<open>Data classes\<close>

record IPv4List =
  v4_ip_list :: "string list"
  v4_summarized_ip_list :: "string list"

record IPv6List =
  v6_ip_list :: "string list"
  v6_summarized_ip_list :: "string list"

record ServiceIPRange =
  ipv4 :: IPv4List
  ipv6 :: IPv6List

text \<open>The objects that the default factories build.\<close>

definition new_IPv4List :: IPv4List where
  "new_IPv4List = \<lparr>v4_ip_list = [], v4_summarized_ip_list = []\<rparr>"

definition new_IPv6List :: IPv6List where
  "new_IPv6List = \<lparr>v6_ip_list = [], v6_summarized_ip_list = []\<rparr>"

definition new_ServiceIPRange :: ServiceIPRange where
  "new_ServiceIPRange = \<lparr>ipv4 = new_IPv4List, ipv6 = new_IPv6List\<rparr>"

text \<open>
  \<open>summarized()\<close> returns a list and may store it in the object: the result is the list
  and the object afterwards. An exception leaves the object as it was.
\<close>

definition IPv4List_summarized :: "ipaddress \<Rightarrow> IPv4List \<Rightarrow> error + (string list \<times> IPv4List)" where
  "IPv4List_summarized lib self =
     (if v4_summarized_ip_list self = [] then
        (if length (v4_ip_list self) = 1 then Inr (v4_ip_list self, self)
         else
           (case parse_all (IPv4Network lib) (v4_ip_list self) of
              Inl e \<Rightarrow> Inl e
            | Inr nets \<Rightarrow>
                (let summarized_sorted = sort_key networks_key (collapse_addresses IPV4 nets);
                     self' = self\<lparr>v4_summarized_ip_list :=
                                    map (with_prefixlen lib) summarized_sorted\<rparr>
                 in Inr (v4_summarized_ip_list self', self'))))
      else Inr (v4_summarized_ip_list self, self))"

definition IPv6List_summarized :: "ipaddress \<Rightarrow> IPv6List \<Rightarrow> error + (string list \<times> IPv6List)" where
  "IPv6List_summarized lib self =
     (if v6_summarized_ip_list self = [] then
        (case parse_all (IPv6Network lib) (v6_ip_list self) of
           Inl e \<Rightarrow> Inl e
         | Inr nets \<Rightarrow>
             (let summarized_sorted = sort_key networks_key (collapse_addresses IPV6 nets);
                  self' = self\<lparr>v6_summarized_ip_list :=
                                 map (exploded lib) summarized_sorted\<rparr>
              in Inr (v6_summarized_ip_list self', self')))
      else Inr (v6_summarized_ip_list self, self))"

text \<open>
  \<open>sort()\<close>: \<open>sorted\<close> computes the key of every entry first, then sorts stably by it.
\<close>

definition IPv4List_sort :: "ipaddress \<Rightarrow> IPv4List \<Rightarrow> error + IPv4List" where
  "IPv4List_sort lib self =
     (if length (v4_ip_list self) > 1 then
        (case parse_all (IPv4Network lib) (v4_ip_list self) of
           Inl e \<Rightarrow> Inl e
         | Inr keys \<Rightarrow>
             Inr (self\<lparr>v4_ip_list :=
                    map fst (sort_key (\<lambda>sk. networks_key (snd sk)) (zip (v4_ip_list self) keys))\<rparr>))
      else Inr self)"

definition IPv6List_sort :: "ipaddress \<Rightarrow> IPv6List \<Rightarrow> error + IPv6List" where
  "IPv6List_sort lib self =
     (if length (v6_ip_list self) > 1 then
        (case parse_all (IPv6Network lib) (v6_ip_list self) of
           Inl e \<Rightarrow> Inl e
         | Inr nets \<Rightarrow>
             Inr (self\<lparr>v6_ip_list := map (exploded lib) (sort_key networks_key nets)\<rparr>))
      else Inr self)"

section \<open>Service Range Extractor\<close>

text \<open>
  The configuration file and the feed, as the program indexes them. \<open>Regions\<close>,
  \<open>PrefixList\<close>, \<open>WafIPSet\<close> and \<open>ChunkSize\<close> are the keys whose absence the program
  meets (None is an absent key).
\<close>

record prefix_list_config =
  pl_Enable :: bool
  pl_Summarize :: bool
  pl_ChunkSize :: "int option"

record waf_ipset_config =
  waf_Enable :: bool
  waf_Summarize :: bool
  waf_Scopes :: "string list"

record config_service =
  Name :: string
  Regions :: "string list option"
  PrefixList :: "prefix_list_config option"
  WafIPSet :: "waf_ipset_config option"

text \<open>
  A record of the feed: \<open>cidr\<close> is its \<open>ip_prefix\<close> in the array \<open>prefixes\<close> and its
  \<open>ipv6_prefix\<close> in the array \<open>ipv6_prefixes\<close>.
\<close>

record feed_record =
  service :: string
  region :: string
  cidr :: string

record ip_ranges =
  prefixes :: "feed_record list"
  ipv6_prefixes :: "feed_record list"

text \<open>
  A dict is the list of its items in insertion order: \<open>d[k] = v\<close> replaces the value of an
  existing key in place and appends a new key.
\<close>

fun dict_set :: "'k \<Rightarrow> 'v \<Rightarrow> ('k \<times> 'v) list \<Rightarrow> ('k \<times> 'v) list" where
  "dict_set k v [] = [(k, v)]"
| "dict_set k v (p # ps) = (if fst p = k then (k, v) # ps else p # dict_set k v ps)"

text \<open>The inner loop over the regions of one service.\<close>

fun add_regions ::
  "string \<Rightarrow> string list \<Rightarrow> string set \<times> (string \<times> ServiceIPRange) list
     \<Rightarrow> string set \<times> (string \<times> ServiceIPRange) list" where
  "add_regions service_name [] st = st"
| "add_regions service_name (r # rs) (service_control, service_ranges) =
     add_regions service_name rs
       (insert (service_name @ ''-'' @ r) service_control,
        dict_set service_name new_ServiceIPRange service_ranges)"

text \<open>The first loop, over the configured services.\<close>

fun add_services ::
  "config_service list \<Rightarrow> string set \<times> (string \<times> ServiceIPRange) list
     \<Rightarrow> error + (string set \<times> (string \<times> ServiceIPRange) list)" where
  "add_services [] st = Inr st"
| "add_services (config_service # rest) (service_control, service_ranges) =
     (case Regions config_service of
        None \<Rightarrow> Inl (KeyError ''Regions'')
      | Some regions \<Rightarrow>
          if length regions > 0
          then add_services rest
                 (add_regions (Name config_service) regions (service_control, service_ranges))
          else add_services rest
                 (insert (Name config_service) service_control,
                  dict_set (Name config_service) new_ServiceIPRange service_ranges))"

definition append_ipv4 :: "string \<Rightarrow> ServiceIPRange \<Rightarrow> ServiceIPRange" where
  "append_ipv4 c r = r\<lparr>ipv4 := (ipv4 r)\<lparr>v4_ip_list := v4_ip_list (ipv4 r) @ [c]\<rparr>\<rparr>"

definition append_ipv6 :: "string \<Rightarrow> ServiceIPRange \<Rightarrow> ServiceIPRange" where
  "append_ipv6 c r = r\<lparr>ipv6 := (ipv6 r)\<lparr>v6_ip_list := v6_ip_list (ipv6 r) @ [c]\<rparr>\<rparr>"

text \<open>
  The two loops over the feed have one body, once with the IPv4 list and once with the
  IPv6 list; \<open>app\<close> is the list's \<open>append\<close> of that body. Indexing \<open>service_ranges\<close>
  with a name that is no key raises KeyError.
\<close>

definition append_to_service ::
  "(string \<Rightarrow> ServiceIPRange \<Rightarrow> ServiceIPRange) \<Rightarrow> feed_record
     \<Rightarrow> (string \<times> ServiceIPRange) list \<Rightarrow> error + (string \<times> ServiceIPRange) list" where
  "append_to_service app prefix service_ranges =
     (case map_of service_ranges (service prefix) of
        None \<Rightarrow> Inl (KeyError (service prefix))
      | Some r \<Rightarrow> Inr (dict_set (service prefix) (app (cidr prefix) r) service_ranges))"

fun search_prefixes ::
  "(string \<Rightarrow> ServiceIPRange \<Rightarrow> ServiceIPRange) \<Rightarrow> string set \<Rightarrow> feed_record list
     \<Rightarrow> (string \<times> ServiceIPRange) list \<Rightarrow> error + (string \<times> ServiceIPRange) list" where
  "search_prefixes app service_control [] service_ranges = Inr service_ranges"
| "search_prefixes app service_control (prefix # rest) service_ranges =
     (if service prefix @ ''-'' @ region prefix \<in> service_control then
        (case append_to_service app prefix service_ranges of
           Inl e \<Rightarrow> Inl e
         | Inr service_ranges' \<Rightarrow> search_prefixes app service_control rest service_ranges')
      else if service prefix \<in> service_control then
        (case append_to_service app prefix service_ranges of
           Inl e \<Rightarrow> Inl e
         | Inr service_ranges' \<Rightarrow> search_prefixes app service_control rest service_ranges')
      else search_prefixes app service_control rest service_ranges)"

text \<open>The last loop sorts both lists of every key, in the order of the keys.\<close>

fun sort_all ::
  "ipaddress \<Rightarrow> (string \<times> ServiceIPRange) list \<Rightarrow> error + (string \<times> ServiceIPRange) list" where
  "sort_all lib [] = Inr []"
| "sort_all lib ((service_name, r) # rest) =
     (case IPv4List_sort lib (ipv4 r) of
        Inl e \<Rightarrow> Inl e
      | Inr l4 \<Rightarrow>
          (case IPv6List_sort lib (ipv6 r) of
             Inl e \<Rightarrow> Inl e
           | Inr l6 \<Rightarrow>
               (case sort_all lib rest of
                  Inl e \<Rightarrow> Inl e
                | Inr rest' \<Rightarrow> Inr ((service_name, r\<lparr>ipv4 := l4, ipv6 := l6\<rparr>) # rest'))))"

definition get_ranges_for_service ::
  "ipaddress \<Rightarrow> ip_ranges \<Rightarrow> config_service list
     \<Rightarrow> error + (string \<times> ServiceIPRange) list" where
  "get_ranges_for_service lib ranges config_services =
     (case add_services config_services ({}, []) of
        Inl e \<Rightarrow> Inl e
      | Inr (service_control, service_ranges) \<Rightarrow>
          (case search_prefixes append_ipv4 service_control (prefixes ranges) service_ranges of
             Inl e \<Rightarrow> Inl e
           | Inr service_ranges4 \<Rightarrow>
               (case search_prefixes append_ipv6 service_control (ipv6_prefixes ranges)
                       service_ranges4 of
                  Inl e \<Rightarrow> Inl e
                | Inr service_ranges6 \<Rightarrow> sort_all lib service_ranges6)))"

section \<open>The backend\<close>

definition DESCRIPTION :: string where
  "DESCRIPTION = ''Managed by update IP ranges Lambda''"

definition RESOURCE_NAME_PREFIX :: string where
  "RESOURCE_NAME_PREFIX = ''aws-ip-ranges''"

text \<open>
  The items of the backend's answers that the program reads: the summary of an IP set in a
  listing, the description of a prefix list, an entry of a prefix list.
\<close>

record ip_set_summary =
  IPSet_Name :: string
  IPSet_Id :: string
  IPSet_LockToken :: string
  IPSet_Description :: string
  IPSet_ARN :: string

record prefix_list =
  PrefixListId :: string
  PrefixListName :: string
  MaxEntries :: int
  Version :: int
  State :: string
  StateMessage :: string

record entry =
  Cidr :: string
  Description :: "string option"

text \<open>
  The calls of the two clients with the arguments the program passes (an argument it leaves
  out is None, a list it leaves out is empty; the tags are left out), and \<open>time.sleep\<close>.
\<close>

datatype call =
    list_ip_sets (Scope: string) (NextMarker: "string option")
  | get_ip_set string string string
  | create_ip_set string string string "string list"
  | update_ip_set string string string string "string list" string
  | tag_resource string
  | describe_managed_prefix_lists "string option" "string list option"
  | get_managed_prefix_list_entries string int "string option"
  | create_managed_prefix_list string "entry list" int string
  | modify_managed_prefix_list string "int option" string "int option" "entry list" "string list"
  | create_tags string
  | sleep nat

datatype response =
    IPSets_page "ip_set_summary list" "string option"
  | IPSet_addresses "string list"
  | PrefixLists_page "prefix_list list" "string option"
  | Entries_page "entry list" "string option"
  | PrefixList_description prefix_list
  | Done

text \<open>
  A run is observed as the list of its calls, each with what it returned or raised. The
  backend is any function from the run so far and a call to that call's outcome.
\<close>

type_synonym event = "call \<times> (error + response)"

type_synonym backend = "event list \<Rightarrow> call \<Rightarrow> error + response"

definition invoke :: "backend \<Rightarrow> call \<Rightarrow> event list \<Rightarrow> (error + response) \<times> event list" where
  "invoke be c tr = (be tr c, tr @ [(c, be tr c)])"

definition time_sleep :: "nat \<Rightarrow> event list \<Rightarrow> event list" where
  "time_sleep seconds tr = tr @ [(sleep seconds, Inr Done)]"

text \<open>
  A function of the program returns, raises, or is still in a \<open>while\<close> loop when the fuel
  of that loop is used up.
\<close>

datatype 'a result = Return 'a | Raise error | Timeout

section \<open>WAF IPSet functions\<close>

text \<open>\<open>list_waf_ipset\<close>: the \<open>while True\<close> loop, entered with the response at hand.\<close>

fun list_waf_ipset_loop ::
  "nat \<Rightarrow> backend \<Rightarrow> string \<Rightarrow> ip_set_summary list \<Rightarrow> string option
     \<Rightarrow> (string \<times> ip_set_summary) list \<Rightarrow> event list
     \<Rightarrow> (string \<times> ip_set_summary) list result \<times> event list" where
  "list_waf_ipset_loop fuel be ipset_scope page marker ipsets tr =
     (let ipsets' = fold (\<lambda>ipset. dict_set (IPSet_Name ipset) ipset) page ipsets in
      case marker of
        None \<Rightarrow> (Return ipsets', tr)
      | Some next_marker \<Rightarrow>
          (case fuel of
             0 \<Rightarrow> (Timeout, tr)
           | Suc fuel' \<Rightarrow>
               (case invoke be (list_ip_sets ipset_scope (Some next_marker)) tr of
                  (Inl e, tr') \<Rightarrow> (Raise e, tr')
                | (Inr (IPSets_page page' marker'), tr') \<Rightarrow>
                    list_waf_ipset_loop fuel' be ipset_scope page' marker' ipsets' tr'
                | (Inr _, tr') \<Rightarrow> (Raise (KeyError ''IPSets''), tr'))))"

declare list_waf_ipset_loop.simps [simp del]

definition list_waf_ipset ::
  "nat \<Rightarrow> backend \<Rightarrow> string \<Rightarrow> event list
     \<Rightarrow> (string \<times> ip_set_summary) list result \<times> event list" where
  "list_waf_ipset fuel be ipset_scope tr =
     (case invoke be (list_ip_sets ipset_scope None) tr of
        (Inl e, tr') \<Rightarrow> (Raise e, tr')
      | (Inr (IPSets_page page marker), tr') \<Rightarrow>
          list_waf_ipset_loop fuel be ipset_scope page marker [] tr'
      | (Inr _, tr') \<Rightarrow> (Raise (KeyError ''IPSets''), tr'))"

text \<open>The loop that fills the dictionary of entries, from network to the entry's text.\<close>

fun ip_set_entries ::
  "ipaddress \<Rightarrow> string list \<Rightarrow> (network \<times> string) list \<Rightarrow> error + (network \<times> string) list" where
  "ip_set_entries lib [] entries = Inr entries"
| "ip_set_entries lib (entrie # rest) entries =
     (case ip_network lib entrie of
        Inl e \<Rightarrow> Inl e
      | Inr net \<Rightarrow> ip_set_entries lib rest (dict_set net entrie entries))"

definition get_ip_set_entries ::
  "ipaddress \<Rightarrow> backend \<Rightarrow> string \<Rightarrow> string \<Rightarrow> string \<Rightarrow> event list
     \<Rightarrow> (network \<times> string) list result \<times> event list" where
  "get_ip_set_entries lib be ipset_name ipset_scope ipset_id tr =
     (case invoke be (get_ip_set ipset_name ipset_scope ipset_id) tr of
        (Inl e, tr') \<Rightarrow> (Raise e, tr')
      | (Inr (IPSet_addresses addrs), tr') \<Rightarrow>
          (case ip_set_entries lib addrs [] of
             Inl e \<Rightarrow> (Raise e, tr')
           | Inr entries \<Rightarrow> (Return entries, tr'))
      | (Inr _, tr') \<Rightarrow> (Raise (KeyError ''IPSet''), tr'))"

definition create_waf_ipset ::
  "backend \<Rightarrow> string \<Rightarrow> string \<Rightarrow> string \<Rightarrow> string list \<Rightarrow> event list
     \<Rightarrow> unit result \<times> event list" where
  "create_waf_ipset be ipset_name ipset_scope ipset_version address_list tr =
     (case invoke be (create_ip_set ipset_name ipset_scope ipset_version address_list) tr of
        (Inl e, tr') \<Rightarrow> (Raise e, tr')
      | (Inr _, tr') \<Rightarrow> (Return (), tr'))"

definition update_waf_ipset ::
  "ipaddress \<Rightarrow> backend \<Rightarrow> string \<Rightarrow> string \<Rightarrow> ip_set_summary \<Rightarrow> string list \<Rightarrow> event list
     \<Rightarrow> bool result \<times> event list" where
  "update_waf_ipset lib be ipset_name ipset_scope waf_ipset address_list tr =
     (case parse_all (ip_network lib) address_list of
        Inl e \<Rightarrow> (Raise e, tr)
      | Inr network_list \<Rightarrow>
          (case get_ip_set_entries lib be ipset_name ipset_scope (IPSet_Id waf_ipset) tr of
             (Raise e, tr1) \<Rightarrow> (Raise e, tr1)
           | (Timeout, tr1) \<Rightarrow> (Timeout, tr1)
           | (Return current_entries, tr1) \<Rightarrow>
               (let entries_to_remove =
                      map (with_prefixlen lib)
                        (filter (\<lambda>cidr. cidr \<notin> set network_list) (map fst current_entries));
                    entries_to_add =
                      map (with_prefixlen lib)
                        (filter (\<lambda>cidr. cidr \<notin> set (map fst current_entries)) network_list)
                in if entries_to_add = [] \<and> entries_to_remove = [] then (Return False, tr1)
                   else
                     (case invoke be (update_ip_set ipset_name ipset_scope (IPSet_Id waf_ipset)
                                        (IPSet_Description waf_ipset) address_list
                                        (IPSet_LockToken waf_ipset)) tr1 of
                        (Inl e, tr2) \<Rightarrow> (Raise e, tr2)
                      | (Inr _, tr2) \<Rightarrow>
                          (case invoke be (tag_resource (IPSet_ARN waf_ipset)) tr2 of
                             (Inl e, tr3) \<Rightarrow> (Raise e, tr3)
                           | (Inr _, tr3) \<Rightarrow> (Return True, tr3))))))"

section \<open>Resource names\<close>

text \<open>\<open>str.lower()\<close> and \<open>str(index)\<close> on the ASCII letters and the decimal digits.\<close>

definition lower_char :: "char \<Rightarrow> char" where
  "lower_char c =
     (let n = (of_char c :: nat) in if 65 \<le> n \<and> n \<le> 90 then char_of (n + 32) else c)"

definition replace_underscore :: "char \<Rightarrow> char" where
  "replace_underscore c = (if c = CHR ''_'' then CHR ''-'' else c)"

fun str_nat :: "nat \<Rightarrow> string" where
  "str_nat n =
     (if n < 10 then [char_of (48 + n)] else str_nat (n div 10) @ [char_of (48 + n mod 10)])"

declare str_nat.simps [simp del]

fun ip_version_name :: "ip_version \<Rightarrow> string" where
  "ip_version_name IPV4 = ''ipv4''"
| "ip_version_name IPV6 = ''ipv6''"

fun ip_version_upper :: "ip_version \<Rightarrow> string" where
  "ip_version_upper IPV4 = ''IPV4''"
| "ip_version_upper IPV6 = ''IPV6''"

definition resource_name :: "string \<Rightarrow> ip_version \<Rightarrow> string" where
  "resource_name service_name ip_version =
     RESOURCE_NAME_PREFIX @ ''-'' @ map replace_underscore (map lower_char service_name)
       @ ''-'' @ ip_version_name ip_version"

definition chunk_name :: "string \<Rightarrow> nat \<Rightarrow> string" where
  "chunk_name base_prefix_list_name index =
     (if index = 0 then base_prefix_list_name
      else base_prefix_list_name @ ''-continued-'' @ str_nat index)"

text \<open>The names a manage function returns, and both kinds of them for the run.\<close>

record names =
  created :: "string list"
  updated :: "string list"

record resource_names =
  PrefixList_names :: names
  WafIPSet_names :: names

definition no_names :: names where
  "no_names = \<lparr>created = [], updated = []\<rparr>"

definition add_names :: "names \<Rightarrow> names \<Rightarrow> names" where
  "add_names a b = \<lparr>created = created a @ created b, updated = updated a @ updated b\<rparr>"

text \<open>
  \<open>asdict()[ip_version]\<close> of a ServiceIPRange: its list, and its \<open>summarized()\<close>, which
  may leave the summary stored in the object.
\<close>

fun family_ip_list :: "ip_version \<Rightarrow> ServiceIPRange \<Rightarrow> string list" where
  "family_ip_list IPV4 r = v4_ip_list (ipv4 r)"
| "family_ip_list IPV6 r = v6_ip_list (ipv6 r)"

fun family_summarized ::
  "ipaddress \<Rightarrow> ip_version \<Rightarrow> ServiceIPRange \<Rightarrow> error + (string list \<times> ServiceIPRange)" where
  "family_summarized lib IPV4 r =
     (case IPv4List_summarized lib (ipv4 r) of
        Inl e \<Rightarrow> Inl e
      | Inr (l, self') \<Rightarrow> Inr (l, r\<lparr>ipv4 := self'\<rparr>))"
| "family_summarized lib IPV6 r =
     (case IPv6List_summarized lib (ipv6 r) of
        Inl e \<Rightarrow> Inl e
      | Inr (l, self') \<Rightarrow> Inr (l, r\<lparr>ipv6 := self'\<rparr>))"

text \<open>
  The head of the loop body of both manage functions: the address list of one IP version,
  summarized when asked and longer than one entry.
\<close>

definition desired_list ::
  "ipaddress \<Rightarrow> bool \<Rightarrow> ip_version \<Rightarrow> ServiceIPRange \<Rightarrow> error + (string list \<times> ServiceIPRange)" where
  "desired_list lib should_summarize ip_version r =
     (if should_summarize \<and> length (family_ip_list ip_version r) > 1
      then family_summarized lib ip_version r
      else Inr (family_ip_list ip_version r, r))"

section \<open>WAF IPSet: create or update\<close>

definition manage_waf_ipset_version ::
  "ipaddress \<Rightarrow> backend \<Rightarrow> (string \<times> ip_set_summary) list \<Rightarrow> string \<Rightarrow> string \<Rightarrow> bool
     \<Rightarrow> ip_version \<Rightarrow> names \<Rightarrow> (string \<times> ServiceIPRange) list \<Rightarrow> event list
     \<Rightarrow> names result \<times> (string \<times> ServiceIPRange) list \<times> event list" where
  "manage_waf_ipset_version lib be waf_ipsets service_name ipset_scope should_summarize
       ip_version ipset_names service_ranges tr =
     (case map_of service_ranges service_name of
        None \<Rightarrow> (Raise (KeyError service_name), service_ranges, tr)
      | Some r \<Rightarrow>
          if family_ip_list ip_version r = [] then (Return ipset_names, service_ranges, tr)
          else
            (case desired_list lib should_summarize ip_version r of
               Inl e \<Rightarrow> (Raise e, service_ranges, tr)
             | Inr (address_list, r') \<Rightarrow>
                 (let service_ranges' = dict_set service_name r' service_ranges;
                      ipset_name = resource_name service_name ip_version
                  in case map_of waf_ipsets ipset_name of
                       Some waf_ipset \<Rightarrow>
                         (case update_waf_ipset lib be ipset_name ipset_scope waf_ipset
                                 address_list tr of
                            (Return upd, tr') \<Rightarrow>
                              (Return (if upd
                                       then ipset_names\<lparr>updated := updated ipset_names @ [ipset_name]\<rparr>
                                       else ipset_names), service_ranges', tr')
                          | (Raise e, tr') \<Rightarrow> (Raise e, service_ranges', tr')
                          | (Timeout, tr') \<Rightarrow> (Timeout, service_ranges', tr'))
                     | None \<Rightarrow>
                         (case create_waf_ipset be ipset_name ipset_scope
                                 (ip_version_upper ip_version) address_list tr of
                            (Return _, tr') \<Rightarrow>
                              (Return (ipset_names\<lparr>created := created ipset_names @ [ipset_name]\<rparr>),
                               service_ranges', tr')
                          | (Raise e, tr') \<Rightarrow> (Raise e, service_ranges', tr')
                          | (Timeout, tr') \<Rightarrow> (Timeout, service_ranges', tr')))))"

definition manage_waf_ipset ::
  "ipaddress \<Rightarrow> backend \<Rightarrow> (string \<times> ip_set_summary) list \<Rightarrow> string \<Rightarrow> string
     \<Rightarrow> (string \<times> ServiceIPRange) list \<Rightarrow> bool \<Rightarrow> event list
     \<Rightarrow> names result \<times> (string \<times> ServiceIPRange) list \<times> event list" where
  "manage_waf_ipset lib be waf_ipsets service_name ipset_scope service_ranges should_summarize tr =
     (case manage_waf_ipset_version lib be waf_ipsets service_name ipset_scope should_summarize
             IPV4 no_names service_ranges tr of
        (Return ipset_names, service_ranges', tr') \<Rightarrow>
          manage_waf_ipset_version lib be waf_ipsets service_name ipset_scope should_summarize
            IPV6 ipset_names service_ranges' tr'
      | (Raise e, service_ranges', tr') \<Rightarrow> (Raise e, service_ranges', tr')
      | (Timeout, service_ranges', tr') \<Rightarrow> (Timeout, service_ranges', tr'))"

section \<open>VPC Prefix List functions\<close>

fun list_prefix_lists_loop ::
  "nat \<Rightarrow> backend \<Rightarrow> prefix_list list \<Rightarrow> string option
     \<Rightarrow> (string \<times> prefix_list) list \<Rightarrow> event list
     \<Rightarrow> (string \<times> prefix_list) list result \<times> event list" where
  "list_prefix_lists_loop fuel be page token prefix_lists tr =
     (let prefix_lists' = fold (\<lambda>pl. dict_set (PrefixListName pl) pl) page prefix_lists in
      case token of
        None \<Rightarrow> (Return prefix_lists', tr)
      | Some next_token \<Rightarrow>
          (case fuel of
             0 \<Rightarrow> (Timeout, tr)
           | Suc fuel' \<Rightarrow>
               (case invoke be (describe_managed_prefix_lists (Some next_token) None) tr of
                  (Inl e, tr') \<Rightarrow> (Raise e, tr')
                | (Inr (PrefixLists_page page' token'), tr') \<Rightarrow>
                    list_prefix_lists_loop fuel' be page' token' prefix_lists' tr'
                | (Inr _, tr') \<Rightarrow> (Raise (KeyError ''PrefixLists''), tr'))))"

declare list_prefix_lists_loop.simps [simp del]

definition list_prefix_lists ::
  "nat \<Rightarrow> backend \<Rightarrow> event list \<Rightarrow> (string \<times> prefix_list) list result \<times> event list" where
  "list_prefix_lists fuel be tr =
     (case invoke be (describe_managed_prefix_lists None None) tr of
        (Inl e, tr') \<Rightarrow> (Raise e, tr')
      | (Inr (PrefixLists_page page token), tr') \<Rightarrow>
          list_prefix_lists_loop fuel be page token [] tr'
      | (Inr _, tr') \<Rightarrow> (Raise (KeyError ''PrefixLists''), tr'))"

definition get_prefix_list_by_id ::
  "backend \<Rightarrow> string \<Rightarrow> event list \<Rightarrow> prefix_list result \<times> event list" where
  "get_prefix_list_by_id be prefix_list_id tr =
     (case invoke be (describe_managed_prefix_lists None (Some [prefix_list_id])) tr of
        (Inl e, tr') \<Rightarrow> (Raise e, tr')
      | (Inr (PrefixLists_page page token), tr') \<Rightarrow>
          (case page of [] \<Rightarrow> (Raise IndexError, tr') | pl # _ \<Rightarrow> (Return pl, tr'))
      | (Inr _, tr') \<Rightarrow> (Raise (KeyError ''PrefixLists''), tr'))"

text \<open>
  The waiting loop \<open>for count in range(5)\<close>, which the program has in three places: it
  sleeps, reads the prefix list, and leaves with it when its state is one of \<open>complete\<close>;
  the \<open>else\<close> of the loop raises \<open>msg\<close>. (\<open>cnt\<close> is the program's \<open>count\<close>.)
\<close>

fun wait_prefix_list ::
  "backend \<Rightarrow> string \<Rightarrow> string list \<Rightarrow> string \<Rightarrow> nat list \<Rightarrow> event list
     \<Rightarrow> prefix_list result \<times> event list" where
  "wait_prefix_list be prefix_list_id complete msg [] tr = (Raise (Exception' msg), tr)"
| "wait_prefix_list be prefix_list_id complete msg (cnt # counts) tr =
     (let seconds_to_wait = cnt + (cnt + 1) in
      case get_prefix_list_by_id be prefix_list_id (time_sleep seconds_to_wait tr) of
        (Return pl, tr') \<Rightarrow>
          if State pl \<in> set complete then (Return pl, tr')
          else wait_prefix_list be prefix_list_id complete msg counts tr'
      | (Raise e, tr') \<Rightarrow> (Raise e, tr')
      | (Timeout, tr') \<Rightarrow> (Timeout, tr'))"

text \<open>\<open>response['PrefixList']\<close> of the response of a create or modify call.\<close>

fun PrefixList_of :: "response \<Rightarrow> error + prefix_list" where
  "PrefixList_of (PrefixList_description pl) = Inr pl"
| "PrefixList_of _ = Inl (KeyError ''PrefixList'')"

text \<open>\<open>range(start, stop, step)\<close> for a positive step.\<close>

definition py_range :: "nat \<Rightarrow> nat \<Rightarrow> nat \<Rightarrow> nat list" where
  "py_range start stop step =
     map (\<lambda>k. start + k * step) [0..<(stop - start + step - 1) div step]"

text \<open>
  The loop of the later requests of \<open>create_prefix_list\<close> and of \<open>update_prefix_list\<close>:
  \<open>waiting\<close> are the states in which the program waits, \<open>complete\<close> those that end the
  wait; \<open>create_prefix_list\<close> passes no entries to remove.
\<close>

fun modify_batches ::
  "backend \<Rightarrow> string list \<Rightarrow> string list \<Rightarrow> string \<Rightarrow> entry list \<Rightarrow> string list \<Rightarrow> nat list
     \<Rightarrow> response \<Rightarrow> event list \<Rightarrow> response result \<times> event list" where
  "modify_batches be waiting complete msg entries_to_add entries_to_remove [] response tr =
     (Return response, tr)"
| "modify_batches be waiting complete msg entries_to_add entries_to_remove (index # rest)
       response tr =
     (case PrefixList_of response of
        Inl e \<Rightarrow> (Raise e, tr)
      | Inr pl \<Rightarrow>
          (case (if State pl \<in> set waiting
                 then wait_prefix_list be (PrefixListId pl) complete msg [0..<5] tr
                 else (Return pl, tr)) of
             (Raise e, tr1) \<Rightarrow> (Raise e, tr1)
           | (Timeout, tr1) \<Rightarrow> (Timeout, tr1)
           | (Return pl1, tr1) \<Rightarrow>
               (case invoke be (modify_managed_prefix_list (PrefixListId pl1) (Some (Version pl1))
                                  (PrefixListName pl1) None
                                  (take 100 (drop index entries_to_add))
                                  (take 100 (drop index entries_to_remove))) tr1 of
                  (Inl e, tr2) \<Rightarrow> (Raise e, tr2)
                | (Inr response', tr2) \<Rightarrow>
                    modify_batches be waiting complete msg entries_to_add entries_to_remove
                      rest response' tr2)))"

definition create_prefix_list ::
  "backend \<Rightarrow> string \<Rightarrow> string \<Rightarrow> string list \<Rightarrow> event list \<Rightarrow> unit result \<times> event list" where
  "create_prefix_list be prefix_list_name prefix_list_ip_version address_list tr =
     (let prefix_list_entries =
            map (\<lambda>addr. \<lparr>Cidr = addr, Description = Some DESCRIPTION\<rparr>) address_list;
          max_entries = min (int (length prefix_list_entries) + 10) 1000
      in case invoke be (create_managed_prefix_list prefix_list_name
                           (take 100 prefix_list_entries) max_entries prefix_list_ip_version) tr of
           (Inl e, tr1) \<Rightarrow> (Raise e, tr1)
         | (Inr response, tr1) \<Rightarrow>
             (case modify_batches be [''create-in-progress'', ''modify-in-progress'']
                     [''create-complete'', ''modify-complete'']
                     ''Error creating/updating VPC Prefix List. Can't wait anymore.''
                     prefix_list_entries [] (py_range 100 (length prefix_list_entries) 100)
                     response tr1 of
                (Return _, tr2) \<Rightarrow> (Return (), tr2)
              | (Raise e, tr2) \<Rightarrow> (Raise e, tr2)
              | (Timeout, tr2) \<Rightarrow> (Timeout, tr2)))"

text \<open>The loop that fills the dictionary of entries, from network to description.\<close>

fun prefix_list_entries ::
  "ipaddress \<Rightarrow> entry list \<Rightarrow> (network \<times> string) list \<Rightarrow> error + (network \<times> string) list" where
  "prefix_list_entries lib [] entries = Inr entries"
| "prefix_list_entries lib (entrie # rest) entries =
     (case ip_network lib (Cidr entrie) of
        Inl e \<Rightarrow> Inl e
      | Inr net \<Rightarrow>
          prefix_list_entries lib rest
            (dict_set net (case Description entrie of Some d \<Rightarrow> d | None \<Rightarrow> []) entries))"

text \<open>\<open>get_prefix_list_entries\<close>: the entries of the response at hand, then the \<open>while\<close> loop.\<close>

fun get_prefix_list_entries_loop ::
  "nat \<Rightarrow> ipaddress \<Rightarrow> backend \<Rightarrow> string \<Rightarrow> int \<Rightarrow> entry list \<Rightarrow> string option
     \<Rightarrow> (network \<times> string) list \<Rightarrow> event list
     \<Rightarrow> (network \<times> string) list result \<times> event list" where
  "get_prefix_list_entries_loop fuel lib be prefix_list_id prefix_list_version page token
       entries tr =
     (case prefix_list_entries lib page entries of
        Inl e \<Rightarrow> (Raise e, tr)
      | Inr entries' \<Rightarrow>
          (case token of
             None \<Rightarrow> (Return entries', tr)
           | Some next_token \<Rightarrow>
               (case fuel of
                  0 \<Rightarrow> (Timeout, tr)
                | Suc fuel' \<Rightarrow>
                    (case invoke be (get_managed_prefix_list_entries prefix_list_id
                                       prefix_list_version (Some next_token)) tr of
                       (Inl e, tr') \<Rightarrow> (Raise e, tr')
                     | (Inr (Entries_page page' token'), tr') \<Rightarrow>
                         get_prefix_list_entries_loop fuel' lib be prefix_list_id
                           prefix_list_version page' token' entries' tr'
                     | (Inr _, tr') \<Rightarrow> (Raise (KeyError ''Entries''), tr')))))"

declare get_prefix_list_entries_loop.simps [simp del]

definition get_prefix_list_entries ::
  "nat \<Rightarrow> ipaddress \<Rightarrow> backend \<Rightarrow> string \<Rightarrow> string \<Rightarrow> int \<Rightarrow> event list
     \<Rightarrow> (network \<times> string) list result \<times> event list" where
  "get_prefix_list_entries fuel lib be prefix_list_name prefix_list_id prefix_list_version tr =
     (case invoke be (get_managed_prefix_list_entries prefix_list_id prefix_list_version None) tr of
        (Inl e, tr') \<Rightarrow> (Raise e, tr')
      | (Inr (Entries_page page token), tr') \<Rightarrow>
          get_prefix_list_entries_loop fuel lib be prefix_list_id prefix_list_version page token
            [] tr'
      | (Inr _, tr') \<Rightarrow> (Raise (KeyError ''Entries''), tr'))"

text \<open>
  \<open>update_prefix_list\<close>, the part under \<open>if entries_to_add\<close>: the request that changes
  the max entries alone, and the wait for it. It returns the version for the next request.
\<close>

definition change_max_entries ::
  "backend \<Rightarrow> string \<Rightarrow> string \<Rightarrow> int \<Rightarrow> int \<Rightarrow> string list \<Rightarrow> entry list \<Rightarrow> event list
     \<Rightarrow> int result \<times> event list" where
  "change_max_entries be prefix_list_name prefix_list_id prefix_list_max_entries
       prefix_list_version address_list entries_to_add tr =
     (if entries_to_add \<noteq> [] then
        (if prefix_list_max_entries < int (length address_list) then
           (case invoke be (modify_managed_prefix_list prefix_list_id None prefix_list_name
                              (Some (int (length address_list))) [] []) tr of
              (Inl e, tr1) \<Rightarrow> (Raise e, tr1)
            | (Inr response, tr1) \<Rightarrow>
                (case PrefixList_of response of
                   Inl e \<Rightarrow> (Raise e, tr1)
                 | Inr pl \<Rightarrow>
                     if State pl \<notin> set [''modify-in-progress'', ''modify-complete'', ''modify-failed'']
                     then (Raise (Exception' ''Error updating VPC Prefix List max entries. Invalid state.''), tr1)
                     else if State pl = ''modify-failed''
                     then (Raise (Exception' ''Error updating VPC Prefix List max entries. State is modify-failed.''), tr1)
                     else if State pl = ''modify-in-progress''
                     then
                       (case wait_prefix_list be prefix_list_id [''modify-complete'']
                               ''Error updating VPC Prefix List max entries. Can't wait anymore.''
                               [0..<5] tr1 of
                          (Return _, tr2) \<Rightarrow> (Return (Version pl), tr2)
                        | (Raise e, tr2) \<Rightarrow> (Raise e, tr2)
                        | (Timeout, tr2) \<Rightarrow> (Timeout, tr2))
                     else (Return (Version pl), tr1)))
         else (Return prefix_list_version, tr))
      else (Return prefix_list_version, tr))"

text \<open>The requests that change the entries, a hundred at a time, and the tag.\<close>

definition update_entries ::
  "backend \<Rightarrow> string \<Rightarrow> string \<Rightarrow> int \<Rightarrow> entry list \<Rightarrow> string list \<Rightarrow> event list
     \<Rightarrow> bool result \<times> event list" where
  "update_entries be prefix_list_name prefix_list_id prefix_list_version entries_to_add
       entries_to_remove tr =
     (case invoke be (modify_managed_prefix_list prefix_list_id (Some prefix_list_version)
                        prefix_list_name None (take 100 entries_to_add)
                        (take 100 entries_to_remove)) tr of
        (Inl e, tr1) \<Rightarrow> (Raise e, tr1)
      | (Inr response, tr1) \<Rightarrow>
          (case modify_batches be [''modify-in-progress''] [''modify-complete'']
                  ''Error updating VPC Prefix List. Can't wait anymore.''
                  entries_to_add entries_to_remove
                  (py_range 100 (max (length entries_to_add) (length entries_to_remove)) 100)
                  response tr1 of
             (Raise e, tr2) \<Rightarrow> (Raise e, tr2)
           | (Timeout, tr2) \<Rightarrow> (Timeout, tr2)
           | (Return _, tr2) \<Rightarrow>
               (case invoke be (create_tags prefix_list_id) tr2 of
                  (Inl e, tr3) \<Rightarrow> (Raise e, tr3)
                | (Inr _, tr3) \<Rightarrow> (Return True, tr3))))"

text \<open>The two lists that \<open>update_prefix_list\<close> filters out of the desired and current networks.\<close>

definition prefix_list_entries_to_remove ::
  "ipaddress \<Rightarrow> network list \<Rightarrow> (network \<times> string) list \<Rightarrow> string list" where
  "prefix_list_entries_to_remove lib network_list current_entries =
     map (with_prefixlen lib)
       (filter (\<lambda>cidr. cidr \<notin> set network_list) (map fst current_entries))"

definition prefix_list_entries_to_add ::
  "ipaddress \<Rightarrow> network list \<Rightarrow> (network \<times> string) list \<Rightarrow> entry list" where
  "prefix_list_entries_to_add lib network_list current_entries =
     map (\<lambda>cidr. \<lparr>Cidr = with_prefixlen lib cidr, Description = Some DESCRIPTION\<rparr>)
       (filter (\<lambda>cidr. cidr \<notin> set (map fst current_entries)) network_list)"

definition update_prefix_list ::
  "nat \<Rightarrow> ipaddress \<Rightarrow> backend \<Rightarrow> string \<Rightarrow> prefix_list \<Rightarrow> string list \<Rightarrow> event list
     \<Rightarrow> bool result \<times> event list" where
  "update_prefix_list fuel lib be prefix_list_name prefix_list address_list tr =
     (case parse_all (ip_network lib) address_list of
        Inl e \<Rightarrow> (Raise e, tr)
      | Inr network_list \<Rightarrow>
          (case get_prefix_list_entries fuel lib be prefix_list_name (PrefixListId prefix_list)
                  (Version prefix_list) tr of
             (Raise e, tr1) \<Rightarrow> (Raise e, tr1)
           | (Timeout, tr1) \<Rightarrow> (Timeout, tr1)
           | (Return current_entries, tr1) \<Rightarrow>
               (let entries_to_remove =
                      prefix_list_entries_to_remove lib network_list current_entries;
                    entries_to_add = prefix_list_entries_to_add lib network_list current_entries
                in if entries_to_add = [] \<and> entries_to_remove = [] then (Return False, tr1)
                   else
                     (case change_max_entries be prefix_list_name (PrefixListId prefix_list)
                             (MaxEntries prefix_list) (Version prefix_list) address_list
                             entries_to_add tr1 of
                        (Raise e, tr2) \<Rightarrow> (Raise e, tr2)
                      | (Timeout, tr2) \<Rightarrow> (Timeout, tr2)
                      | (Return prefix_list_version, tr2) \<Rightarrow>
                          update_entries be prefix_list_name (PrefixListId prefix_list)
                            prefix_list_version entries_to_add entries_to_remove tr2))))"

section \<open>VPC Prefix List: create or update\<close>

text \<open>\<open>itertools.batched\<close>: ValueError for a size below one, else tuples of that length.\<close>

function chunks :: "nat \<Rightarrow> 'a list \<Rightarrow> 'a list list" where
  "chunks n xs = (if n = 0 \<or> xs = [] then [] else take n xs # chunks n (drop n xs))"
  by pat_completeness auto
termination
  by (relation "measure (\<lambda>(n, xs). length xs)") auto

declare chunks.simps [simp del]

definition batched :: "'a list \<Rightarrow> int \<Rightarrow> error + 'a list list" where
  "batched iterable n = (if n < 1 then Inl BatchedValueError else Inr (chunks (nat n) iterable))"

definition enumerate_list :: "'a list \<Rightarrow> (nat \<times> 'a) list" where
  "enumerate_list xs = zip [0..<length xs] xs"

text \<open>The loop over the enumerated chunks of one IP version.\<close>

fun manage_chunks ::
  "nat \<Rightarrow> ipaddress \<Rightarrow> backend \<Rightarrow> (string \<times> prefix_list) list \<Rightarrow> string \<Rightarrow> ip_version
     \<Rightarrow> (nat \<times> string list) list \<Rightarrow> names \<Rightarrow> event list \<Rightarrow> names result \<times> event list" where
  "manage_chunks fuel lib be vpc_prefix_lists base_prefix_list_name ip_version []
       prefix_list_names tr = (Return prefix_list_names, tr)"
| "manage_chunks fuel lib be vpc_prefix_lists base_prefix_list_name ip_version
       ((index, address_list_chunk) # rest) prefix_list_names tr =
     (let prefix_list_name = chunk_name base_prefix_list_name index in
      case map_of vpc_prefix_lists prefix_list_name of
        Some pl \<Rightarrow>
          (case update_prefix_list fuel lib be prefix_list_name pl address_list_chunk tr of
             (Return upd, tr') \<Rightarrow>
               manage_chunks fuel lib be vpc_prefix_lists base_prefix_list_name ip_version rest
                 (if upd then prefix_list_names\<lparr>updated := updated prefix_list_names @ [prefix_list_name]\<rparr>
                  else prefix_list_names) tr'
           | (Raise e, tr') \<Rightarrow> (Raise e, tr')
           | (Timeout, tr') \<Rightarrow> (Timeout, tr'))
      | None \<Rightarrow>
          (case create_prefix_list be prefix_list_name (ip_version_upper ip_version)
                  address_list_chunk tr of
             (Return _, tr') \<Rightarrow>
               manage_chunks fuel lib be vpc_prefix_lists base_prefix_list_name ip_version rest
                 (prefix_list_names\<lparr>created := created prefix_list_names @ [prefix_list_name]\<rparr>) tr'
           | (Raise e, tr') \<Rightarrow> (Raise e, tr')
           | (Timeout, tr') \<Rightarrow> (Timeout, tr')))"

definition manage_prefix_list_version ::
  "nat \<Rightarrow> ipaddress \<Rightarrow> backend \<Rightarrow> (string \<times> prefix_list) list \<Rightarrow> string \<Rightarrow> bool \<Rightarrow> int
     \<Rightarrow> ip_version \<Rightarrow> names \<Rightarrow> (string \<times> ServiceIPRange) list \<Rightarrow> event list
     \<Rightarrow> names result \<times> (string \<times> ServiceIPRange) list \<times> event list" where
  "manage_prefix_list_version fuel lib be vpc_prefix_lists service_name should_summarize
       chunk_size ip_version prefix_list_names service_ranges tr =
     (case map_of service_ranges service_name of
        None \<Rightarrow> (Raise (KeyError service_name), service_ranges, tr)
      | Some r \<Rightarrow>
          if family_ip_list ip_version r = [] then (Return prefix_list_names, service_ranges, tr)
          else
            (case desired_list lib should_summarize ip_version r of
               Inl e \<Rightarrow> (Raise e, service_ranges, tr)
             | Inr (address_list, r') \<Rightarrow>
                 (let service_ranges' = dict_set service_name r' service_ranges;
                      base_prefix_list_name = resource_name service_name ip_version
                  in case batched address_list chunk_size of
                       Inl e \<Rightarrow> (Raise e, service_ranges', tr)
                     | Inr address_list_chunks \<Rightarrow>
                         (case manage_chunks fuel lib be vpc_prefix_lists base_prefix_list_name
                                 ip_version (enumerate_list address_list_chunks)
                                 prefix_list_names tr of
                            (res, tr') \<Rightarrow> (res, service_ranges', tr')))))"

definition manage_prefix_list ::
  "nat \<Rightarrow> ipaddress \<Rightarrow> backend \<Rightarrow> (string \<times> prefix_list) list \<Rightarrow> string
     \<Rightarrow> (string \<times> ServiceIPRange) list \<Rightarrow> bool \<Rightarrow> int \<Rightarrow> event list
     \<Rightarrow> names result \<times> (string \<times> ServiceIPRange) list \<times> event list" where
  "manage_prefix_list fuel lib be vpc_prefix_lists service_name service_ranges should_summarize
       chunk_size tr =
     (case manage_prefix_list_version fuel lib be vpc_prefix_lists service_name should_summarize
             chunk_size IPV4 no_names service_ranges tr of
        (Return prefix_list_names, service_ranges', tr') \<Rightarrow>
          manage_prefix_list_version fuel lib be vpc_prefix_lists service_name should_summarize
            chunk_size IPV6 prefix_list_names service_ranges' tr'
      | (Raise e, service_ranges', tr') \<Rightarrow> (Raise e, service_ranges', tr')
      | (Timeout, service_ranges', tr') \<Rightarrow> (Timeout, service_ranges', tr'))"

section \<open>Lambda entry point\<close>

text \<open>
  The state of the two loops of \<open>lambda_handler\<close>: the listing kept for the run, the names
  gathered so far, the service ranges (whose lists keep their summaries) and the run so far.
\<close>

record 'c loop_state =
  listing :: 'c
  gathered :: names
  ranges :: "(string \<times> ServiceIPRange) list"
  run :: "event list"

text \<open>
  The body of the first loop for one service. Its \<open>try\<close> catches every exception: what was
  assigned before the exception stays, the names of the failed call are not added.
\<close>

definition handle_prefix_list ::
  "nat \<Rightarrow> ipaddress \<Rightarrow> backend \<Rightarrow> config_service \<Rightarrow> (string \<times> prefix_list) list loop_state
     \<Rightarrow> (string \<times> prefix_list) list loop_state option" where
  "handle_prefix_list fuel lib be config_service st =
     (if Name config_service \<notin> set (map fst (ranges st)) then Some st
      else
        (case PrefixList config_service of
           None \<Rightarrow> Some st
         | Some pl_config \<Rightarrow>
             if \<not> pl_Enable pl_config then Some st
             else
               (case (if listing st = [] then list_prefix_lists fuel be (run st)
                      else (Return (listing st), run st)) of
                  (Timeout, tr1) \<Rightarrow> None
                | (Raise e, tr1) \<Rightarrow> Some (st\<lparr>run := tr1\<rparr>)
                | (Return vpc_prefix_lists, tr1) \<Rightarrow>
                    (let should_summarize = pl_Summarize pl_config;
                         chunk_size = (case pl_ChunkSize pl_config of None \<Rightarrow> 998 | Some c \<Rightarrow> c)
                     in case manage_prefix_list fuel lib be vpc_prefix_lists (Name config_service)
                               (ranges st) should_summarize chunk_size tr1 of
                          (Timeout, service_ranges', tr2) \<Rightarrow> None
                        | (Raise e, service_ranges', tr2) \<Rightarrow>
                            Some (st\<lparr>listing := vpc_prefix_lists, ranges := service_ranges',
                                     run := tr2\<rparr>)
                        | (Return prefix_list_names, service_ranges', tr2) \<Rightarrow>
                            Some (st\<lparr>listing := vpc_prefix_lists,
                                     gathered := add_names (gathered st) prefix_list_names,
                                     ranges := service_ranges', run := tr2\<rparr>)))))"

fun handle_prefix_lists ::
  "nat \<Rightarrow> ipaddress \<Rightarrow> backend \<Rightarrow> config_service list \<Rightarrow> (string \<times> prefix_list) list loop_state
     \<Rightarrow> (string \<times> prefix_list) list loop_state option" where
  "handle_prefix_lists fuel lib be [] st = Some st"
| "handle_prefix_lists fuel lib be (config_service # rest) st =
     (case handle_prefix_list fuel lib be config_service st of
        None \<Rightarrow> None
      | Some st' \<Rightarrow> handle_prefix_lists fuel lib be rest st')"

text \<open>The body of the loop over the scopes of one service, with its \<open>try\<close>.\<close>

definition handle_waf_scope ::
  "nat \<Rightarrow> ipaddress \<Rightarrow> backend \<Rightarrow> string \<Rightarrow> waf_ipset_config \<Rightarrow> string
     \<Rightarrow> (string \<times> (string \<times> ip_set_summary) list) list loop_state
     \<Rightarrow> (string \<times> (string \<times> ip_set_summary) list) list loop_state option" where
  "handle_waf_scope fuel lib be service_name waf_config ipset_scope st =
     (case (case map_of (listing st) ipset_scope of
              Some waf_ipsets \<Rightarrow> (Return (waf_ipsets, listing st), run st)
            | None \<Rightarrow>
                (case list_waf_ipset fuel be ipset_scope (run st) of
                   (Return waf_ipsets, tr1) \<Rightarrow>
                     (Return (waf_ipsets, dict_set ipset_scope waf_ipsets (listing st)), tr1)
                 | (Raise e, tr1) \<Rightarrow> (Raise e, tr1)
                 | (Timeout, tr1) \<Rightarrow> (Timeout, tr1))) of
        (Timeout, tr1) \<Rightarrow> None
      | (Raise e, tr1) \<Rightarrow> Some (st\<lparr>run := tr1\<rparr>)
      | (Return (waf_ipsets, waf_ipsets_by_scope), tr1) \<Rightarrow>
          (case manage_waf_ipset lib be waf_ipsets service_name ipset_scope (ranges st)
                  (waf_Summarize waf_config) tr1 of
             (Timeout, service_ranges', tr2) \<Rightarrow> None
           | (Raise e, service_ranges', tr2) \<Rightarrow>
               Some (st\<lparr>listing := waf_ipsets_by_scope, ranges := service_ranges', run := tr2\<rparr>)
           | (Return ipset_names, service_ranges', tr2) \<Rightarrow>
               Some (st\<lparr>listing := waf_ipsets_by_scope,
                        gathered := add_names (gathered st) ipset_names,
                        ranges := service_ranges', run := tr2\<rparr>)))"

fun handle_waf_scopes ::
  "nat \<Rightarrow> ipaddress \<Rightarrow> backend \<Rightarrow> string \<Rightarrow> waf_ipset_config \<Rightarrow> string list
     \<Rightarrow> (string \<times> (string \<times> ip_set_summary) list) list loop_state
     \<Rightarrow> (string \<times> (string \<times> ip_set_summary) list) list loop_state option" where
  "handle_waf_scopes fuel lib be service_name waf_config [] st = Some st"
| "handle_waf_scopes fuel lib be service_name waf_config (ipset_scope # rest) st =
     (case handle_waf_scope fuel lib be service_name waf_config ipset_scope st of
        None \<Rightarrow> None
      | Some st' \<Rightarrow> handle_waf_scopes fuel lib be service_name waf_config rest st')"

definition handle_waf_ipset ::
  "nat \<Rightarrow> ipaddress \<Rightarrow> backend \<Rightarrow> config_service
     \<Rightarrow> (string \<times> (string \<times> ip_set_summary) list) list loop_state
     \<Rightarrow> (string \<times> (string \<times> ip_set_summary) list) list loop_state option" where
  "handle_waf_ipset fuel lib be config_service st =
     (if Name config_service \<notin> set (map fst (ranges st)) then Some st
      else
        (case WafIPSet config_service of
           None \<Rightarrow> Some st
         | Some waf_config \<Rightarrow>
             if \<not> waf_Enable waf_config then Some st
             else handle_waf_scopes fuel lib be (Name config_service) waf_config
                    (waf_Scopes waf_config) st))"

fun handle_waf_ipsets ::
  "nat \<Rightarrow> ipaddress \<Rightarrow> backend \<Rightarrow> config_service list
     \<Rightarrow> (string \<times> (string \<times> ip_set_summary) list) list loop_state
     \<Rightarrow> (string \<times> (string \<times> ip_set_summary) list) list loop_state option" where
  "handle_waf_ipsets fuel lib be [] st = Some st"
| "handle_waf_ipsets fuel lib be (config_service # rest) st =
     (case handle_waf_ipset fuel lib be config_service st of
        None \<Rightarrow> None
      | Some st' \<Rightarrow> handle_waf_ipsets fuel lib be rest st')"

text \<open>
  \<open>lambda_handler\<close>. What comes before the extraction (reading and parsing services.json,
  the message of the event, fetching, checking and parsing the feed) is taken by its
  outcome \<open>setup\<close>: the exception it raised, or the configuration and the feed. None is a
  run that is still in a \<open>while\<close> loop when the fuel is used up.
\<close>

definition lambda_handler ::
  "nat \<Rightarrow> ipaddress \<Rightarrow> backend \<Rightarrow> error + (config_service list \<times> ip_ranges) \<Rightarrow> event list
     \<Rightarrow> ((error + resource_names) \<times> event list) option" where
  "lambda_handler fuel lib be setup tr =
     (case setup of
        Inl e \<Rightarrow> Some (Inl e, tr)
      | Inr (config_services, ip_ranges) \<Rightarrow>
          (case get_ranges_for_service lib ip_ranges config_services of
             Inl e \<Rightarrow> Some (Inl e, tr)
           | Inr service_ranges \<Rightarrow>
               (case handle_prefix_lists fuel lib be config_services
                       \<lparr>listing = [], gathered = no_names, ranges = service_ranges, run = tr\<rparr> of
                  None \<Rightarrow> None
                | Some st1 \<Rightarrow>
                    (case handle_waf_ipsets fuel lib be config_services
                            \<lparr>listing = [], gathered = no_names, ranges = ranges st1,
                             run = run st1\<rparr> of
                       None \<Rightarrow> None
                     | Some st2 \<Rightarrow>
                         Some (Inr \<lparr>PrefixList_names = gathered st1,
                                    WafIPSet_names = gathered st2\<rparr>, run st2)))))"

section \<open>The text of the ipaddress module\<close>

text \<open>
  An instance of the parameter \<open>ipaddress\<close>, for runs on concrete text: IPv4 text as the
  module reads it (four decimal octets without leading zeros, then nothing, a prefix
  length, a netmask or a hostmask), IPv6 text in its unabbreviated spelling only (eight
  groups of hexadecimal digits and an optional prefix length), and the module's printing.
\<close>

definition digit_of :: "char \<Rightarrow> nat option" where
  "digit_of c = (let n = (of_char c :: nat) in if 48 \<le> n \<and> n \<le> 57 then Some (n - 48) else None)"

definition hex_digit_of :: "char \<Rightarrow> nat option" where
  "hex_digit_of c =
     (let n = (of_char c :: nat) in
      if 48 \<le> n \<and> n \<le> 57 then Some (n - 48)
      else if 65 \<le> n \<and> n \<le> 70 then Some (n - 55)
      else if 97 \<le> n \<and> n \<le> 102 then Some (n - 87)
      else None)"

text \<open>\<open>int(s, base)\<close> of a string of digits, from the value read so far.\<close>

fun int_of_digits :: "(char \<Rightarrow> nat option) \<Rightarrow> nat \<Rightarrow> string \<Rightarrow> nat \<Rightarrow> nat option" where
  "int_of_digits dig base [] acc = Some acc"
| "int_of_digits dig base (c # cs) acc =
     (case dig c of None \<Rightarrow> None | Some d \<Rightarrow> int_of_digits dig base cs (base * acc + d))"

text \<open>\<open>str.split(sep)\<close> for a separator of one character.\<close>

fun split :: "char \<Rightarrow> string \<Rightarrow> string list" where
  "split sep [] = [[]]"
| "split sep (c # cs) =
     (if c = sep then [] # split sep cs
      else (case split sep cs of [] \<Rightarrow> [[c]] | p # ps \<Rightarrow> (c # p) # ps))"

fun join :: "string \<Rightarrow> string list \<Rightarrow> string" where
  "join sep [] = []"
| "join sep [x] = x"
| "join sep (x # y # zs) = x @ sep @ join sep (y # zs)"

definition parse_octet :: "string \<Rightarrow> nat option" where
  "parse_octet octet_str =
     (if octet_str = [] then None
      else
        (case int_of_digits digit_of 10 octet_str 0 of
           None \<Rightarrow> None
         | Some octet_int \<Rightarrow>
             if length octet_str > 3 then None
             else if octet_str \<noteq> ''0'' \<and> hd octet_str = CHR ''0'' then None
             else if octet_int > 255 then None
             else Some octet_int))"

definition ip_int_from_string_v4 :: "string \<Rightarrow> nat option" where
  "ip_int_from_string_v4 ip_str =
     (case map parse_octet (split CHR ''.'' ip_str) of
        [Some a, Some b, Some c, Some d] \<Rightarrow> Some (((a * 256 + b) * 256 + c) * 256 + d)
      | _ \<Rightarrow> None)"

definition prefix_from_prefix_string :: "nat \<Rightarrow> string \<Rightarrow> nat option" where
  "prefix_from_prefix_string max_len prefixlen_str =
     (if prefixlen_str = [] then None
      else
        (case int_of_digits digit_of 10 prefixlen_str 0 of
           None \<Rightarrow> None
         | Some l \<Rightarrow> if l \<le> max_len then Some l else None))"

definition prefix_from_ip_int :: "nat \<Rightarrow> nat option" where
  "prefix_from_ip_int ip_int =
     (let trailing_zeroes = count_righthand_zero_bits ip_int 32;
          l = 32 - trailing_zeroes;
          leading_ones = ip_int div 2 ^ trailing_zeroes;
          all_ones = 2 ^ l - 1
      in if leading_ones \<noteq> all_ones then None else Some l)"

definition prefix_from_ip_string :: "string \<Rightarrow> nat option" where
  "prefix_from_ip_string ip_str =
     (case ip_int_from_string_v4 ip_str of
        None \<Rightarrow> None
      | Some ip_int \<Rightarrow>
          (case prefix_from_ip_int ip_int of
             Some l \<Rightarrow> Some l
           | None \<Rightarrow> prefix_from_ip_int (ALL_ONES IPV4 - ip_int)))"

definition make_netmask_v4 :: "string \<Rightarrow> nat option" where
  "make_netmask_v4 arg =
     (case prefix_from_prefix_string 32 arg of
        Some l \<Rightarrow> Some l
      | None \<Rightarrow> prefix_from_ip_string arg)"

definition read_v4_text :: "string \<Rightarrow> (nat \<times> nat) option" where
  "read_v4_text address =
     (case split CHR ''/'' address of
        [addr_str] \<Rightarrow> (case ip_int_from_string_v4 addr_str of None \<Rightarrow> None | Some a \<Rightarrow> Some (a, 32))
      | [addr_str, mask_str] \<Rightarrow>
          (case ip_int_from_string_v4 addr_str of
             None \<Rightarrow> None
           | Some a \<Rightarrow> (case make_netmask_v4 mask_str of None \<Rightarrow> None | Some l \<Rightarrow> Some (a, l)))
      | _ \<Rightarrow> None)"

definition parse_hextet :: "string \<Rightarrow> nat option" where
  "parse_hextet hextet_str =
     (if hextet_str = [] \<or> length hextet_str > 4 then None
      else int_of_digits hex_digit_of 16 hextet_str 0)"

fun all_some :: "'a option list \<Rightarrow> 'a list option" where
  "all_some [] = Some []"
| "all_some (x # xs) =
     (case x of None \<Rightarrow> None
      | Some a \<Rightarrow> (case all_some xs of None \<Rightarrow> None | Some as \<Rightarrow> Some (a # as)))"

definition ip_int_from_hextets :: "string \<Rightarrow> nat option" where
  "ip_int_from_hextets ip_str =
     (let parts = split CHR '':'' ip_str in
      if length parts \<noteq> 8 then None
      else (case all_some (map parse_hextet parts) of
              None \<Rightarrow> None
            | Some hs \<Rightarrow> Some (fold (\<lambda>h ip_int. ip_int * 65536 + h) hs 0)))"

definition read_v6_text :: "string \<Rightarrow> (nat \<times> nat) option" where
  "read_v6_text address =
     (case split CHR ''/'' address of
        [addr_str] \<Rightarrow> (case ip_int_from_hextets addr_str of None \<Rightarrow> None | Some a \<Rightarrow> Some (a, 128))
      | [addr_str, mask_str] \<Rightarrow>
          (case ip_int_from_hextets addr_str of
             None \<Rightarrow> None
           | Some a \<Rightarrow>
               (case prefix_from_prefix_string 128 mask_str of None \<Rightarrow> None | Some l \<Rightarrow> Some (a, l)))
      | _ \<Rightarrow> None)"

definition hex_char :: "nat \<Rightarrow> char" where
  "hex_char d = (if d < 10 then char_of (48 + d) else char_of (87 + d))"

fun hex_nat :: "nat \<Rightarrow> string" where
  "hex_nat n = (if n < 16 then [hex_char n] else hex_nat (n div 16) @ [hex_char (n mod 16)])"

declare hex_nat.simps [simp del]

definition hextets_of :: "nat \<Rightarrow> nat list" where
  "hextets_of ip_int = map (\<lambda>i. ip_int div 65536 ^ (7 - i) mod 65536) [0..<8]"

definition hextet4 :: "nat \<Rightarrow> string" where
  "hextet4 h =
     [hex_char (h div 4096), hex_char (h div 256 mod 16), hex_char (h div 16 mod 16),
      hex_char (h mod 16)]"

text \<open>The loop of \<open>_compress_hextets\<close>; a start of -1 is None.\<close>

fun best_doublecolon ::
  "(nat \<times> string) list \<Rightarrow> nat option \<Rightarrow> nat \<Rightarrow> nat option \<Rightarrow> nat \<Rightarrow> nat option \<times> nat" where
  "best_doublecolon [] best_start best_len start len = (best_start, best_len)"
| "best_doublecolon ((index, hextet) # rest) best_start best_len start len =
     (if hextet = ''0'' then
        (let len' = len + 1;
             start' = (case start of None \<Rightarrow> Some index | Some i \<Rightarrow> Some i)
         in if len' > best_len then best_doublecolon rest start' len' start' len'
            else best_doublecolon rest best_start best_len start' len')
      else best_doublecolon rest best_start best_len None 0)"

definition compress_hextets :: "string list \<Rightarrow> string list" where
  "compress_hextets hextets =
     (case best_doublecolon (enumerate_list hextets) None 0 None 0 of
        (Some best_start, best_len) \<Rightarrow>
          if best_len > 1 then
            (let best_end = best_start + best_len;
                 hextets1 = (if best_end = length hextets then hextets @ [[]] else hextets);
                 hextets2 = take best_start hextets1 @ [[]] @ drop best_end hextets1
             in if best_start = 0 then [] # hextets2 else hextets2)
          else hextets
      | (None, best_len) \<Rightarrow> hextets)"

definition string_from_ip_int :: "ip_version \<Rightarrow> nat \<Rightarrow> string" where
  "string_from_ip_int v ip_int =
     (case v of
        IPV4 \<Rightarrow>
          join ''.'' (map (\<lambda>i. str_nat (ip_int div 256 ^ (3 - i) mod 256)) [0..<4])
      | IPV6 \<Rightarrow> join '':'' (compress_hextets (map hex_nat (hextets_of ip_int))))"

definition text_with_prefixlen :: "network \<Rightarrow> string" where
  "text_with_prefixlen n =
     string_from_ip_int (version n) (network_address n) @ ''/'' @ str_nat (prefixlen n)"

definition text_exploded :: "network \<Rightarrow> string" where
  "text_exploded n =
     (case version n of
        IPV4 \<Rightarrow> text_with_prefixlen n
      | IPV6 \<Rightarrow>
          join '':'' (map hextet4 (hextets_of (network_address n))) @ ''/'' @ str_nat (prefixlen n))"

definition ipaddress_text :: ipaddress where
  "ipaddress_text =
     \<lparr>read_v4 = read_v4_text, read_v6 = read_v6_text,
      with_prefixlen = text_with_prefixlen, exploded = text_exploded\<rparr>"

section \<open>The extraction in the words of the specification\<close>

text \<open>
  The lookup key space of a configuration: one key per service and region of a service
  with regions, the service name alone for a service with an empty list of regions.
\<close>

definition lookup_keys :: "config_service list \<Rightarrow> string set" where
  "lookup_keys config_services =
     (\<Union>c\<in>set config_services.
        case Regions c of
          None \<Rightarrow> {}
        | Some rs \<Rightarrow> if rs = [] then {Name c} else (\<lambda>r. Name c @ ''-'' @ r) ` set rs)"

text \<open>A feed record matches when its specific key or else its wildcard key is a lookup key.\<close>

definition matching :: "string set \<Rightarrow> feed_record \<Rightarrow> bool" where
  "matching keys p \<longleftrightarrow> service p @ ''-'' @ region p \<in> keys \<or> service p \<in> keys"

text \<open>The prefixes of the matching records of one service, in the order of the feed.\<close>

definition attributed :: "string set \<Rightarrow> string \<Rightarrow> feed_record list \<Rightarrow> string list" where
  "attributed keys s feed = map cidr (filter (\<lambda>p. service p = s \<and> matching keys p) feed)"

section \<open>A configuration and a feed\<close>

text \<open>
  Three services: one with a region, two for all regions; a feed with records of them and
  of a service that is not configured.
\<close>

definition example_config :: "config_service list" where
  "example_config =
     [\<lparr>Name = ''S3'', Regions = Some [''eu-west-1''], PrefixList = None, WafIPSet = None\<rparr>,
      \<lparr>Name = ''CLOUDFRONT'', Regions = Some [], PrefixList = None, WafIPSet = None\<rparr>,
      \<lparr>Name = ''ROUTE53'', Regions = Some [], PrefixList = None, WafIPSet = None\<rparr>]"

definition example_feed :: ip_ranges where
  "example_feed =
     \<lparr>prefixes =
        [\<lparr>service = ''S3'', region = ''eu-west-1'', cidr = ''10.2.0.0/16''\<rparr>,
         \<lparr>service = ''S3'', region = ''us-east-1'', cidr = ''10.9.0.0/16''\<rparr>,
         \<lparr>service = ''CLOUDFRONT'', region = ''GLOBAL'', cidr = ''10.3.0.0/16''\<rparr>,
         \<lparr>service = ''EC2'', region = ''eu-west-1'', cidr = ''10.4.0.0/16''\<rparr>,
         \<lparr>service = ''S3'', region = ''eu-west-1'', cidr = ''10.1.0.0/16''\<rparr>],
      ipv6_prefixes =
        [\<lparr>service = ''CLOUDFRONT'', region = ''GLOBAL'', cidr = ''2600:9000:0:0:0:0:0:0/28''\<rparr>]\<rparr>"

definition example_ranges :: "(string \<times> ServiceIPRange) list" where
  "example_ranges =
     [(''S3'', \<lparr>ipv4 = \<lparr>v4_ip_list = [''10.1.0.0/16'', ''10.2.0.0/16''],
                          v4_summarized_ip_list = []\<rparr>,
               ipv6 = \<lparr>v6_ip_list = [], v6_summarized_ip_list = []\<rparr>\<rparr>),
      (''CLOUDFRONT'', \<lparr>ipv4 = \<lparr>v4_ip_list = [''10.3.0.0/16''], v4_summarized_ip_list = []\<rparr>,
               ipv6 = \<lparr>v6_ip_list = [''2600:9000:0:0:0:0:0:0/28''],
                          v6_summarized_ip_list = []\<rparr>\<rparr>),
      (''ROUTE53'', \<lparr>ipv4 = \<lparr>v4_ip_list = [], v4_summarized_ip_list = []\<rparr>,
               ipv6 = \<lparr>v6_ip_list = [], v6_summarized_ip_list = []\<rparr>\<rparr>)]"

section \<open>Backends for concrete runs\<close>

text \<open>A prefix list as the backend describes it once created.\<close>

definition example_prefix_list :: prefix_list where
  "example_prefix_list =
     \<lparr>PrefixListId = ''pl-0a1'', PrefixListName = ''aws-ip-ranges-s3-ipv4'', MaxEntries = 2,
      Version = 1, State = ''create-complete'', StateMessage = []\<rparr>"

text \<open>A backend that completes every request at once and describes that prefix list.\<close>

definition completing_backend :: backend where
  "completing_backend tr c = Inr (PrefixList_description example_prefix_list)"

section \<open>Pages of a listing\<close>

text \<open>
  What it is for the backend to serve a listing in the pages \<open>pages\<close>, each a list of items
  and the continuation token that came with it: the request with the token at hand is
  answered by the first page, and the request with that page's token, after it, by the
  next; the last page, and only the last, comes without a token. \<open>request\<close> makes the call
  from the token, \<open>page\<close> is the form of the response.
\<close>

fun pages_served ::
  "backend \<Rightarrow> (string option \<Rightarrow> call) \<Rightarrow> ('a list \<Rightarrow> string option \<Rightarrow> response)
     \<Rightarrow> event list \<Rightarrow> string option \<Rightarrow> ('a list \<times> string option) list \<Rightarrow> bool" where
  "pages_served be request page tr token [] = False"
| "pages_served be request page tr token ((items, next_token) # rest) =
     (be tr (request token) = Inr (page items next_token) \<and>
      (case next_token of
         None \<Rightarrow> rest = []
       | Some t \<Rightarrow>
           pages_served be request page (tr @ [(request token, be tr (request token))])
             (Some t) rest))"

text \<open>The calls that fetch those pages: one without a token, one with each token served.\<close>

definition page_requests ::
  "(string option \<Rightarrow> call) \<Rightarrow> ('a list \<times> string option) list \<Rightarrow> call list" where
  "page_requests request pages =
     request None # map request (filter (\<lambda>t. t \<noteq> None) (map snd pages))"

text \<open>
  A backend that serves every listing in two pages: two IP sets, two prefix lists, and two
  entries of a prefix list; a request with another token than the one it gave is refused.
\<close>

definition ip_set_a :: ip_set_summary where
  "ip_set_a = \<lparr>IPSet_Name = ''aws-ip-ranges-s3-ipv4'', IPSet_Id = ''id-a'', IPSet_LockToken = ''lock-a'',
      IPSet_Description = ''Managed by update IP ranges Lambda'', IPSet_ARN = ''arn-a''\<rparr>"

definition ip_set_b :: ip_set_summary where
  "ip_set_b = \<lparr>IPSet_Name = ''aws-ip-ranges-s3-ipv6'', IPSet_Id = ''id-b'', IPSet_LockToken = ''lock-b'',
      IPSet_Description = ''Managed by update IP ranges Lambda'', IPSet_ARN = ''arn-b''\<rparr>"

definition paging_backend :: backend where
  "paging_backend tr c =
     (case c of
        list_ip_sets scope marker \<Rightarrow>
          (case marker of
             None \<Rightarrow> Inr (IPSets_page [ip_set_a] (Some ''marker-1''))
           | Some m \<Rightarrow>
               if m = ''marker-1'' then Inr (IPSets_page [ip_set_b] None)
               else Inl (ClientError ''InvalidMarker''))
      | describe_managed_prefix_lists token ids \<Rightarrow>
          (case token of
             None \<Rightarrow> Inr (PrefixLists_page [example_prefix_list] (Some ''token-1''))
           | Some t \<Rightarrow>
               if t = ''token-1''
               then Inr (PrefixLists_page
                      [example_prefix_list\<lparr>PrefixListId := ''pl-0b2'',
                         PrefixListName := ''aws-ip-ranges-s3-ipv4-continued-1''\<rparr>] None)
               else Inl (ClientError ''InvalidNextToken''))
      | get_managed_prefix_list_entries pid ver token \<Rightarrow>
          (case token of
             None \<Rightarrow>
               Inr (Entries_page [\<lparr>Cidr = ''10.0.0.0/24'', Description = Some DESCRIPTION\<rparr>]
                      (Some ''token-1''))
           | Some t \<Rightarrow>
               if t = ''token-1''
               then Inr (Entries_page [\<lparr>Cidr = ''10.0.1.0/24'', Description = None\<rparr>] None)
               else Inl (ClientError ''InvalidNextToken''))
      | get_ip_set name scope ipset_id \<Rightarrow> Inr (IPSet_addresses [''2.2.2.0/24'', ''3.3.3.0/24''])
      | _ \<Rightarrow> Inr Done)"

section \<open>One chunk under one name\<close>

text \<open>
  What it is for the prefix list loop to have handled the chunk \<open>chunk\<close> under the name
  \<open>name\<close> between the runs \<open>t\<close> and \<open>t'\<close>: where no prefix list of that name is listed,
  \<open>create_prefix_list\<close> ran with that name and that chunk and returned, its first request
  being the creation under that name with the first hundred entries of the chunk; where
  one is listed, \<open>update_prefix_list\<close> ran with that name, that prefix list and that chunk
  and returned, its first request being for the entries of that prefix list.
\<close>

definition chunk_done ::
  "nat \<Rightarrow> ipaddress \<Rightarrow> backend \<Rightarrow> (string \<times> prefix_list) list \<Rightarrow> ip_version \<Rightarrow> string
     \<Rightarrow> string list \<Rightarrow> event list \<Rightarrow> event list \<Rightarrow> bool" where
  "chunk_done fuel lib be vpl v name chunk t t' \<longleftrightarrow>
     (case map_of vpl name of
        None \<Rightarrow>
          create_prefix_list be name (ip_version_upper v) chunk t = (Return (), t') \<and>
          (\<exists>response rest. t' = t @
             (create_managed_prefix_list name
                (take 100 (map (\<lambda>a. \<lparr>Cidr = a, Description = Some DESCRIPTION\<rparr>) chunk))
                (min (int (length chunk) + 10) 1000) (ip_version_upper v), response) # rest)
      | Some pl \<Rightarrow>
          (\<exists>upd. update_prefix_list fuel lib be name pl chunk t = (Return upd, t')) \<and>
          (\<exists>response rest. t' = t @
             (get_managed_prefix_list_entries (PrefixListId pl) (Version pl) None, response)
               # rest))"

text \<open>The same operation on the chunk did not return: it raised, or it ran out of fuel.\<close>

definition chunk_failed ::
  "nat \<Rightarrow> ipaddress \<Rightarrow> backend \<Rightarrow> (string \<times> prefix_list) list \<Rightarrow> ip_version \<Rightarrow> string
     \<Rightarrow> string list \<Rightarrow> event list \<Rightarrow> names result \<Rightarrow> event list \<Rightarrow> bool" where
  "chunk_failed fuel lib be vpl v name chunk t res t' \<longleftrightarrow>
     (case map_of vpl name of
        None \<Rightarrow>
          (case create_prefix_list be name (ip_version_upper v) chunk t of
             (Return u, t1) \<Rightarrow> False
           | (Raise e, t1) \<Rightarrow> res = Raise e \<and> t' = t1
           | (Timeout, t1) \<Rightarrow> res = Timeout \<and> t' = t1)
      | Some pl \<Rightarrow>
          (case update_prefix_list fuel lib be name pl chunk t of
             (Return upd, t1) \<Rightarrow> False
           | (Raise e, t1) \<Rightarrow> res = Raise e \<and> t' = t1
           | (Timeout, t1) \<Rightarrow> res = Timeout \<and> t' = t1))"

text \<open>The chunk met an existing prefix list and its update reported a change.\<close>

definition chunk_updated ::
  "nat \<Rightarrow> ipaddress \<Rightarrow> backend \<Rightarrow> (string \<times> prefix_list) list \<Rightarrow> string \<Rightarrow> string list
     \<Rightarrow> event list \<Rightarrow> bool" where
  "chunk_updated fuel lib be vpl name chunk t \<longleftrightarrow>
     (case map_of vpl name of
        None \<Rightarrow> False
      | Some pl \<Rightarrow> fst (update_prefix_list fuel lib be name pl chunk t) = Return True)"

section \<open>A run over three chunks\<close>

text \<open>
  Five IPv4 ranges of one service, a listing that knows the prefix list of the second chunk
  only, and a backend that gives one entry for that prefix list and completes every other
  request at once.
\<close>

definition example_five :: "(string \<times> ServiceIPRange) list" where
  "example_five =
     [(''S3'', \<lparr>ipv4 = \<lparr>v4_ip_list = [''10.0.0.0/24'', ''10.0.1.0/24'', ''10.0.2.0/24'',
                                         ''10.0.3.0/24'', ''10.0.4.0/24''],
                          v4_summarized_ip_list = []\<rparr>,
               ipv6 = \<lparr>v6_ip_list = [], v6_summarized_ip_list = []\<rparr>\<rparr>)]"

definition example_continued :: prefix_list where
  "example_continued =
     \<lparr>PrefixListId = ''pl-0b2'', PrefixListName = ''aws-ip-ranges-s3-ipv4-continued-1'',
      MaxEntries = 2, Version = 1, State = ''modify-complete'', StateMessage = []\<rparr>"

definition example_listing :: "(string \<times> prefix_list) list" where
  "example_listing = [(''aws-ip-ranges-s3-ipv4-continued-1'', example_continued)]"

definition chunk_backend :: backend where
  "chunk_backend tr c =
     (case c of
        get_managed_prefix_list_entries pid ver token \<Rightarrow>
          Inr (Entries_page [\<lparr>Cidr = ''10.0.2.0/24'', Description = Some DESCRIPTION\<rparr>] None)
      | modify_managed_prefix_list pid ver name mx adds removes \<Rightarrow>
          Inr (PrefixList_description (example_continued\<lparr>Version := 2\<rparr>))
      | create_tags pid \<Rightarrow> Inr Done
      | _ \<Rightarrow> Inr (PrefixList_description example_prefix_list))"

text \<open>The requests of that run and their responses, in order.\<close>

definition example_trace :: "event list" where
  "example_trace =
     [(create_managed_prefix_list ''aws-ip-ranges-s3-ipv4''
         [\<lparr>Cidr = ''10.0.0.0/24'', Description = Some ''Managed by update IP ranges Lambda''\<rparr>,
          \<lparr>Cidr = ''10.0.1.0/24'', Description = Some ''Managed by update IP ranges Lambda''\<rparr>]
         12 ''IPV4'',
       Inr (PrefixList_description example_prefix_list)),
      (get_managed_prefix_list_entries ''pl-0b2'' 1 None,
       Inr (Entries_page
              [\<lparr>Cidr = ''10.0.2.0/24'',
                 Description = Some ''Managed by update IP ranges Lambda''\<rparr>] None)),
      (modify_managed_prefix_list ''pl-0b2'' (Some 1) ''aws-ip-ranges-s3-ipv4-continued-1'' None
         [\<lparr>Cidr = ''10.0.3.0/24'', Description = Some ''Managed by update IP ranges Lambda''\<rparr>]
         [],
       Inr (PrefixList_description (example_continued\<lparr>Version := 2\<rparr>))),
      (create_tags ''pl-0b2'', Inr Done),
      (create_managed_prefix_list ''aws-ip-ranges-s3-ipv4-continued-2''
         [\<lparr>Cidr = ''10.0.4.0/24'', Description = Some ''Managed by update IP ranges Lambda''\<rparr>]
         11 ''IPV4'',
       Inr (PrefixList_description example_prefix_list))]"

section \<open>Runs and polls\<close>

text \<open>
  The events \<open>ev\<close> continue the run \<open>tr\<close> against the backend: every request in them was
  answered by the backend from the run before it, and every sleep passed.
\<close>

fun answered :: "backend \<Rightarrow> event list \<Rightarrow> event list \<Rightarrow> bool" where
  "answered be tr [] = True"
| "answered be tr ((c, r) # ev) =
     ((case c of sleep seconds \<Rightarrow> r = Inr Done | _ \<Rightarrow> r = be tr c) \<and>
      answered be (tr @ [(c, r)]) ev)"

text \<open>
  The prefix list that the answer to a request for one prefix list describes, when it
  describes one.
\<close>

fun described :: "error + response \<Rightarrow> prefix_list option" where
  "described (Inr (PrefixLists_page (pl # page) token)) = Some pl"
| "described r = None"

text \<open>
  The events of polling a prefix list: for each count and answer, the sleep of
  \<open>count + (count + 1)\<close> seconds and the request for the prefix list with that answer.
\<close>

definition polls :: "string \<Rightarrow> (nat \<times> (error + response)) list \<Rightarrow> event list" where
  "polls prefix_list_id crs =
     concat (map (\<lambda>(cnt, r). [(sleep (cnt + (cnt + 1)), Inr Done),
                               (describe_managed_prefix_lists None (Some [prefix_list_id]), r)])
               crs)"

section \<open>Backends that answer a creation with a prefix list in progress\<close>

text \<open>
  Both answer every creation with the prefix list in the state \<open>create-in-progress\<close>. The
  first describes it as failed ever after; the second describes it as in progress until
  the sleep of three seconds has passed and as complete from then on, and completes every
  modification at once.
\<close>

definition failed_backend :: backend where
  "failed_backend tr c =
     (case c of
        describe_managed_prefix_lists token ids \<Rightarrow>
          Inr (PrefixLists_page [example_prefix_list\<lparr>State := ''create-failed''\<rparr>] None)
      | _ \<Rightarrow> Inr (PrefixList_description (example_prefix_list\<lparr>State := ''create-in-progress''\<rparr>)))"

definition slow_backend :: backend where
  "slow_backend tr c =
     (case c of
        describe_managed_prefix_lists token ids \<Rightarrow>
          Inr (PrefixLists_page
                 [if (sleep 3, Inr Done) \<in> set tr then example_prefix_list\<lparr>Version := 2\<rparr>
                  else example_prefix_list\<lparr>State := ''create-in-progress''\<rparr>] None)
      | modify_managed_prefix_list pid ver name mx adds removes \<Rightarrow>
          Inr (PrefixList_description
                 (example_prefix_list\<lparr>Version := 3, State := ''modify-complete''\<rparr>))
      | _ \<Rightarrow> Inr (PrefixList_description (example_prefix_list\<lparr>State := ''create-in-progress''\<rparr>)))"

section \<open>The modifications in a run\<close>

text \<open>
  What the requests to modify a prefix list in a run of events carried, in order: the new
  max entries when given, the entries to add and the entries to remove.
\<close>

fun modifications :: "event list \<Rightarrow> (int option \<times> entry list \<times> string list) list" where
  "modifications [] = []"
| "modifications ((modify_managed_prefix_list pid ver name mx adds removes, r) # ev) =
     (mx, adds, removes) # modifications ev"
| "modifications (e # ev) = modifications ev"

text \<open>
  A backend that lists one entry of a prefix list, answers the request that changes the
  max entries with the prefix list still in progress, describes it as complete when asked,
  and completes every other modification at once.
\<close>

definition resizing_backend :: backend where
  "resizing_backend tr c =
     (case c of
        get_managed_prefix_list_entries pid ver token \<Rightarrow>
          Inr (Entries_page [\<lparr>Cidr = ''10.0.0.0/24'', Description = Some DESCRIPTION\<rparr>] None)
      | describe_managed_prefix_lists token ids \<Rightarrow>
          Inr (PrefixLists_page
                 [example_prefix_list\<lparr>Version := 2, State := ''modify-complete''\<rparr>] None)
      | modify_managed_prefix_list pid ver name mx adds removes \<Rightarrow>
          (case mx of
             Some n \<Rightarrow>
               Inr (PrefixList_description
                      (example_prefix_list\<lparr>MaxEntries := n, Version := 2,
                         State := ''modify-in-progress''\<rparr>))
           | None \<Rightarrow>
               Inr (PrefixList_description
                      (example_prefix_list\<lparr>Version := 3, State := ''modify-complete''\<rparr>)))
      | _ \<Rightarrow> Inr Done)"

section \<open>Properties of the Network Summarizer: malformed entries\<close>

lemma parse_all_Inr_iff: "parse_all p xs = Inr ns \<longleftrightarrow> map p xs = map Inr ns"
proof (induction xs arbitrary: ns)
  case Nil
  then show ?case by auto
next
  case (Cons s ss)
  show ?case
  proof (cases "p s")
    case (Inl e)
    then show ?thesis by (cases ns) auto
  next
    case (Inr n)
    show ?thesis
    proof (cases "parse_all p ss")
      case (Inl e)
      with Inr Cons.IH show ?thesis by (cases ns) auto
    next
      case r: (Inr ms)
      with Inr Cons.IH[of ms] Cons.IH show ?thesis by (cases ns) auto
    qed
  qed
qed

lemma parse_all_Inl:
  "parse_all p xs = Inl e \<Longrightarrow> \<exists>s\<in>set xs. p s = Inl e"
  by (induction xs) (auto split: sum.splits)

lemma parse_all_Inr_all:
  "parse_all p xs = Inr ns \<Longrightarrow> s \<in> set xs \<Longrightarrow> \<not> isl (p s)"
  by (induction xs arbitrary: ns) (auto split: sum.splits)

lemma parse_all_malformed:
  "\<exists>s\<in>set xs. isl (p s) \<Longrightarrow> isl (parse_all p xs)"
  by (cases "parse_all p xs") (auto dest: parse_all_Inr_all)

lemma parse_all_well_formed:
  "\<forall>s\<in>set xs. \<not> isl (p s) \<Longrightarrow> \<exists>ns. parse_all p xs = Inr ns"
  by (induction xs) (auto split: sum.splits simp: isl_def)


text \<open>
  C10 (as amended). A list that has not been summarized yet and holds an entry that the
  network constructor rejects makes \<open>summarized()\<close> raise the constructor's error on an entry
  of the list: for every IPv6 list, and for every IPv4 list whose length is not one. (An
  IPv4 list of one entry is returned as it is, without being read.)
\<close>

theorem summarized_malformed:
  "(v4_summarized_ip_list l4 = [] \<and> length (v4_ip_list l4) \<noteq> 1 \<and>
      (\<exists>s\<in>set (v4_ip_list l4). isl (IPv4Network lib s))
    \<longrightarrow> (\<exists>e. IPv4List_summarized lib l4 = Inl e \<and>
              (\<exists>s\<in>set (v4_ip_list l4). IPv4Network lib s = Inl e)))
   \<and> (v6_summarized_ip_list l6 = [] \<and> (\<exists>s\<in>set (v6_ip_list l6). isl (IPv6Network lib s))
    \<longrightarrow> (\<exists>e. IPv6List_summarized lib l6 = Inl e \<and>
              (\<exists>s\<in>set (v6_ip_list l6). IPv6Network lib s = Inl e)))"
proof (intro conjI impI)
  assume h: "v4_summarized_ip_list l4 = [] \<and> length (v4_ip_list l4) \<noteq> 1 \<and>
      (\<exists>s\<in>set (v4_ip_list l4). isl (IPv4Network lib s))"
  then have "isl (parse_all (IPv4Network lib) (v4_ip_list l4))"
    by (intro parse_all_malformed) simp
  then obtain e where e: "parse_all (IPv4Network lib) (v4_ip_list l4) = Inl e"
    by (auto simp: isl_def)
  with h have "IPv4List_summarized lib l4 = Inl e"
    by (simp add: IPv4List_summarized_def)
  with parse_all_Inl[OF e]
  show "\<exists>e. IPv4List_summarized lib l4 = Inl e \<and>
              (\<exists>s\<in>set (v4_ip_list l4). IPv4Network lib s = Inl e)"
    by blast
next
  assume h: "v6_summarized_ip_list l6 = [] \<and> (\<exists>s\<in>set (v6_ip_list l6). isl (IPv6Network lib s))"
  then have "isl (parse_all (IPv6Network lib) (v6_ip_list l6))"
    by (intro parse_all_malformed) simp
  then obtain e where e: "parse_all (IPv6Network lib) (v6_ip_list l6) = Inl e"
    by (auto simp: isl_def)
  with h have "IPv6List_summarized lib l6 = Inl e"
    by (simp add: IPv6List_summarized_def)
  with parse_all_Inl[OF e]
  show "\<exists>e. IPv6List_summarized lib l6 = Inl e \<and>
              (\<exists>s\<in>set (v6_ip_list l6). IPv6Network lib s = Inl e)"
    by blast
qed

lemmas text_defs = IPv4Network_def IPv6Network_def ipaddress_text_def read_v4_text_def read_v6_text_def
  strict_network_def ip_int_from_string_v4_def parse_octet_def digit_of_def hex_digit_of_def
  make_netmask_v4_def prefix_from_prefix_string_def prefix_from_ip_string_def prefix_from_ip_int_def
  ip_int_from_hextets_def parse_hextet_def Let_def

text \<open>
  C10, as stated, fails for an IPv4 list of exactly one malformed entry: \<open>summarized()\<close>
  returns the list with the entry that the constructor rejects.
\<close>

theorem single_malformed_returned:
  "IPv4List_summarized ipaddress_text \<lparr>v4_ip_list = [''not-a-cidr''], v4_summarized_ip_list = []\<rparr>
     = Inr ([''not-a-cidr''], \<lparr>v4_ip_list = [''not-a-cidr''], v4_summarized_ip_list = []\<rparr>)
   \<and> IPv4Network ipaddress_text ''not-a-cidr'' = Inl (AddressValueError ''not-a-cidr'')"
  by (simp add: IPv4List_summarized_def text_defs)

theorem summarized_malformed_witness:
  "IPv4List_summarized ipaddress_text
      \<lparr>v4_ip_list = [''10.0.0.0/8'', ''not-a-cidr''], v4_summarized_ip_list = []\<rparr>
     = Inl (AddressValueError ''not-a-cidr'')
   \<and> IPv6List_summarized ipaddress_text
      \<lparr>v6_ip_list = [''not-a-cidr''], v6_summarized_ip_list = []\<rparr>
     = Inl (AddressValueError ''not-a-cidr'')"
proof -
  have 4: "IPv4Network ipaddress_text ''not-a-cidr'' = Inl (AddressValueError ''not-a-cidr'')"
    by (simp add: text_defs)
  have 6: "IPv6Network ipaddress_text ''not-a-cidr'' = Inl (AddressValueError ''not-a-cidr'')"
    by (simp add: text_defs)
  have 8: "IPv4Network ipaddress_text ''10.0.0.0/8'' = Inr (Network IPV4 167772160 8)"
    by (simp add: text_defs)
  from summarized_malformed[of
      "\<lparr>v4_ip_list = [''10.0.0.0/8'', ''not-a-cidr''], v4_summarized_ip_list = []\<rparr>"
      ipaddress_text
      "\<lparr>v6_ip_list = [''not-a-cidr''], v6_summarized_ip_list = []\<rparr>"]
  show ?thesis
    by (simp add: 4 6 8)
qed

section \<open>Properties of the Service Range Extractor\<close>

lemma map_of_dict_set: "map_of (dict_set k v d) = (map_of d)(k \<mapsto> v)"
  by (induction d) auto

lemma keys_dict_set: "fst ` set (dict_set k v d) = insert k (fst ` set d)"
  by (induction d) auto

lemma map_fst_dict_set: "k \<in> fst ` set d \<Longrightarrow> map fst (dict_set k v d) = map fst d"
  by (induction d) auto

lemma distinct_dict_set: "distinct (map fst d) \<Longrightarrow> distinct (map fst (dict_set k v d))"
  by (induction d) (auto simp: keys_dict_set)

lemma add_regions_result:
  "\<exists>sr'. add_regions name rs (K, sr) = (K \<union> (\<lambda>r. name @ ''-'' @ r) ` set rs, sr') \<and>
     (rs = [] \<longrightarrow> sr' = sr) \<and>
     (rs \<noteq> [] \<longrightarrow> fst ` set sr' = insert name (fst ` set sr) \<and>
         map_of sr' = (map_of sr)(name \<mapsto> new_ServiceIPRange)) \<and>
     (distinct (map fst sr) \<longrightarrow> distinct (map fst sr'))"
proof (induction rs arbitrary: K sr)
  case Nil
  then show ?case by simp
next
  case (Cons r rs)
  obtain sr' where sr': "add_regions name rs (insert (name @ ''-'' @ r) K,
        dict_set name new_ServiceIPRange sr)
      = (insert (name @ ''-'' @ r) K \<union> (\<lambda>r. name @ ''-'' @ r) ` set rs, sr')"
    and nil: "rs = [] \<longrightarrow> sr' = dict_set name new_ServiceIPRange sr"
    and cons: "rs \<noteq> [] \<longrightarrow> fst ` set sr' = insert name (fst ` set (dict_set name new_ServiceIPRange sr)) \<and>
         map_of sr' = (map_of (dict_set name new_ServiceIPRange sr))(name \<mapsto> new_ServiceIPRange)"
    and dist: "distinct (map fst (dict_set name new_ServiceIPRange sr)) \<longrightarrow> distinct (map fst sr')"
    using Cons.IH[of "insert (name @ ''-'' @ r) K" "dict_set name new_ServiceIPRange sr"]
    by blast
  show ?case
  proof (intro exI[of _ sr'] conjI impI)
    show "add_regions name (r # rs) (K, sr) = (K \<union> (\<lambda>r. name @ ''-'' @ r) ` set (r # rs), sr')"
      using sr' by simp
    show "sr' = sr" if "r # rs = []" using that by simp
    show "fst ` set sr' = insert name (fst ` set sr)"
      using nil cons by (cases "rs = []") (auto simp: keys_dict_set)
    show "map_of sr' = (map_of sr)(name \<mapsto> new_ServiceIPRange)"
      using nil cons by (cases "rs = []") (auto simp: map_of_dict_set)
    show "distinct (map fst sr')" if "distinct (map fst sr)"
      using that dist by (simp add: distinct_dict_set)
  qed
qed

lemma add_services_result:
  assumes "\<forall>c\<in>set cfg. Regions c \<noteq> None"
  shows "\<exists>sr'. add_services cfg (K, sr) = Inr (K \<union> lookup_keys cfg, sr') \<and>
     fst ` set sr' = fst ` set sr \<union> Name ` set cfg \<and>
     (distinct (map fst sr) \<longrightarrow> distinct (map fst sr')) \<and>
     (\<forall>s. map_of sr' s = (if s \<in> Name ` set cfg then Some new_ServiceIPRange else map_of sr s))"
  using assms
proof (induction cfg arbitrary: K sr)
  case Nil
  then show ?case by (simp add: lookup_keys_def)
next
  case (Cons c cfg)
  then obtain rs where rs: "Regions c = Some rs" by auto
  have keys: "lookup_keys (c # cfg) =
      (if rs = [] then {Name c} else (\<lambda>r. Name c @ ''-'' @ r) ` set rs) \<union> lookup_keys cfg"
    using rs by (simp add: lookup_keys_def)
  show ?case
  proof (cases "rs = []")
    case True
    from Cons.IH[of "insert (Name c) K" "dict_set (Name c) new_ServiceIPRange sr"] Cons.prems
    obtain sr' where
      1: "add_services cfg (insert (Name c) K, dict_set (Name c) new_ServiceIPRange sr)
          = Inr (insert (Name c) K \<union> lookup_keys cfg, sr')"
      and 2: "fst ` set sr' = fst ` set (dict_set (Name c) new_ServiceIPRange sr) \<union> Name ` set cfg"
      and 3: "distinct (map fst (dict_set (Name c) new_ServiceIPRange sr)) \<longrightarrow> distinct (map fst sr')"
      and 4: "\<forall>s. map_of sr' s = (if s \<in> Name ` set cfg then Some new_ServiceIPRange
                else map_of (dict_set (Name c) new_ServiceIPRange sr) s)"
      by auto
    show ?thesis
    proof (intro exI[of _ sr'] conjI impI allI)
      show "add_services (c # cfg) (K, sr) = Inr (K \<union> lookup_keys (c # cfg), sr')"
        using 1 rs True keys by simp
      show "fst ` set sr' = fst ` set sr \<union> Name ` set (c # cfg)"
        using 2 by (auto simp: keys_dict_set)
      show "distinct (map fst sr')" if "distinct (map fst sr)"
        using 3 that by (simp add: distinct_dict_set)
      show "map_of sr' s = (if s \<in> Name ` set (c # cfg) then Some new_ServiceIPRange else map_of sr s)" for s
        using 4 by (auto simp: map_of_dict_set)
    qed
  next
    case False
    from add_regions_result[of "Name c" rs K sr] False
    obtain sr1 where
      a1: "add_regions (Name c) rs (K, sr) = (K \<union> (\<lambda>r. Name c @ ''-'' @ r) ` set rs, sr1)"
      and a2: "fst ` set sr1 = insert (Name c) (fst ` set sr)"
      and a3: "map_of sr1 = (map_of sr)(Name c \<mapsto> new_ServiceIPRange)"
      and a4: "distinct (map fst sr) \<longrightarrow> distinct (map fst sr1)"
      by blast
    from Cons.IH[of "K \<union> (\<lambda>r. Name c @ ''-'' @ r) ` set rs" sr1] Cons.prems
    obtain sr' where
      1: "add_services cfg (K \<union> (\<lambda>r. Name c @ ''-'' @ r) ` set rs, sr1)
          = Inr (K \<union> (\<lambda>r. Name c @ ''-'' @ r) ` set rs \<union> lookup_keys cfg, sr')"
      and 2: "fst ` set sr' = fst ` set sr1 \<union> Name ` set cfg"
      and 3: "distinct (map fst sr1) \<longrightarrow> distinct (map fst sr')"
      and 4: "\<forall>s. map_of sr' s = (if s \<in> Name ` set cfg then Some new_ServiceIPRange
                else map_of sr1 s)"
      by auto
    show ?thesis
    proof (intro exI[of _ sr'] conjI impI allI)
      show "add_services (c # cfg) (K, sr) = Inr (K \<union> lookup_keys (c # cfg), sr')"
        using 1 rs False keys a1 by (simp add: Un_assoc)
      show "fst ` set sr' = fst ` set sr \<union> Name ` set (c # cfg)"
        using 2 a2 by auto
      show "distinct (map fst sr')" if "distinct (map fst sr)"
        using 3 a4 that by simp
      show "map_of sr' s = (if s \<in> Name ` set (c # cfg) then Some new_ServiceIPRange else map_of sr s)" for s
        using 4 a3 by auto
    qed
  qed
qed


lemma search_prefixes_result:
  assumes "\<forall>p\<in>set feed. matching K p \<longrightarrow> service p \<in> fst ` set sr"
  shows "\<exists>sr'. search_prefixes app K feed sr = Inr sr' \<and> map fst sr' = map fst sr \<and>
     (\<forall>s. map_of sr' s = map_option (fold app (attributed K s feed)) (map_of sr s))"
  using assms
proof (induction feed arbitrary: sr)
  case Nil
  then show ?case by (simp add: attributed_def option.map_ident)
next
  case (Cons p feed)
  show ?case
  proof (cases "matching K p")
    case False
    from Cons.IH[of sr] Cons.prems obtain sr' where
      "search_prefixes app K feed sr = Inr sr'" "map fst sr' = map fst sr"
      "\<forall>s. map_of sr' s = map_option (fold app (attributed K s feed)) (map_of sr s)"
      by auto
    with False show ?thesis
      by (auto simp: matching_def attributed_def)
  next
    case True
    with Cons.prems have "service p \<in> fst ` set sr" by simp
    then obtain r where r: "map_of sr (service p) = Some r"
      by (metis domIff dom_map_of_conv_image_fst not_Some_eq)
    define sr1 where "sr1 = dict_set (service p) (app (cidr p) r) sr"
    have ap: "append_to_service app p sr = Inr sr1"
      by (simp add: append_to_service_def r sr1_def)
    have keys1: "map fst sr1 = map fst sr"
      unfolding sr1_def using \<open>service p \<in> fst ` set sr\<close> by (rule map_fst_dict_set)
    then have "fst ` set sr1 = fst ` set sr"
      by (metis list.set_map)
    with Cons.prems have "\<forall>p\<in>set feed. matching K p \<longrightarrow> service p \<in> fst ` set sr1"
      by simp
    from Cons.IH[OF this] obtain sr' where
      1: "search_prefixes app K feed sr1 = Inr sr'" and 2: "map fst sr' = map fst sr1"
      and 3: "\<forall>s. map_of sr' s = map_option (fold app (attributed K s feed)) (map_of sr1 s)"
      by auto
    have step: "search_prefixes app K (p # feed) sr = Inr sr'"
      using True 1 ap by (auto simp: matching_def)
    have "map_of sr' s = map_option (fold app (attributed K s (p # feed))) (map_of sr s)" for s
      using 3 True r by (auto simp: sr1_def map_of_dict_set attributed_def)
    with step 2 keys1 show ?thesis by auto
  qed
qed




lemma fold_append_ipv4:
  "fold append_ipv4 cs r = r\<lparr>ipv4 := (ipv4 r)\<lparr>v4_ip_list := v4_ip_list (ipv4 r) @ cs\<rparr>\<rparr>"
  by (induction cs arbitrary: r) (auto simp: append_ipv4_def)

lemma fold_append_ipv6:
  "fold append_ipv6 cs r = r\<lparr>ipv6 := (ipv6 r)\<lparr>v6_ip_list := v6_ip_list (ipv6 r) @ cs\<rparr>\<rparr>"
  by (induction cs arbitrary: r) (auto simp: append_ipv6_def)

lemma sort_all_keys: "sort_all lib sr = Inr sr' \<Longrightarrow> map fst sr' = map fst sr"
  by (induction sr arbitrary: sr') (auto split: sum.splits)

lemma sort_all_values:
  "sort_all lib sr = Inr sr' \<Longrightarrow> map_of sr s = Some r \<Longrightarrow>
     \<exists>l4 l6. IPv4List_sort lib (ipv4 r) = Inr l4 \<and> IPv6List_sort lib (ipv6 r) = Inr l6 \<and>
       map_of sr' s = Some (r\<lparr>ipv4 := l4, ipv6 := l6\<rparr>)"
  by (induction sr arbitrary: sr') (auto split: sum.splits if_splits)

lemma sort_all_total:
  "\<forall>kr\<in>set sr. \<not> isl (IPv4List_sort lib (ipv4 (snd kr))) \<and> \<not> isl (IPv6List_sort lib (ipv6 (snd kr)))
     \<Longrightarrow> \<exists>sr'. sort_all lib sr = Inr sr'"
  by (induction sr) (auto split: sum.splits simp: isl_def)



lemma IPv4List_sort_short:
  "length (v4_ip_list l) \<le> 1 \<Longrightarrow> IPv4List_sort lib l = Inr l"
  by (simp add: IPv4List_sort_def)

lemma IPv6List_sort_short:
  "length (v6_ip_list l) \<le> 1 \<Longrightarrow> IPv6List_sort lib l = Inr l"
  by (simp add: IPv6List_sort_def)

lemma IPv4List_sort_total:
  "\<forall>s\<in>set (v4_ip_list l). \<not> isl (IPv4Network lib s) \<Longrightarrow> \<not> isl (IPv4List_sort lib l)"
  using parse_all_well_formed[of "v4_ip_list l" "IPv4Network lib"]
  by (auto simp: IPv4List_sort_def)

lemma IPv6List_sort_total:
  "\<forall>s\<in>set (v6_ip_list l). \<not> isl (IPv6Network lib s) \<Longrightarrow> \<not> isl (IPv6List_sort lib l)"
  using parse_all_well_formed[of "v6_ip_list l" "IPv6Network lib"]
  by (auto simp: IPv6List_sort_def)





lemma extracted_lists:
  "v4_ip_list (ipv4 (fold append_ipv6 a6 (fold append_ipv4 a4 new_ServiceIPRange))) = a4"
  "v6_ip_list (ipv6 (fold append_ipv6 a6 (fold append_ipv4 a4 new_ServiceIPRange))) = a6"
  by (simp_all add: fold_append_ipv4 fold_append_ipv6 new_ServiceIPRange_def new_IPv4List_def
      new_IPv6List_def)

lemma attributed_mem:
  "x \<in> set (attributed K s feed) \<Longrightarrow> \<exists>p\<in>set feed. matching K p \<and> service p = s \<and> cidr p = x"
  by (auto simp: attributed_def)

lemma map_of_distinct_mem:
  "distinct (map fst m) \<Longrightarrow> kr \<in> set m \<Longrightarrow> map_of m (fst kr) = Some (snd kr)"
  by (cases kr) simp

text \<open>
  C3 (as amended). When every configured service carries a \<open>Regions\<close> list (empty or not),
  every matching feed record names a configured service, and the prefixes of the matching
  records are accepted by the network constructor of their family, \<open>get_ranges_for_service\<close>
  returns a mapping whose keys are exactly the configured service names, each once, and
  the value of every configured service has both lists, empty where no feed record matched.
\<close>

theorem get_ranges_for_service_keys:
  assumes regions: "\<forall>c\<in>set cfg. Regions c \<noteq> None"
    and configured: "\<forall>p\<in>set (prefixes feed) \<union> set (ipv6_prefixes feed).
        matching (lookup_keys cfg) p \<longrightarrow> service p \<in> Name ` set cfg"
    and v4: "\<forall>p\<in>set (prefixes feed).
        matching (lookup_keys cfg) p \<longrightarrow> \<not> isl (IPv4Network lib (cidr p))"
    and v6: "\<forall>p\<in>set (ipv6_prefixes feed).
        matching (lookup_keys cfg) p \<longrightarrow> \<not> isl (IPv6Network lib (cidr p))"
  shows "\<exists>m. get_ranges_for_service lib feed cfg = Inr m \<and>
      fst ` set m = Name ` set cfg \<and> distinct (map fst m) \<and>
      (\<forall>c\<in>set cfg. \<exists>r. map_of m (Name c) = Some r \<and>
         (attributed (lookup_keys cfg) (Name c) (prefixes feed) = []
            \<longrightarrow> v4_ip_list (ipv4 r) = []) \<and>
         (attributed (lookup_keys cfg) (Name c) (ipv6_prefixes feed) = []
            \<longrightarrow> v6_ip_list (ipv6 r) = []))"
proof -
  define K where "K = lookup_keys cfg"
  from add_services_result[OF regions, of "{}" "[]"] obtain sr0 where
    s0: "add_services cfg ({}, []) = Inr (K, sr0)"
    and k0: "fst ` set sr0 = Name ` set cfg" and d0: "distinct (map fst sr0)"
    and v0: "\<forall>s. map_of sr0 s = (if s \<in> Name ` set cfg then Some new_ServiceIPRange else None)"
    by (auto simp: K_def)
  have "\<forall>p\<in>set (prefixes feed). matching K p \<longrightarrow> service p \<in> fst ` set sr0"
    using configured k0 by (simp add: K_def)
  from search_prefixes_result[OF this, of append_ipv4] obtain sr4 where
    s4: "search_prefixes append_ipv4 K (prefixes feed) sr0 = Inr sr4"
    and k4: "map fst sr4 = map fst sr0"
    and v4': "\<forall>s. map_of sr4 s =
        map_option (fold append_ipv4 (attributed K s (prefixes feed))) (map_of sr0 s)"
    by auto
  have ks4: "fst ` set sr4 = Name ` set cfg"
    using k4 k0 by (metis list.set_map)
  have "\<forall>p\<in>set (ipv6_prefixes feed). matching K p \<longrightarrow> service p \<in> fst ` set sr4"
    using configured ks4 by (simp add: K_def)
  from search_prefixes_result[OF this, of append_ipv6] obtain sr6 where
    s6: "search_prefixes append_ipv6 K (ipv6_prefixes feed) sr4 = Inr sr6"
    and k6: "map fst sr6 = map fst sr4"
    and v6': "\<forall>s. map_of sr6 s =
        map_option (fold append_ipv6 (attributed K s (ipv6_prefixes feed))) (map_of sr4 s)"
    by auto
  have ks6: "fst ` set sr6 = Name ` set cfg"
    using k6 ks4 by (metis list.set_map)
  have d6: "distinct (map fst sr6)"
    using d0 k4 k6 by simp
  have val6: "map_of sr6 s = Some (fold append_ipv6 (attributed K s (ipv6_prefixes feed))
      (fold append_ipv4 (attributed K s (prefixes feed)) new_ServiceIPRange))"
    if "s \<in> Name ` set cfg" for s
    using that v0 v4' v6' by simp
  have ok: "\<not> isl (IPv4List_sort lib (ipv4 (snd kr))) \<and> \<not> isl (IPv6List_sort lib (ipv6 (snd kr)))"
    if kr: "kr \<in> set sr6" for kr
  proof -
    have "fst kr \<in> Name ` set cfg"
      using kr ks6 by auto
    from val6[OF this] map_of_distinct_mem[OF d6 kr]
    have snd: "snd kr = fold append_ipv6 (attributed K (fst kr) (ipv6_prefixes feed))
      (fold append_ipv4 (attributed K (fst kr) (prefixes feed)) new_ServiceIPRange)"
      by simp
    have "\<forall>s\<in>set (v4_ip_list (ipv4 (snd kr))). \<not> isl (IPv4Network lib s)"
      unfolding snd extracted_lists using v4 by (auto simp: K_def dest!: attributed_mem)
    moreover have "\<forall>s\<in>set (v6_ip_list (ipv6 (snd kr))). \<not> isl (IPv6Network lib s)"
      unfolding snd extracted_lists using v6 by (auto simp: K_def dest!: attributed_mem)
    ultimately show ?thesis
      by (simp add: IPv4List_sort_total IPv6List_sort_total)
  qed
  then obtain m where sm: "sort_all lib sr6 = Inr m"
    using sort_all_total[of sr6 lib] by blast
  have res: "get_ranges_for_service lib feed cfg = Inr m"
    using s0 s4 s6 sm by (simp add: get_ranges_for_service_def K_def)
  have km: "map fst m = map fst sr6"
    using sm by (rule sort_all_keys)
  have keys: "fst ` set m = Name ` set cfg"
    using km ks6 by (metis list.set_map)
  have dist: "distinct (map fst m)"
    using km d6 by simp
  have vals: "\<exists>r. map_of m (Name c) = Some r \<and>
         (attributed K (Name c) (prefixes feed) = [] \<longrightarrow> v4_ip_list (ipv4 r) = []) \<and>
         (attributed K (Name c) (ipv6_prefixes feed) = [] \<longrightarrow> v6_ip_list (ipv6 r) = [])"
    if c: "c \<in> set cfg" for c
  proof -
    define r6 where "r6 = fold append_ipv6 (attributed K (Name c) (ipv6_prefixes feed))
      (fold append_ipv4 (attributed K (Name c) (prefixes feed)) new_ServiceIPRange)"
    have "map_of sr6 (Name c) = Some r6"
      using val6[of "Name c"] c by (simp add: r6_def)
    from sort_all_values[OF sm this] obtain l4 l6 where
      l4: "IPv4List_sort lib (ipv4 r6) = Inr l4" and l6: "IPv6List_sort lib (ipv6 r6) = Inr l6"
      and mm: "map_of m (Name c) = Some (r6\<lparr>ipv4 := l4, ipv6 := l6\<rparr>)"
      by blast
    have e4: "v4_ip_list l4 = []" if "attributed K (Name c) (prefixes feed) = []"
    proof -
      have "v4_ip_list (ipv4 r6) = []"
        unfolding r6_def extracted_lists using that .
      then have "IPv4List_sort lib (ipv4 r6) = Inr (ipv4 r6)"
        by (simp add: IPv4List_sort_short)
      with l4 \<open>v4_ip_list (ipv4 r6) = []\<close> show ?thesis by simp
    qed
    have e6: "v6_ip_list l6 = []" if "attributed K (Name c) (ipv6_prefixes feed) = []"
    proof -
      have "v6_ip_list (ipv6 r6) = []"
        unfolding r6_def extracted_lists using that .
      then have "IPv6List_sort lib (ipv6 r6) = Inr (ipv6 r6)"
        by (simp add: IPv6List_sort_short)
      with l6 \<open>v6_ip_list (ipv6 r6) = []\<close> show ?thesis by simp
    qed
    from mm e4 e6 show ?thesis by simp
  qed
  from res keys dist vals show ?thesis
    unfolding K_def by blast
qed









lemma example_keys:
  "lookup_keys example_config = {''S3-eu-west-1'', ''CLOUDFRONT'', ''ROUTE53''}"
  by (auto simp: lookup_keys_def example_config_def)

lemma example_extraction:
  "get_ranges_for_service ipaddress_text example_feed example_config = Inr example_ranges"
  by (simp add: get_ranges_for_service_def example_config_def example_feed_def example_ranges_def
      append_to_service_def append_ipv4_def append_ipv6_def new_ServiceIPRange_def
      new_IPv4List_def new_IPv6List_def IPv4List_sort_def IPv6List_sort_def
      networks_key_def netmask_def num_addresses_def text_defs)

text \<open>
  C3, as stated, fails for a service descriptor without \<open>Regions\<close>: the extractor raises
  KeyError and returns no mapping.
\<close>

theorem regions_absent_raises:
  "get_ranges_for_service ipaddress_text \<lparr>prefixes = [], ipv6_prefixes = []\<rparr>
     [\<lparr>Name = ''S3'', Regions = None, PrefixList = None, WafIPSet = None\<rparr>]
   = Inl (KeyError ''Regions'')"
  by (simp add: get_ranges_for_service_def)

theorem get_ranges_for_service_keys_witness:
  "get_ranges_for_service ipaddress_text example_feed example_config = Inr example_ranges
   \<and> fst ` set example_ranges = {''S3'', ''CLOUDFRONT'', ''ROUTE53''}
   \<and> map_of example_ranges ''ROUTE53'' = Some new_ServiceIPRange"
proof -
  have h1: "\<forall>c\<in>set example_config. Regions c \<noteq> None"
    by (simp add: example_config_def)
  have h2: "\<forall>p\<in>set (prefixes example_feed) \<union> set (ipv6_prefixes example_feed).
        matching (lookup_keys example_config) p \<longrightarrow> service p \<in> Name ` set example_config"
    unfolding example_keys by (simp add: matching_def example_feed_def example_config_def)
  have h3: "\<forall>p\<in>set (prefixes example_feed).
        matching (lookup_keys example_config) p \<longrightarrow> \<not> isl (IPv4Network ipaddress_text (cidr p))"
    unfolding example_keys by (simp add: matching_def example_feed_def text_defs)
  have h4: "\<forall>p\<in>set (ipv6_prefixes example_feed).
        matching (lookup_keys example_config) p \<longrightarrow> \<not> isl (IPv6Network ipaddress_text (cidr p))"
    unfolding example_keys by (simp add: matching_def example_feed_def text_defs)
  from get_ranges_for_service_keys[OF h1 h2 h3 h4] example_extraction
  have "fst ` set example_ranges = Name ` set example_config"
    by auto
  then have "fst ` set example_ranges = {''S3'', ''CLOUDFRONT'', ''ROUTE53''}"
    by (simp add: example_config_def)
  moreover have "map_of example_ranges ''ROUTE53'' = Some new_ServiceIPRange"
    by (simp add: example_ranges_def new_ServiceIPRange_def new_IPv4List_def new_IPv6List_def)
  ultimately show ?thesis
    using example_extraction by simp
qed


section \<open>Properties of the Capacity and Chunking Planner\<close>

lemma chunks_Nil [simp]: "chunks n [] = []"
  by (simp add: chunks.simps)

lemma chunks_step: "0 < n \<Longrightarrow> xs \<noteq> [] \<Longrightarrow> chunks n xs = take n xs # chunks n (drop n xs)"
  by (subst chunks.simps) simp

lemma concat_chunks: "0 < n \<Longrightarrow> concat (chunks n xs) = xs"
proof (induction n xs rule: chunks.induct)
  case (1 n xs)
  show ?case
  proof (cases "xs = []")
    case True
    then show ?thesis by simp
  next
    case False
    with 1 show ?thesis by (simp add: chunks_step)
  qed
qed

lemma ceil_div_less:
  assumes "0 < (n::nat)"
  shows "i < (L + n - 1) div n \<longleftrightarrow> i * n < L"
proof -
  have "i < (L + n - 1) div n \<longleftrightarrow> Suc i \<le> (L + n - 1) div n"
    by auto
  also have "\<dots> \<longleftrightarrow> Suc i * n \<le> L + n - 1"
    using assms by (simp only: less_eq_div_iff_mult_less_eq)
  also have "\<dots> \<longleftrightarrow> i * n < L"
    using assms by auto
  finally show ?thesis .
qed

lemma chunks_index: "0 < n \<Longrightarrow> i < length (chunks n xs) \<longleftrightarrow> i * n < length xs"
proof (induction n xs arbitrary: i rule: chunks.induct)
  case (1 n xs)
  show ?case
  proof (cases "xs = []")
    case True
    then show ?thesis by simp
  next
    case False
    then have pos: "0 < length xs" by simp
    show ?thesis
    proof (cases i)
      case 0
      with False 1(2) pos show ?thesis by (simp add: chunks_step)
    next
      case (Suc j)
      have "j < length (chunks n (drop n xs)) \<longleftrightarrow> j * n < length (drop n xs)"
        using 1 False by simp
      with Suc False 1(2) show ?thesis
        by (auto simp: chunks_step)
    qed
  qed
qed

lemma length_chunks: "0 < n \<Longrightarrow> length (chunks n xs) = (length xs + n - 1) div n"
proof (rule ccontr)
  assume n: "0 < n" and ne: "length (chunks n xs) \<noteq> (length xs + n - 1) div n"
  then consider "length (chunks n xs) < (length xs + n - 1) div n"
    | "(length xs + n - 1) div n < length (chunks n xs)"
    by linarith
  then show False
  proof cases
    case 1
    then have "length (chunks n xs) * n < length xs"
      using n by (simp only: ceil_div_less)
    then have "length (chunks n xs) < length (chunks n xs)"
      using n by (simp only: chunks_index)
    then show False by simp
  next
    case 2
    then have "(length xs + n - 1) div n * n < length xs"
      using n by (simp only: chunks_index)
    then have "(length xs + n - 1) div n < (length xs + n - 1) div n"
      using n by (simp only: ceil_div_less)
    then show False by simp
  qed
qed

lemma chunks_nth:
  "0 < n \<Longrightarrow> i < length (chunks n xs) \<Longrightarrow> chunks n xs ! i = take n (drop (i * n) xs)"
proof (induction n xs arbitrary: i rule: chunks.induct)
  case (1 n xs)
  show ?case
  proof (cases "xs = []")
    case True
    with 1 show ?thesis by simp
  next
    case False
    show ?thesis
    proof (cases i)
      case 0
      with False 1 show ?thesis by (simp add: chunks_step)
    next
      case (Suc j)
      with False 1 show ?thesis by (simp add: chunks_step add.commute)
    qed
  qed
qed

lemma chunk_sizes:
  assumes n: "0 < n" and i: "i < length (chunks n xs)"
  shows "length (chunks n xs ! i) \<le> n \<and> chunks n xs ! i \<noteq> [] \<and>
    (Suc i < length (chunks n xs) \<longrightarrow> length (chunks n xs ! i) = n)"
proof -
  have len: "length (chunks n xs ! i) = min n (length xs - i * n)"
    using chunks_nth[OF assms] by simp
  have lt: "i * n < length xs"
    using i n by (simp only: chunks_index)
  have full: "n + i * n < length xs" if "Suc i < length (chunks n xs)"
    using that n chunks_index[of n "Suc i" xs] by simp
  from len lt full n show ?thesis
    by (auto simp: min_def)
qed


lemma enumerate_list_nth:
  "enumerate_list cs = map (\<lambda>i. (i, cs ! i)) [0..<length cs]"
  unfolding enumerate_list_def by (rule nth_equalityI) simp_all

lemma invoke_eq: "invoke be c tr = (r, tr') \<longleftrightarrow> r = be tr c \<and> tr' = tr @ [(c, be tr c)]"
  by (auto simp: invoke_def)

lemma get_prefix_list_by_id_extends:
  "get_prefix_list_by_id be pid tr = (r, tr') \<Longrightarrow>
     tr' = tr @ [(describe_managed_prefix_lists None (Some [pid]),
                  be tr (describe_managed_prefix_lists None (Some [pid])))]"
  by (auto simp: get_prefix_list_by_id_def invoke_def
      split: sum.splits response.splits list.splits)

lemma wait_prefix_list_extends:
  "wait_prefix_list be pid complete msg counts tr = (r, tr') \<Longrightarrow> \<exists>ev. tr' = tr @ ev"
proof (induction counts arbitrary: tr)
  case Nil
  then show ?case by simp
next
  case (Cons c counts)
  obtain r1 tr1 where g: "get_prefix_list_by_id be pid (time_sleep (c + (c + 1)) tr) = (r1, tr1)"
    by (cases "get_prefix_list_by_id be pid (time_sleep (c + (c + 1)) tr)")
  from get_prefix_list_by_id_extends[OF g] obtain ev1 where ev1: "tr1 = tr @ ev1"
    by (auto simp: time_sleep_def)
  from Cons.prems g show ?case
  proof (cases r1)
    case (Return pl)
    show ?thesis
    proof (cases "State pl \<in> set complete")
      case True
      with Cons.prems g Return ev1 show ?thesis by (auto simp: Let_def)
    next
      case False
      with Cons.prems g Return have "wait_prefix_list be pid complete msg counts tr1 = (r, tr')"
        by (simp add: Let_def)
      from Cons.IH[OF this] ev1 show ?thesis by auto
    qed
  next
    case (Raise e)
    with Cons.prems g ev1 show ?thesis by (auto simp: Let_def)
  next
    case Timeout
    with Cons.prems g ev1 show ?thesis by (auto simp: Let_def)
  qed
qed

lemma modify_batches_extends:
  "modify_batches be waiting complete msg adds removes idxs response tr = (r, tr') \<Longrightarrow>
     \<exists>ev. tr' = tr @ ev"
proof (induction idxs arbitrary: response tr)
  case Nil
  then show ?case by simp
next
  case (Cons index idxs)
  from Cons.prems show ?case
  proof (cases "PrefixList_of response")
    case (Inl e)
    with Cons.prems show ?thesis by simp
  next
    case (Inr pl)
    obtain r1 tr1 where w: "(if State pl \<in> set waiting
                 then wait_prefix_list be (PrefixListId pl) complete msg [0..<5] tr
                 else (Return pl, tr)) = (r1, tr1)"
      by (cases "(if State pl \<in> set waiting
                 then wait_prefix_list be (PrefixListId pl) complete msg [0..<5] tr
                 else (Return pl, tr))")
    then obtain ev1 where ev1: "tr1 = tr @ ev1"
      using wait_prefix_list_extends by (fastforce split: if_splits)
    show ?thesis
    proof (cases r1)
      case (Return pl1)
      show ?thesis
      proof (cases "be tr1 (modify_managed_prefix_list (PrefixListId pl1) (Some (Version pl1))
                                  (PrefixListName pl1) None
                                  (take 100 (drop index adds))
                                  (take 100 (drop index removes)))")
        case e: (Inl e)
        with Cons.prems Inr w Return ev1 show ?thesis
          by (auto simp: invoke_def simp del: wait_prefix_list.simps)
      next
        case resp: (Inr response')
        with Cons.prems Inr w Return obtain tr2 where
          "modify_batches be waiting complete msg adds removes idxs response' tr2 = (r, tr')"
          and "\<exists>ev2. tr2 = tr1 @ ev2"
          by (auto simp: invoke_def simp del: wait_prefix_list.simps)
        with Cons.IH ev1 show ?thesis by fastforce
      qed
    next
      case (Raise e)
      with Cons.prems Inr w ev1 show ?thesis
        by (auto simp del: wait_prefix_list.simps)
    next
      case Timeout
      with Cons.prems Inr w ev1 show ?thesis
        by (auto simp del: wait_prefix_list.simps)
    qed
  qed
qed

lemma create_prefix_list_first:
  assumes "create_prefix_list be name fam xs tr = (r, tr')"
  shows "\<exists>response rest. tr' = tr @
             (create_managed_prefix_list name
                (take 100 (map (\<lambda>a. \<lparr>Cidr = a, Description = Some DESCRIPTION\<rparr>) xs))
                (min (int (length xs) + 10) 1000) fam, response) # rest"
proof -
  let ?c = "create_managed_prefix_list name
                (take 100 (map (\<lambda>a. \<lparr>Cidr = a, Description = Some DESCRIPTION\<rparr>) xs))
                (min (int (length xs) + 10) 1000) fam"
  show ?thesis
  proof (cases "be tr ?c")
    case (Inl e)
    with assms show ?thesis
      by (auto simp: create_prefix_list_def invoke_def Let_def)
  next
    case (Inr response)
    obtain r2 tr2 where m: "modify_batches be [''create-in-progress'', ''modify-in-progress'']
                     [''create-complete'', ''modify-complete'']
                     ''Error creating/updating VPC Prefix List. Can't wait anymore.''
                     (map (\<lambda>a. \<lparr>Cidr = a, Description = Some DESCRIPTION\<rparr>) xs) []
                     (py_range 100 (length xs) 100) response (tr @ [(?c, be tr ?c)]) = (r2, tr2)"
      by (cases "modify_batches be [''create-in-progress'', ''modify-in-progress'']
                     [''create-complete'', ''modify-complete'']
                     ''Error creating/updating VPC Prefix List. Can't wait anymore.''
                     (map (\<lambda>a. \<lparr>Cidr = a, Description = Some DESCRIPTION\<rparr>) xs) []
                     (py_range 100 (length xs) 100) response (tr @ [(?c, be tr ?c)])")
    from modify_batches_extends[OF m] obtain ev where ev: "tr2 = (tr @ [(?c, be tr ?c)]) @ ev"
      by blast
    from assms Inr m have "tr' = tr2"
      by (auto simp: create_prefix_list_def invoke_def Let_def split: result.splits)
    with ev show ?thesis by auto
  qed
qed


lemma get_prefix_list_entries_loop_extends:
  "get_prefix_list_entries_loop fuel lib be pid ver page token entries tr = (r, tr') \<Longrightarrow>
     \<exists>ev. tr' = tr @ ev"
proof (induction fuel arbitrary: page token entries tr)
  case 0
  then show ?case
    by (auto simp: get_prefix_list_entries_loop.simps split: sum.splits option.splits)
next
  case (Suc fuel)
  show ?case
  proof (cases "prefix_list_entries lib page entries")
    case (Inl e)
    with Suc.prems show ?thesis by (simp add: get_prefix_list_entries_loop.simps)
  next
    case (Inr entries')
    show ?thesis
    proof (cases token)
      case None
      with Suc.prems Inr show ?thesis by (simp add: get_prefix_list_entries_loop.simps)
    next
      case (Some next_token)
      let ?c = "get_managed_prefix_list_entries pid ver (Some next_token)"
      show ?thesis
      proof (cases "be tr ?c")
        case e: (Inl e)
        with Suc.prems Inr Some show ?thesis
          by (auto simp: get_prefix_list_entries_loop.simps invoke_def)
      next
        case resp: (Inr response)
        show ?thesis
        proof (cases "\<exists>page' token'. response = Entries_page page' token'")
          case True
          then obtain page' token' where "response = Entries_page page' token'" by blast
          with Suc.prems Inr Some resp have
            "get_prefix_list_entries_loop fuel lib be pid ver page' token' entries'
               (tr @ [(?c, be tr ?c)]) = (r, tr')"
            by (simp add: get_prefix_list_entries_loop.simps invoke_def)
          from Suc.IH[OF this] show ?thesis by auto
        next
          case False
          with Suc.prems Inr Some resp show ?thesis
            by (cases response) (auto simp: get_prefix_list_entries_loop.simps invoke_def)
        qed
      qed
    qed
  qed
qed

lemma get_prefix_list_entries_first:
  assumes "get_prefix_list_entries fuel lib be name pid ver tr = (r, tr')"
  shows "\<exists>response rest. tr' = tr @ (get_managed_prefix_list_entries pid ver None, response) # rest"
proof -
  let ?c = "get_managed_prefix_list_entries pid ver None"
  show ?thesis
  proof (cases "be tr ?c")
    case (Inl e)
    with assms show ?thesis by (auto simp: get_prefix_list_entries_def invoke_def)
  next
    case (Inr response)
    show ?thesis
    proof (cases "\<exists>page token. response = Entries_page page token")
      case True
      then obtain page token where "response = Entries_page page token" by blast
      with assms Inr have
        "get_prefix_list_entries_loop fuel lib be pid ver page token [] (tr @ [(?c, be tr ?c)])
           = (r, tr')"
        by (simp add: get_prefix_list_entries_def invoke_def)
      from get_prefix_list_entries_loop_extends[OF this] show ?thesis by auto
    next
      case False
      with assms Inr show ?thesis
        by (cases response) (auto simp: get_prefix_list_entries_def invoke_def)
    qed
  qed
qed

lemma change_max_entries_extends:
  assumes "change_max_entries be name pid mx ver xs adds tr = (r, tr')"
  shows "\<exists>ev. tr' = tr @ ev"
proof -
  have w: "\<And>t r2 t2. wait_prefix_list be pid [''modify-complete'']
                ''Error updating VPC Prefix List max entries. Can't wait anymore.''
                [0..<5] t = (r2, t2) \<Longrightarrow> \<exists>ev. t2 = t @ ev"
    by (rule wait_prefix_list_extends)
  show ?thesis
  proof (cases "adds \<noteq> [] \<and> mx < int (length xs)")
    case False
    with assms show ?thesis by (cases "adds = []") (auto simp: change_max_entries_def)
  next
    case True
    let ?c = "modify_managed_prefix_list pid None name (Some (int (length xs))) [] []"
    let ?t1 = "tr @ [(?c, be tr ?c)]"
    obtain r2 t2 where wr: "wait_prefix_list be pid [''modify-complete'']
                ''Error updating VPC Prefix List max entries. Can't wait anymore.''
                [0..<5] ?t1 = (r2, t2)"
      by (cases "wait_prefix_list be pid [''modify-complete'']
                ''Error updating VPC Prefix List max entries. Can't wait anymore.''
                [0..<5] ?t1")
    from w[OF wr] obtain ev where ev: "t2 = ?t1 @ ev" by blast
    from assms True wr have "tr' = ?t1 \<or> tr' = t2"
      by (auto simp: change_max_entries_def invoke_def
          simp del: wait_prefix_list.simps upt_rec_numeral set_simps
          split: sum.splits if_splits result.splits)
    with ev show ?thesis by auto
  qed
qed

lemma update_entries_extends:
  assumes "update_entries be name pid ver adds removes tr = (r, tr')"
  shows "\<exists>ev. tr' = tr @ ev"
proof -
  let ?c = "modify_managed_prefix_list pid (Some ver) name None (take 100 adds) (take 100 removes)"
  let ?t1 = "tr @ [(?c, be tr ?c)]"
  show ?thesis
  proof (cases "be tr ?c")
    case (Inl e)
    with assms show ?thesis by (auto simp: update_entries_def invoke_def)
  next
    case (Inr response)
    obtain r2 t2 where m: "modify_batches be [''modify-in-progress''] [''modify-complete'']
                  ''Error updating VPC Prefix List. Can't wait anymore.'' adds removes
                  (py_range 100 (max (length adds) (length removes)) 100) response ?t1 = (r2, t2)"
      by (cases "modify_batches be [''modify-in-progress''] [''modify-complete'']
                  ''Error updating VPC Prefix List. Can't wait anymore.'' adds removes
                  (py_range 100 (max (length adds) (length removes)) 100) response ?t1")
    from modify_batches_extends[OF m] obtain ev where ev: "t2 = ?t1 @ ev" by blast
    from assms Inr m have "tr' = t2 \<or> tr' = t2 @ [(create_tags pid, be t2 (create_tags pid))]"
      by (auto simp: update_entries_def invoke_def split: result.splits sum.splits)
    with ev show ?thesis by auto
  qed
qed

lemma update_prefix_list_first:
  assumes "update_prefix_list fuel lib be name pl xs tr = (Return upd, tr')"
  shows "\<exists>response rest. tr' = tr @
           (get_managed_prefix_list_entries (PrefixListId pl) (Version pl) None, response) # rest"
proof -
  from assms obtain network_list where p: "parse_all (ip_network lib) xs = Inr network_list"
    by (cases "parse_all (ip_network lib) xs") (auto simp: update_prefix_list_def)
  obtain r1 t1 where g: "get_prefix_list_entries fuel lib be name (PrefixListId pl) (Version pl) tr
      = (r1, t1)"
    by (cases "get_prefix_list_entries fuel lib be name (PrefixListId pl) (Version pl) tr")
  from get_prefix_list_entries_first[OF g] obtain response rest where
    t1: "t1 = tr @ (get_managed_prefix_list_entries (PrefixListId pl) (Version pl) None, response)
            # rest"
    by blast
  from assms p g obtain current where r1: "r1 = Return current"
    by (cases r1) (auto simp: update_prefix_list_def)
  let ?rem = "prefix_list_entries_to_remove lib network_list current"
  let ?add = "prefix_list_entries_to_add lib network_list current"
  show ?thesis
  proof (cases "?add = [] \<and> ?rem = []")
    case True
    with assms p g r1 have "tr' = t1" by (simp add: update_prefix_list_def Let_def)
    with t1 show ?thesis by blast
  next
    case False
    obtain r2 t2 where c: "change_max_entries be name (PrefixListId pl) (MaxEntries pl)
        (Version pl) xs ?add t1 = (r2, t2)"
      by (cases "change_max_entries be name (PrefixListId pl) (MaxEntries pl)
        (Version pl) xs ?add t1")
    from change_max_entries_extends[OF c] obtain ev2 where t2: "t2 = t1 @ ev2" by blast
    from assms p g r1 False c obtain ver where r2: "r2 = Return ver"
      by (cases r2) (auto simp: update_prefix_list_def Let_def)
    from assms p g r1 False c r2 have
      "update_entries be name (PrefixListId pl) ver ?add ?rem t2 = (Return upd, tr')"
      by (auto simp: update_prefix_list_def Let_def)
    from update_entries_extends[OF this] obtain ev3 where "tr' = t2 @ ev3" by blast
    with t1 t2 show ?thesis by auto
  qed
qed

lemma map_upt_Suc0:
  "map f [0..<Suc n] = f 0 # map (\<lambda>i. f (Suc i)) [0..<n]"
  by (simp only: map_upt_Suc)

lemma manage_chunks_run:
  "manage_chunks fuel lib be vpl base v ics names tr = (res, tr') \<Longrightarrow>
   \<exists>k trs. k \<le> length ics \<and> length trs = Suc k \<and> trs ! 0 = tr \<and>
     (\<forall>i<k. chunk_done fuel lib be vpl v (chunk_name base (fst (ics ! i))) (snd (ics ! i))
               (trs ! i) (trs ! Suc i)) \<and>
     (k = length ics \<longrightarrow> tr' = trs ! k \<and>
        res = Return \<lparr>created = created names @
                         filter (\<lambda>n. map_of vpl n = None)
                           (map (\<lambda>ic. chunk_name base (fst ic)) ics),
                       updated = updated names @
                         concat (map (\<lambda>i. if chunk_updated fuel lib be vpl
                                               (chunk_name base (fst (ics ! i))) (snd (ics ! i))
                                               (trs ! i)
                                           then [chunk_name base (fst (ics ! i))] else [])
                                   [0..<length ics])\<rparr>) \<and>
     (k < length ics \<longrightarrow>
        chunk_failed fuel lib be vpl v (chunk_name base (fst (ics ! k))) (snd (ics ! k))
          (trs ! k) res tr')"
proof (induction ics arbitrary: names tr)
  case Nil
  then show ?case
    by (intro exI[of _ 0] exI[of _ "[tr]"]) auto
next
  case (Cons ic ics)
  obtain index chunk where ic: "ic = (index, chunk)" by (cases ic)
  let ?name = "chunk_name base index"
  define ok where "ok \<longleftrightarrow>
    (case map_of vpl ?name of
       None \<Rightarrow> (\<exists>t1. create_prefix_list be ?name (ip_version_upper v) chunk tr = (Return (), t1))
     | Some pl \<Rightarrow> (\<exists>upd t1. update_prefix_list fuel lib be ?name pl chunk tr = (Return upd, t1)))"
  show ?case
  proof (cases ok)
    case False
    have "chunk_failed fuel lib be vpl v ?name chunk tr res tr'"
    proof (cases "map_of vpl ?name")
      case None
      with False Cons.prems ic show ?thesis
        by (cases "create_prefix_list be ?name (ip_version_upper v) chunk tr";
            cases "fst (create_prefix_list be ?name (ip_version_upper v) chunk tr)")
           (auto simp: ok_def chunk_failed_def Let_def)
    next
      case (Some pl)
      with False Cons.prems ic show ?thesis
        by (cases "update_prefix_list fuel lib be ?name pl chunk tr";
            cases "fst (update_prefix_list fuel lib be ?name pl chunk tr)")
           (auto simp: ok_def chunk_failed_def Let_def)
    qed
    with ic show ?thesis
      by (intro exI[of _ 0] exI[of _ "[tr]"]) auto
  next
    case True
    obtain names1 t1 where
      done1: "chunk_done fuel lib be vpl v ?name chunk tr t1"
      and rest: "manage_chunks fuel lib be vpl base v ics names1 t1 = (res, tr')"
      and c1: "created names1 = created names @ (if map_of vpl ?name = None then [?name] else [])"
      and u1: "updated names1 = updated names @
                 (if chunk_updated fuel lib be vpl ?name chunk tr then [?name] else [])"
    proof (cases "map_of vpl ?name")
      case None
      with True obtain t1 where
        c: "create_prefix_list be ?name (ip_version_upper v) chunk tr = (Return (), t1)"
        by (auto simp: ok_def)
      from create_prefix_list_first[OF c] None c have
        "chunk_done fuel lib be vpl v ?name chunk tr t1"
        by (simp add: chunk_done_def)
      moreover from Cons.prems ic None c have
        "manage_chunks fuel lib be vpl base v ics (names\<lparr>created := created names @ [?name]\<rparr>) t1
           = (res, tr')"
        by (simp add: Let_def)
      ultimately show ?thesis
        using None by (intro that[of t1 "names\<lparr>created := created names @ [?name]\<rparr>"])
          (simp_all add: chunk_updated_def)
    next
      case (Some pl)
      with True obtain upd t1 where
        u: "update_prefix_list fuel lib be ?name pl chunk tr = (Return upd, t1)"
        by (auto simp: ok_def)
      from update_prefix_list_first[OF u] Some u have
        "chunk_done fuel lib be vpl v ?name chunk tr t1"
        by (auto simp: chunk_done_def)
      moreover from Cons.prems ic Some u have
        "manage_chunks fuel lib be vpl base v ics
           (if upd then names\<lparr>updated := updated names @ [?name]\<rparr> else names) t1 = (res, tr')"
        by (simp add: Let_def)
      ultimately show ?thesis
        using Some u
        by (intro that[of t1 "if upd then names\<lparr>updated := updated names @ [?name]\<rparr> else names"])
          (simp_all add: chunk_updated_def)
    qed
    from Cons.IH[OF rest] obtain k trs where
      k: "k \<le> length ics" and len: "length trs = Suc k" and t0: "trs ! 0 = t1"
      and dn: "\<forall>i<k. chunk_done fuel lib be vpl v (chunk_name base (fst (ics ! i)))
                 (snd (ics ! i)) (trs ! i) (trs ! Suc i)"
      and fin: "k = length ics \<longrightarrow> tr' = trs ! k \<and>
        res = Return \<lparr>created = created names1 @
                         filter (\<lambda>n. map_of vpl n = None)
                           (map (\<lambda>ic. chunk_name base (fst ic)) ics),
                       updated = updated names1 @
                         concat (map (\<lambda>i. if chunk_updated fuel lib be vpl
                                               (chunk_name base (fst (ics ! i))) (snd (ics ! i))
                                               (trs ! i)
                                           then [chunk_name base (fst (ics ! i))] else [])
                                   [0..<length ics])\<rparr>"
      and fl: "k < length ics \<longrightarrow>
        chunk_failed fuel lib be vpl v (chunk_name base (fst (ics ! k))) (snd (ics ! k))
          (trs ! k) res tr'"
      by blast
    have 1: "Suc k \<le> length (ic # ics)" using k by simp
    have 2: "length (tr # trs) = Suc (Suc k)" using len by simp
    have 3: "(tr # trs) ! 0 = tr" by simp
    have 4: "\<forall>i<Suc k. chunk_done fuel lib be vpl v (chunk_name base (fst ((ic # ics) ! i)))
                 (snd ((ic # ics) ! i)) ((tr # trs) ! i) ((tr # trs) ! Suc i)"
    proof (intro allI impI)
      fix i assume i: "i < Suc k"
      show "chunk_done fuel lib be vpl v (chunk_name base (fst ((ic # ics) ! i)))
                 (snd ((ic # ics) ! i)) ((tr # trs) ! i) ((tr # trs) ! Suc i)"
      proof (cases i)
        case 0
        with done1 ic t0 show ?thesis by simp
      next
        case (Suc j)
        with i dn show ?thesis by simp
      qed
    qed
    have 5: "Suc k = length (ic # ics) \<longrightarrow> tr' = (tr # trs) ! Suc k \<and>
        res = Return \<lparr>created = created names @
                         filter (\<lambda>n. map_of vpl n = None)
                           (map (\<lambda>ic. chunk_name base (fst ic)) (ic # ics)),
                       updated = updated names @
                         concat (map (\<lambda>i. if chunk_updated fuel lib be vpl
                                               (chunk_name base (fst ((ic # ics) ! i)))
                                               (snd ((ic # ics) ! i)) ((tr # trs) ! i)
                                           then [chunk_name base (fst ((ic # ics) ! i))] else [])
                                   [0..<length (ic # ics)])\<rparr>"
    proof
      assume "Suc k = length (ic # ics)"
      hence kk: "k = length ics" by simp
      have "map (\<lambda>i. if chunk_updated fuel lib be vpl
                                               (chunk_name base (fst ((ic # ics) ! i)))
                                               (snd ((ic # ics) ! i)) ((tr # trs) ! i)
                                           then [chunk_name base (fst ((ic # ics) ! i))] else [])
                                   [0..<length (ic # ics)]
          = (if chunk_updated fuel lib be vpl ?name chunk tr then [?name] else [])
            # map (\<lambda>i. if chunk_updated fuel lib be vpl
                                               (chunk_name base (fst (ics ! i))) (snd (ics ! i))
                                               (trs ! i)
                                           then [chunk_name base (fst (ics ! i))] else [])
                                   [0..<length ics]"
        using ic by (simp add: map_upt_Suc0 del: upt_Suc)
      with fin kk c1 u1 ic show "tr' = (tr # trs) ! Suc k \<and>
        res = Return \<lparr>created = created names @
                         filter (\<lambda>n. map_of vpl n = None)
                           (map (\<lambda>ic. chunk_name base (fst ic)) (ic # ics)),
                       updated = updated names @
                         concat (map (\<lambda>i. if chunk_updated fuel lib be vpl
                                               (chunk_name base (fst ((ic # ics) ! i)))
                                               (snd ((ic # ics) ! i)) ((tr # trs) ! i)
                                           then [chunk_name base (fst ((ic # ics) ! i))] else [])
                                   [0..<length (ic # ics)])\<rparr>"
        by (simp del: upt_Suc)
    qed
    have 6: "Suc k < length (ic # ics) \<longrightarrow>
        chunk_failed fuel lib be vpl v (chunk_name base (fst ((ic # ics) ! Suc k)))
          (snd ((ic # ics) ! Suc k)) ((tr # trs) ! Suc k) res tr'"
      using fl by simp
    from 1 2 3 4 5 6 show ?thesis
      by (intro exI[of _ "Suc k"] exI[of _ "tr # trs"] conjI)
  qed
qed


lemma enumerate_list_at:
  "i < length cs \<Longrightarrow> enumerate_list cs ! i = (i, cs ! i)"
  by (simp add: enumerate_list_def)

lemma length_enumerate_list [simp]: "length (enumerate_list cs) = length cs"
  by (simp add: enumerate_list_def)

text \<open>
  C6. One IP version of \<open>manage_prefix_list\<close>, for a chunk size \<open>C\<close> of at least one and a
  desired list of length \<open>L\<close>: \<open>itertools.batched\<close> cuts the list into \<open>ceil(L/C)\<close> chunks, which
  put end to end are the list; every chunk has at most \<open>C\<close> entries and is not empty, and
  every chunk but the last has exactly \<open>C\<close>. The run is the chunks handled one after the
  other, from the first: chunk \<open>i\<close>, with its own entries, is created under the name of index
  \<open>i\<close> when no prefix list of that name is listed, and diffed against the listed prefix list
  of that name otherwise, the name being the base name for index 0 and
  \<open>base-continued-n\<close> for index \<open>n\<close>; each chunk starts from the requests its predecessors
  made. When all chunks returned, the names reported as created are those of the chunks
  without a listed prefix list, and those reported as updated are those of the chunks whose
  diff changed something, in the order of the chunks. When chunk \<open>k\<close> did not return, the
  chunks before it were handled, the run ends with the failure of chunk \<open>k\<close>, and no later
  chunk is touched.
\<close>

theorem chunking:
  assumes C: "0 < chunk_size"
    and base: "base = resource_name service_name ip_version"
    and r: "map_of service_ranges service_name = Some r"
    and d: "desired_list lib should_summarize ip_version r = Inr (address_list, r')"
    and run: "manage_prefix_list_version fuel lib be vpc_prefix_lists service_name
                should_summarize chunk_size ip_version prefix_list_names service_ranges tr
              = (res, service_ranges', tr')"
  shows "\<exists>cs k trs.
      batched address_list chunk_size = Inr cs \<and>
      length cs = (length address_list + nat chunk_size - 1) div nat chunk_size \<and>
      concat cs = address_list \<and>
      (\<forall>i<length cs. length (cs ! i) \<le> nat chunk_size \<and> cs ! i \<noteq> [] \<and>
          (Suc i < length cs \<longrightarrow> length (cs ! i) = nat chunk_size)) \<and>
      chunk_name base 0 = base \<and>
      (\<forall>n>0. chunk_name base n = base @ ''-continued-'' @ str_nat n) \<and>
      k \<le> length cs \<and> length trs = Suc k \<and> trs ! 0 = tr \<and>
      (\<forall>i<k. chunk_done fuel lib be vpc_prefix_lists ip_version (chunk_name base i) (cs ! i)
                (trs ! i) (trs ! Suc i)) \<and>
      (k = length cs \<longrightarrow> tr' = trs ! k \<and>
         res = Return \<lparr>created = created prefix_list_names @
                          filter (\<lambda>n. map_of vpc_prefix_lists n = None)
                            (map (chunk_name base) [0..<length cs]),
                        updated = updated prefix_list_names @
                          concat (map (\<lambda>i. if chunk_updated fuel lib be vpc_prefix_lists
                                                (chunk_name base i) (cs ! i) (trs ! i)
                                            then [chunk_name base i] else [])
                                    [0..<length cs])\<rparr>) \<and>
      (k < length cs \<longrightarrow>
         chunk_failed fuel lib be vpc_prefix_lists ip_version (chunk_name base k) (cs ! k)
           (trs ! k) res tr')"
proof -
  define cs where "cs = chunks (nat chunk_size) address_list"
  have n: "0 < nat chunk_size" using C by simp
  have b: "batched address_list chunk_size = Inr cs"
    using C by (simp add: batched_def cs_def)
  have mc: "manage_chunks fuel lib be vpc_prefix_lists base ip_version (enumerate_list cs)
              prefix_list_names tr = (res, tr')"
  proof (cases "family_ip_list ip_version r = []")
    case True
    with d have "address_list = []" by (simp add: desired_list_def)
    hence "cs = []" by (simp add: cs_def)
    with run r True show ?thesis
      by (simp add: manage_prefix_list_version_def enumerate_list_def)
  next
    case False
    with run r d b base show ?thesis
      by (simp add: manage_prefix_list_version_def Let_def split: prod.splits)
  qed
  from manage_chunks_run[OF mc] obtain k trs where
    k: "k \<le> length cs" and len: "length trs = Suc k" and t0: "trs ! 0 = tr"
    and dn: "\<forall>i<k. chunk_done fuel lib be vpc_prefix_lists ip_version
                 (chunk_name base (fst (enumerate_list cs ! i))) (snd (enumerate_list cs ! i))
                 (trs ! i) (trs ! Suc i)"
    and fin: "k = length (enumerate_list cs) \<longrightarrow> tr' = trs ! k \<and>
        res = Return \<lparr>created = created prefix_list_names @
                         filter (\<lambda>n. map_of vpc_prefix_lists n = None)
                           (map (\<lambda>ic. chunk_name base (fst ic)) (enumerate_list cs)),
                       updated = updated prefix_list_names @
                         concat (map (\<lambda>i. if chunk_updated fuel lib be vpc_prefix_lists
                                               (chunk_name base (fst (enumerate_list cs ! i)))
                                               (snd (enumerate_list cs ! i)) (trs ! i)
                                           then [chunk_name base (fst (enumerate_list cs ! i))]
                                           else [])
                                   [0..<length (enumerate_list cs)])\<rparr>"
    and fl: "k < length (enumerate_list cs) \<longrightarrow>
        chunk_failed fuel lib be vpc_prefix_lists ip_version
          (chunk_name base (fst (enumerate_list cs ! k))) (snd (enumerate_list cs ! k))
          (trs ! k) res tr'"
    by (auto simp only: length_enumerate_list)
  have fsts: "map (\<lambda>ic. chunk_name base (fst ic)) (enumerate_list cs)
      = map (chunk_name base) [0..<length cs]"
    by (simp add: enumerate_list_nth comp_def del: upt_Suc)
  have upds: "map (\<lambda>i. if chunk_updated fuel lib be vpc_prefix_lists
                                               (chunk_name base (fst (enumerate_list cs ! i)))
                                               (snd (enumerate_list cs ! i)) (trs ! i)
                                           then [chunk_name base (fst (enumerate_list cs ! i))]
                                           else [])
                                   [0..<length (enumerate_list cs)]
      = map (\<lambda>i. if chunk_updated fuel lib be vpc_prefix_lists
                                                (chunk_name base i) (cs ! i) (trs ! i)
                                            then [chunk_name base i] else [])
                                    [0..<length cs]"
    by (rule map_cong) (simp_all add: enumerate_list_at)
  show ?thesis
  proof (intro exI[of _ cs] exI[of _ k] exI[of _ trs] conjI allI impI)
    show "batched address_list chunk_size = Inr cs" by (rule b)
    show "length cs = (length address_list + nat chunk_size - 1) div nat chunk_size"
      unfolding cs_def using n by (rule length_chunks)
    show "concat cs = address_list"
      unfolding cs_def using n by (rule concat_chunks)
    show "chunk_name base 0 = base" by (simp add: chunk_name_def)
    show "chunk_name base m = base @ ''-continued-'' @ str_nat m" if "0 < m" for m
      using that by (simp add: chunk_name_def)
    show "length (cs ! i) \<le> nat chunk_size" if "i < length cs" for i
      using chunk_sizes[OF n, of i address_list] that by (simp add: cs_def)
    show "cs ! i \<noteq> []" if "i < length cs" for i
      using chunk_sizes[OF n, of i address_list] that by (simp add: cs_def)
    show "length (cs ! i) = nat chunk_size" if "i < length cs" "Suc i < length cs" for i
      using chunk_sizes[OF n, of i address_list] that by (simp add: cs_def)
    show "k \<le> length cs" by (rule k)
    show "length trs = Suc k" by (rule len)
    show "trs ! 0 = tr" by (rule t0)
    show "chunk_done fuel lib be vpc_prefix_lists ip_version (chunk_name base i) (cs ! i)
                (trs ! i) (trs ! Suc i)" if "i < k" for i
      using dn that k by (simp add: enumerate_list_at)
    show "tr' = trs ! k" if "k = length cs"
      using fin that by simp
    show "res = Return \<lparr>created = created prefix_list_names @
                          filter (\<lambda>n. map_of vpc_prefix_lists n = None)
                            (map (chunk_name base) [0..<length cs]),
                        updated = updated prefix_list_names @
                          concat (map (\<lambda>i. if chunk_updated fuel lib be vpc_prefix_lists
                                                (chunk_name base i) (cs ! i) (trs ! i)
                                            then [chunk_name base i] else [])
                                    [0..<length cs])\<rparr>" if "k = length cs"
      using fin that unfolding fsts upds by simp
    show "chunk_failed fuel lib be vpc_prefix_lists ip_version (chunk_name base k) (cs ! k)
           (trs ! k) res tr'" if "k < length cs"
      using fl that by (simp add: enumerate_list_at)
  qed
qed


lemma example_batches:
  "batched [''10.0.0.0/24'', ''10.0.1.0/24'', ''10.0.2.0/24'', ''10.0.3.0/24'', ''10.0.4.0/24''] 2
   = Inr [[''10.0.0.0/24'', ''10.0.1.0/24''], [''10.0.2.0/24'', ''10.0.3.0/24''], [''10.0.4.0/24'']]"
  by (simp add: batched_def chunks_step)

lemma example_names:
  "resource_name ''S3'' IPV4 = ''aws-ip-ranges-s3-ipv4''"
  "chunk_name ''aws-ip-ranges-s3-ipv4'' 0 = ''aws-ip-ranges-s3-ipv4''"
  "chunk_name ''aws-ip-ranges-s3-ipv4'' 1 = ''aws-ip-ranges-s3-ipv4-continued-1''"
  "chunk_name ''aws-ip-ranges-s3-ipv4'' 2 = ''aws-ip-ranges-s3-ipv4-continued-2''"
  by (simp_all add: chunk_name_def resource_name_def str_nat.simps char_of_def bit_Suc_0_iff
      RESOURCE_NAME_PREFIX_def lower_char_def replace_underscore_def Let_def)

lemma example_create_0:
  "create_prefix_list chunk_backend ''aws-ip-ranges-s3-ipv4'' ''IPV4''
     [''10.0.0.0/24'', ''10.0.1.0/24''] [] = (Return (), take 1 example_trace)"
  by (simp add: create_prefix_list_def invoke_def py_range_def Let_def chunk_backend_def
      example_trace_def DESCRIPTION_def)

lemma example_with_prefixlen:
  "text_with_prefixlen (Network IPV4 167772928 24) = ''10.0.3.0/24''"
proof -
  have u: "[0..<4] = [0, 1, 2, 3::nat]"
    by (simp add: upt_conv_Cons numeral_eq_Suc)
  show ?thesis
    unfolding text_with_prefixlen_def string_from_ip_int_def u
    by (simp add: str_nat.simps char_of_def bit_Suc_0_iff)
qed

lemma example_update_1:
  "update_prefix_list 0 ipaddress_text chunk_backend ''aws-ip-ranges-s3-ipv4-continued-1''
     example_continued [''10.0.2.0/24'', ''10.0.3.0/24''] (take 1 example_trace)
   = (Return True, take 4 example_trace)"
  by (simp add: update_prefix_list_def get_prefix_list_entries_def
      get_prefix_list_entries_loop.simps ip_network_def text_defs char_of_def bit_Suc_0_iff
      prefix_list_entries_to_remove_def prefix_list_entries_to_add_def change_max_entries_def
      update_entries_def invoke_def py_range_def chunk_backend_def example_continued_def
      example_trace_def DESCRIPTION_def dict_set.simps example_with_prefixlen)

lemma example_create_2:
  "create_prefix_list chunk_backend ''aws-ip-ranges-s3-ipv4-continued-2'' ''IPV4''
     [''10.0.4.0/24''] (take 4 example_trace) = (Return (), example_trace)"
  by (simp add: create_prefix_list_def invoke_def py_range_def Let_def chunk_backend_def
      example_trace_def DESCRIPTION_def)


lemma example_enumerate:
  "enumerate_list [[''10.0.0.0/24'', ''10.0.1.0/24''], [''10.0.2.0/24'', ''10.0.3.0/24''],
       [''10.0.4.0/24'']]
   = [(0, [''10.0.0.0/24'', ''10.0.1.0/24'']), (1, [''10.0.2.0/24'', ''10.0.3.0/24'']),
      (2, [''10.0.4.0/24''])]"
  by (simp add: enumerate_list_def upt_conv_Cons)

lemma example_run_version:
  "manage_prefix_list_version 0 ipaddress_text chunk_backend example_listing ''S3'' False 2 IPV4
     no_names example_five []
   = (Return \<lparr>created = [''aws-ip-ranges-s3-ipv4'', ''aws-ip-ranges-s3-ipv4-continued-2''],
              updated = [''aws-ip-ranges-s3-ipv4-continued-1'']\<rparr>, example_five, example_trace)"
  by (simp add: manage_prefix_list_version_def example_five_def desired_list_def
      example_batches example_enumerate example_names example_listing_def
      example_create_0 example_update_1 example_create_2 no_names_def Let_def
      del: One_nat_def)

lemma example_run:
  "manage_prefix_list 0 ipaddress_text chunk_backend example_listing ''S3'' example_five False 2 []
   = (Return \<lparr>created = [''aws-ip-ranges-s3-ipv4'', ''aws-ip-ranges-s3-ipv4-continued-2''],
              updated = [''aws-ip-ranges-s3-ipv4-continued-1'']\<rparr>, example_five, example_trace)"
  by (simp add: manage_prefix_list_def example_run_version)
     (simp add: manage_prefix_list_version_def example_five_def)

lemma chunk_failed_Return:
  "\<not> chunk_failed fuel lib be vpl v name chunk t (Return x) t'"
  by (auto simp: chunk_failed_def split: option.splits prod.splits result.splits)

theorem chunking_witness:
  "manage_prefix_list 0 ipaddress_text chunk_backend example_listing ''S3'' example_five False 2 []
   = (Return \<lparr>created = [''aws-ip-ranges-s3-ipv4'', ''aws-ip-ranges-s3-ipv4-continued-2''],
              updated = [''aws-ip-ranges-s3-ipv4-continued-1'']\<rparr>, example_five, example_trace)
   \<and> manage_prefix_list_version 0 ipaddress_text chunk_backend example_listing ''S3'' False 2 IPV4
     no_names example_five []
   = (Return \<lparr>created = [''aws-ip-ranges-s3-ipv4'', ''aws-ip-ranges-s3-ipv4-continued-2''],
              updated = [''aws-ip-ranges-s3-ipv4-continued-1'']\<rparr>, example_five, example_trace)
   \<and> batched [''10.0.0.0/24'', ''10.0.1.0/24'', ''10.0.2.0/24'', ''10.0.3.0/24'', ''10.0.4.0/24'']
        2
     = Inr [[''10.0.0.0/24'', ''10.0.1.0/24''], [''10.0.2.0/24'', ''10.0.3.0/24''],
            [''10.0.4.0/24'']]
   \<and> (\<exists>trs. length trs = 4 \<and> trs ! 0 = [] \<and> trs ! 3 = example_trace \<and>
         chunk_done 0 ipaddress_text chunk_backend example_listing IPV4
           ''aws-ip-ranges-s3-ipv4'' [''10.0.0.0/24'', ''10.0.1.0/24''] (trs ! 0) (trs ! 1) \<and>
         chunk_done 0 ipaddress_text chunk_backend example_listing IPV4
           ''aws-ip-ranges-s3-ipv4-continued-1'' [''10.0.2.0/24'', ''10.0.3.0/24'']
           (trs ! 1) (trs ! 2) \<and>
         chunk_done 0 ipaddress_text chunk_backend example_listing IPV4
           ''aws-ip-ranges-s3-ipv4-continued-2'' [''10.0.4.0/24''] (trs ! 2) (trs ! 3))"
proof -
  let ?r = "\<lparr>ipv4 = \<lparr>v4_ip_list = [''10.0.0.0/24'', ''10.0.1.0/24'', ''10.0.2.0/24'',
                                         ''10.0.3.0/24'', ''10.0.4.0/24''],
                          v4_summarized_ip_list = []\<rparr>,
               ipv6 = \<lparr>v6_ip_list = [], v6_summarized_ip_list = []\<rparr>\<rparr>"
  let ?l = "[''10.0.0.0/24'', ''10.0.1.0/24'', ''10.0.2.0/24'', ''10.0.3.0/24'', ''10.0.4.0/24'']"
  let ?cs = "[[''10.0.0.0/24'', ''10.0.1.0/24''], [''10.0.2.0/24'', ''10.0.3.0/24''],
            [''10.0.4.0/24'']]"
  have h1: "0 < (2::int)" by simp
  have h2: "''aws-ip-ranges-s3-ipv4'' = resource_name ''S3'' IPV4"
    by (simp add: example_names)
  have h3: "map_of example_five ''S3'' = Some ?r"
    by (simp add: example_five_def)
  have h4: "desired_list ipaddress_text False IPV4 ?r = Inr (?l, ?r)"
    by (simp add: desired_list_def)
  from chunking[OF h1 h2 h3 h4 example_run_version] obtain cs k trs where
    b: "batched ?l 2 = Inr cs"
    and k: "k \<le> length cs" and len: "length trs = Suc k" and t0: "trs ! 0 = []"
    and dn: "\<forall>i<k. chunk_done 0 ipaddress_text chunk_backend example_listing IPV4
                (chunk_name ''aws-ip-ranges-s3-ipv4'' i) (cs ! i) (trs ! i) (trs ! Suc i)"
    and fin: "k = length cs \<longrightarrow> example_trace = trs ! k"
    and fl: "k < length cs \<longrightarrow>
         chunk_failed 0 ipaddress_text chunk_backend example_listing IPV4
           (chunk_name ''aws-ip-ranges-s3-ipv4'' k) (cs ! k) (trs ! k)
           (Return \<lparr>created = [''aws-ip-ranges-s3-ipv4'', ''aws-ip-ranges-s3-ipv4-continued-2''],
              updated = [''aws-ip-ranges-s3-ipv4-continued-1'']\<rparr>) example_trace"
    by blast
  from b have cs: "cs = ?cs" by (simp add: example_batches)
  from fl k have "k = length cs" by (auto simp: chunk_failed_Return)
  with cs have k3: "k = 3" by simp
  have lt: "0 < k" "1 < k" "2 < k" using k3 by simp_all
  have c: "cs ! 0 = [''10.0.0.0/24'', ''10.0.1.0/24'']"
    "cs ! 1 = [''10.0.2.0/24'', ''10.0.3.0/24'']" "cs ! 2 = [''10.0.4.0/24'']"
    using cs by simp_all
  have s: "Suc 0 = 1" "Suc 1 = 2" "Suc 2 = 3" by simp_all
  have d0: "chunk_done 0 ipaddress_text chunk_backend example_listing IPV4
           ''aws-ip-ranges-s3-ipv4'' [''10.0.0.0/24'', ''10.0.1.0/24''] (trs ! 0) (trs ! 1)"
    using dn[rule_format, OF lt(1)] by (simp only: example_names c s)
  have d1: "chunk_done 0 ipaddress_text chunk_backend example_listing IPV4
           ''aws-ip-ranges-s3-ipv4-continued-1'' [''10.0.2.0/24'', ''10.0.3.0/24'']
           (trs ! 1) (trs ! 2)"
    using dn[rule_format, OF lt(2)] by (simp only: example_names c s)
  have d2: "chunk_done 0 ipaddress_text chunk_backend example_listing IPV4
           ''aws-ip-ranges-s3-ipv4-continued-2'' [''10.0.4.0/24''] (trs ! 2) (trs ! 3)"
    using dn[rule_format, OF lt(3)] by (simp only: example_names c s)
  have l4: "length trs = 4" using len k3 by simp
  have t3: "trs ! 3 = example_trace" using fin k3 cs by simp
  have "length trs = 4 \<and> trs ! 0 = [] \<and> trs ! 3 = example_trace \<and>
         chunk_done 0 ipaddress_text chunk_backend example_listing IPV4
           ''aws-ip-ranges-s3-ipv4'' [''10.0.0.0/24'', ''10.0.1.0/24''] (trs ! 0) (trs ! 1) \<and>
         chunk_done 0 ipaddress_text chunk_backend example_listing IPV4
           ''aws-ip-ranges-s3-ipv4-continued-1'' [''10.0.2.0/24'', ''10.0.3.0/24'']
           (trs ! 1) (trs ! 2) \<and>
         chunk_done 0 ipaddress_text chunk_backend example_listing IPV4
           ''aws-ip-ranges-s3-ipv4-continued-2'' [''10.0.4.0/24''] (trs ! 2) (trs ! 3)"
    using l4 t0 t3 d0 d1 d2 by (intro conjI)
  hence "\<exists>trs. length trs = 4 \<and> trs ! 0 = [] \<and> trs ! 3 = example_trace \<and>
         chunk_done 0 ipaddress_text chunk_backend example_listing IPV4
           ''aws-ip-ranges-s3-ipv4'' [''10.0.0.0/24'', ''10.0.1.0/24''] (trs ! 0) (trs ! 1) \<and>
         chunk_done 0 ipaddress_text chunk_backend example_listing IPV4
           ''aws-ip-ranges-s3-ipv4-continued-1'' [''10.0.2.0/24'', ''10.0.3.0/24'']
           (trs ! 1) (trs ! 2) \<and>
         chunk_done 0 ipaddress_text chunk_backend example_listing IPV4
           ''aws-ip-ranges-s3-ipv4-continued-2'' [''10.0.4.0/24''] (trs ! 2) (trs ! 3)"
    by (rule exI)
  with example_run example_run_version example_batches show ?thesis
    by (intro conjI)
qed

section \<open>Properties of the listings\<close>

lemma keys_fold_dict_set:
  "fst ` set (fold (\<lambda>x. dict_set (k x) (v x)) xs d) = fst ` set d \<union> k ` set xs"
  by (induction xs arbitrary: d) (auto simp: keys_dict_set)

lemma list_waf_ipset_loop_sound:
  "list_waf_ipset_loop fuel be scope items marker ipsets tr = (Return res, tr') \<Longrightarrow>
   \<exists>rest. (case marker of None \<Rightarrow> rest = []
            | Some t \<Rightarrow> pages_served be (list_ip_sets scope) IPSets_page tr (Some t) rest) \<and>
      res = fold (\<lambda>ipset. dict_set (IPSet_Name ipset) ipset) (items @ concat (map fst rest)) ipsets \<and>
      map fst tr' = map fst tr @
        map (list_ip_sets scope) (filter (\<lambda>t. t \<noteq> None) (marker # map snd rest))"
proof (induction fuel arbitrary: items marker ipsets tr)
  case 0
  then show ?case
    by (subst (asm) list_waf_ipset_loop.simps) (auto simp: Let_def split: option.splits)
next
  case (Suc fuel)
  show ?case
  proof (cases marker)
    case None
    with Suc.prems show ?thesis
      by (subst (asm) list_waf_ipset_loop.simps) (auto simp: Let_def)
  next
    case (Some t)
    let ?tr1 = "tr @ [(list_ip_sets scope (Some t), be tr (list_ip_sets scope (Some t)))]"
    from Suc.prems Some obtain items' marker' where
      resp: "be tr (list_ip_sets scope (Some t)) = Inr (IPSets_page items' marker')"
      and rec: "list_waf_ipset_loop fuel be scope items' marker'
          (fold (\<lambda>ipset. dict_set (IPSet_Name ipset) ipset) items ipsets) ?tr1 = (Return res, tr')"
      by (subst (asm) list_waf_ipset_loop.simps)
         (auto simp: Let_def invoke_def split: sum.splits response.splits)
    from Suc.IH[OF rec] obtain rest where
      r1: "case marker' of None \<Rightarrow> rest = []
            | Some t \<Rightarrow> pages_served be (list_ip_sets scope) IPSets_page ?tr1 (Some t) rest"
      and r2: "res = fold (\<lambda>ipset. dict_set (IPSet_Name ipset) ipset)
          (items' @ concat (map fst rest)) (fold (\<lambda>ipset. dict_set (IPSet_Name ipset) ipset) items ipsets)"
      and r3: "map fst tr' = map fst ?tr1 @
        map (list_ip_sets scope) (filter (\<lambda>t. t \<noteq> None) (marker' # map snd rest))"
      by blast
    show ?thesis
    proof (intro exI[of _ "(items', marker') # rest"] conjI)
      show "case marker of None \<Rightarrow> (items', marker') # rest = []
            | Some t \<Rightarrow> pages_served be (list_ip_sets scope) IPSets_page tr (Some t)
                ((items', marker') # rest)"
        using Some resp r1 by simp
      show "res = fold (\<lambda>ipset. dict_set (IPSet_Name ipset) ipset)
          (items @ concat (map fst ((items', marker') # rest))) ipsets"
        using r2 by simp
      show "map fst tr' = map fst tr @
        map (list_ip_sets scope) (filter (\<lambda>t. t \<noteq> None) (marker # map snd ((items', marker') # rest)))"
        using r3 Some by simp
    qed
  qed
qed

lemma list_waf_ipset_sound:
  assumes "list_waf_ipset fuel be scope tr = (Return res, tr')"
  shows "\<exists>pages. pages_served be (list_ip_sets scope) IPSets_page tr None pages \<and>
      res = fold (\<lambda>ipset. dict_set (IPSet_Name ipset) ipset) (concat (map fst pages)) [] \<and>
      map fst tr' = map fst tr @ page_requests (list_ip_sets scope) pages"
proof -
  let ?tr1 = "tr @ [(list_ip_sets scope None, be tr (list_ip_sets scope None))]"
  from assms obtain items marker where
    resp: "be tr (list_ip_sets scope None) = Inr (IPSets_page items marker)"
    and rec: "list_waf_ipset_loop fuel be scope items marker [] ?tr1 = (Return res, tr')"
    by (auto simp: list_waf_ipset_def invoke_def split: sum.splits response.splits)
  from list_waf_ipset_loop_sound[OF rec] obtain rest where
    r1: "case marker of None \<Rightarrow> rest = []
            | Some t \<Rightarrow> pages_served be (list_ip_sets scope) IPSets_page ?tr1 (Some t) rest"
    and r2: "res = fold (\<lambda>ipset. dict_set (IPSet_Name ipset) ipset) (items @ concat (map fst rest)) []"
    and r3: "map fst tr' = map fst ?tr1 @
        map (list_ip_sets scope) (filter (\<lambda>t. t \<noteq> None) (marker # map snd rest))"
    by blast
  show ?thesis
  proof (intro exI[of _ "(items, marker) # rest"] conjI)
    show "pages_served be (list_ip_sets scope) IPSets_page tr None ((items, marker) # rest)"
      using resp r1 by simp
    show "res = fold (\<lambda>ipset. dict_set (IPSet_Name ipset) ipset)
        (concat (map fst ((items, marker) # rest))) []"
      using r2 by simp
    show "map fst tr' = map fst tr @ page_requests (list_ip_sets scope) ((items, marker) # rest)"
      using r3 by (simp add: page_requests_def)
  qed
qed

lemma list_waf_ipset_loop_total:
  "(case marker of None \<Rightarrow> rest = []
    | Some t \<Rightarrow> pages_served be (list_ip_sets scope) IPSets_page tr (Some t) rest) \<Longrightarrow>
   length rest \<le> fuel \<Longrightarrow>
   \<exists>tr'. list_waf_ipset_loop fuel be scope items marker ipsets tr =
     (Return (fold (\<lambda>ipset. dict_set (IPSet_Name ipset) ipset) (items @ concat (map fst rest)) ipsets),
      tr')"
proof (induction fuel arbitrary: items marker ipsets tr rest)
  case 0
  then show ?case
    by (subst list_waf_ipset_loop.simps) (auto simp: Let_def split: option.splits)
next
  case (Suc fuel)
  show ?case
  proof (cases marker)
    case None
    with Suc.prems show ?thesis
      by (subst list_waf_ipset_loop.simps) (auto simp: Let_def)
  next
    case (Some t)
    with Suc.prems obtain items' marker' rest' where rest: "rest = (items', marker') # rest'"
      by (cases rest) auto
    let ?tr1 = "tr @ [(list_ip_sets scope (Some t), be tr (list_ip_sets scope (Some t)))]"
    from Suc.prems Some rest have
      resp: "be tr (list_ip_sets scope (Some t)) = Inr (IPSets_page items' marker')"
      and nxt: "case marker' of None \<Rightarrow> rest' = []
            | Some t \<Rightarrow> pages_served be (list_ip_sets scope) IPSets_page ?tr1 (Some t) rest'"
      and len: "length rest' \<le> fuel"
      by auto
    from Suc.IH[OF nxt len, of items' "fold (\<lambda>ipset. dict_set (IPSet_Name ipset) ipset) items ipsets"]
    obtain tr' where "list_waf_ipset_loop fuel be scope items' marker'
        (fold (\<lambda>ipset. dict_set (IPSet_Name ipset) ipset) items ipsets) ?tr1 =
      (Return (fold (\<lambda>ipset. dict_set (IPSet_Name ipset) ipset) (items' @ concat (map fst rest'))
         (fold (\<lambda>ipset. dict_set (IPSet_Name ipset) ipset) items ipsets)), tr')"
      by blast
    with Some resp rest show ?thesis
      by (subst list_waf_ipset_loop.simps) (auto simp: Let_def invoke_def)
  qed
qed

lemma list_waf_ipset_total:
  assumes "pages_served be (list_ip_sets scope) IPSets_page tr None pages"
    and "length pages \<le> Suc fuel"
  shows "\<exists>tr'. list_waf_ipset fuel be scope tr =
     (Return (fold (\<lambda>ipset. dict_set (IPSet_Name ipset) ipset) (concat (map fst pages)) []), tr')"
proof -
  from assms obtain items marker rest where pages: "pages = (items, marker) # rest"
    by (cases pages) auto
  let ?tr1 = "tr @ [(list_ip_sets scope None, be tr (list_ip_sets scope None))]"
  from assms pages have
    resp: "be tr (list_ip_sets scope None) = Inr (IPSets_page items marker)"
    and nxt: "case marker of None \<Rightarrow> rest = []
            | Some t \<Rightarrow> pages_served be (list_ip_sets scope) IPSets_page ?tr1 (Some t) rest"
    and len: "length rest \<le> fuel"
    by auto
  from list_waf_ipset_loop_total[OF nxt len, of items "[]"] resp pages show ?thesis
    by (auto simp: list_waf_ipset_def invoke_def)
qed

lemma list_prefix_lists_loop_sound:
  "list_prefix_lists_loop fuel be items marker prefix_lists tr = (Return res, tr') \<Longrightarrow>
   \<exists>rest. (case marker of None \<Rightarrow> rest = []
            | Some t \<Rightarrow> pages_served be (\<lambda>t. describe_managed_prefix_lists t None) PrefixLists_page tr (Some t) rest) \<and>
      res = fold (\<lambda>pl. dict_set (PrefixListName pl) pl) (items @ concat (map fst rest)) prefix_lists \<and>
      map fst tr' = map fst tr @
        map (\<lambda>t. describe_managed_prefix_lists t None) (filter (\<lambda>t. t \<noteq> None) (marker # map snd rest))"
proof (induction fuel arbitrary: items marker prefix_lists tr)
  case 0
  then show ?case
    by (subst (asm) list_prefix_lists_loop.simps) (auto simp: Let_def split: option.splits)
next
  case (Suc fuel)
  show ?case
  proof (cases marker)
    case None
    with Suc.prems show ?thesis
      by (subst (asm) list_prefix_lists_loop.simps) (auto simp: Let_def)
  next
    case (Some t)
    let ?tr1 = "tr @ [(describe_managed_prefix_lists (Some t) None, be tr (describe_managed_prefix_lists (Some t) None))]"
    from Suc.prems Some obtain items' marker' where
      resp: "be tr (describe_managed_prefix_lists (Some t) None) = Inr (PrefixLists_page items' marker')"
      and rec: "list_prefix_lists_loop fuel be items' marker'
          (fold (\<lambda>pl. dict_set (PrefixListName pl) pl) items prefix_lists) ?tr1 = (Return res, tr')"
      by (subst (asm) list_prefix_lists_loop.simps)
         (auto simp: Let_def invoke_def split: sum.splits response.splits)
    from Suc.IH[OF rec] obtain rest where
      r1: "case marker' of None \<Rightarrow> rest = []
            | Some t \<Rightarrow> pages_served be (\<lambda>t. describe_managed_prefix_lists t None) PrefixLists_page ?tr1 (Some t) rest"
      and r2: "res = fold (\<lambda>pl. dict_set (PrefixListName pl) pl)
          (items' @ concat (map fst rest)) (fold (\<lambda>pl. dict_set (PrefixListName pl) pl) items prefix_lists)"
      and r3: "map fst tr' = map fst ?tr1 @
        map (\<lambda>t. describe_managed_prefix_lists t None) (filter (\<lambda>t. t \<noteq> None) (marker' # map snd rest))"
      by blast
    show ?thesis
    proof (intro exI[of _ "(items', marker') # rest"] conjI)
      show "case marker of None \<Rightarrow> (items', marker') # rest = []
            | Some t \<Rightarrow> pages_served be (\<lambda>t. describe_managed_prefix_lists t None) PrefixLists_page tr (Some t)
                ((items', marker') # rest)"
        using Some resp r1 by simp
      show "res = fold (\<lambda>pl. dict_set (PrefixListName pl) pl)
          (items @ concat (map fst ((items', marker') # rest))) prefix_lists"
        using r2 by simp
      show "map fst tr' = map fst tr @
        map (\<lambda>t. describe_managed_prefix_lists t None) (filter (\<lambda>t. t \<noteq> None) (marker # map snd ((items', marker') # rest)))"
        using r3 Some by simp
    qed
  qed
qed

lemma list_prefix_lists_sound:
  assumes "list_prefix_lists fuel be tr = (Return res, tr')"
  shows "\<exists>pages. pages_served be (\<lambda>t. describe_managed_prefix_lists t None) PrefixLists_page tr None pages \<and>
      res = fold (\<lambda>pl. dict_set (PrefixListName pl) pl) (concat (map fst pages)) [] \<and>
      map fst tr' = map fst tr @ page_requests (\<lambda>t. describe_managed_prefix_lists t None) pages"
proof -
  let ?tr1 = "tr @ [(describe_managed_prefix_lists None None, be tr (describe_managed_prefix_lists None None))]"
  from assms obtain items marker where
    resp: "be tr (describe_managed_prefix_lists None None) = Inr (PrefixLists_page items marker)"
    and rec: "list_prefix_lists_loop fuel be items marker [] ?tr1 = (Return res, tr')"
    by (auto simp: list_prefix_lists_def invoke_def split: sum.splits response.splits)
  from list_prefix_lists_loop_sound[OF rec] obtain rest where
    r1: "case marker of None \<Rightarrow> rest = []
            | Some t \<Rightarrow> pages_served be (\<lambda>t. describe_managed_prefix_lists t None) PrefixLists_page ?tr1 (Some t) rest"
    and r2: "res = fold (\<lambda>pl. dict_set (PrefixListName pl) pl) (items @ concat (map fst rest)) []"
    and r3: "map fst tr' = map fst ?tr1 @
        map (\<lambda>t. describe_managed_prefix_lists t None) (filter (\<lambda>t. t \<noteq> None) (marker # map snd rest))"
    by blast
  show ?thesis
  proof (intro exI[of _ "(items, marker) # rest"] conjI)
    show "pages_served be (\<lambda>t. describe_managed_prefix_lists t None) PrefixLists_page tr None ((items, marker) # rest)"
      using resp r1 by simp
    show "res = fold (\<lambda>pl. dict_set (PrefixListName pl) pl)
        (concat (map fst ((items, marker) # rest))) []"
      using r2 by simp
    show "map fst tr' = map fst tr @ page_requests (\<lambda>t. describe_managed_prefix_lists t None) ((items, marker) # rest)"
      using r3 by (simp add: page_requests_def)
  qed
qed

lemma list_prefix_lists_loop_total:
  "(case marker of None \<Rightarrow> rest = []
    | Some t \<Rightarrow> pages_served be (\<lambda>t. describe_managed_prefix_lists t None) PrefixLists_page tr (Some t) rest) \<Longrightarrow>
   length rest \<le> fuel \<Longrightarrow>
   \<exists>tr'. list_prefix_lists_loop fuel be items marker prefix_lists tr =
     (Return (fold (\<lambda>pl. dict_set (PrefixListName pl) pl) (items @ concat (map fst rest)) prefix_lists),
      tr')"
proof (induction fuel arbitrary: items marker prefix_lists tr rest)
  case 0
  then show ?case
    by (subst list_prefix_lists_loop.simps) (auto simp: Let_def split: option.splits)
next
  case (Suc fuel)
  show ?case
  proof (cases marker)
    case None
    with Suc.prems show ?thesis
      by (subst list_prefix_lists_loop.simps) (auto simp: Let_def)
  next
    case (Some t)
    with Suc.prems obtain items' marker' rest' where rest: "rest = (items', marker') # rest'"
      by (cases rest) auto
    let ?tr1 = "tr @ [(describe_managed_prefix_lists (Some t) None, be tr (describe_managed_prefix_lists (Some t) None))]"
    from Suc.prems Some rest have
      resp: "be tr (describe_managed_prefix_lists (Some t) None) = Inr (PrefixLists_page items' marker')"
      and nxt: "case marker' of None \<Rightarrow> rest' = []
            | Some t \<Rightarrow> pages_served be (\<lambda>t. describe_managed_prefix_lists t None) PrefixLists_page ?tr1 (Some t) rest'"
      and len: "length rest' \<le> fuel"
      by auto
    from Suc.IH[OF nxt len, of items' "fold (\<lambda>pl. dict_set (PrefixListName pl) pl) items prefix_lists"]
    obtain tr' where "list_prefix_lists_loop fuel be items' marker'
        (fold (\<lambda>pl. dict_set (PrefixListName pl) pl) items prefix_lists) ?tr1 =
      (Return (fold (\<lambda>pl. dict_set (PrefixListName pl) pl) (items' @ concat (map fst rest'))
         (fold (\<lambda>pl. dict_set (PrefixListName pl) pl) items prefix_lists)), tr')"
      by blast
    with Some resp rest show ?thesis
      by (subst list_prefix_lists_loop.simps) (auto simp: Let_def invoke_def)
  qed
qed

lemma list_prefix_lists_total:
  assumes "pages_served be (\<lambda>t. describe_managed_prefix_lists t None) PrefixLists_page tr None pages"
    and "length pages \<le> Suc fuel"
  shows "\<exists>tr'. list_prefix_lists fuel be tr =
     (Return (fold (\<lambda>pl. dict_set (PrefixListName pl) pl) (concat (map fst pages)) []), tr')"
proof -
  from assms obtain items marker rest where pages: "pages = (items, marker) # rest"
    by (cases pages) auto
  let ?tr1 = "tr @ [(describe_managed_prefix_lists None None, be tr (describe_managed_prefix_lists None None))]"
  from assms pages have
    resp: "be tr (describe_managed_prefix_lists None None) = Inr (PrefixLists_page items marker)"
    and nxt: "case marker of None \<Rightarrow> rest = []
            | Some t \<Rightarrow> pages_served be (\<lambda>t. describe_managed_prefix_lists t None) PrefixLists_page ?tr1 (Some t) rest"
    and len: "length rest \<le> fuel"
    by auto
  from list_prefix_lists_loop_total[OF nxt len, of items "[]"] resp pages show ?thesis
    by (auto simp: list_prefix_lists_def invoke_def)
qed



lemma prefix_list_entries_append:
  "prefix_list_entries lib (xs @ ys) d =
     (case prefix_list_entries lib xs d of
        Inl e \<Rightarrow> Inl e
      | Inr d' \<Rightarrow> prefix_list_entries lib ys d')"
  by (induction xs arbitrary: d) (auto split: sum.splits)

lemma prefix_list_entries_keys:
  "prefix_list_entries lib es d = Inr d' \<Longrightarrow>
     fst ` set d' = fst ` set d \<union> {n. \<exists>e\<in>set es. ip_network lib (Cidr e) = Inr n}"
  by (induction es arbitrary: d) (auto simp: keys_dict_set split: sum.splits)

lemma ip_set_entries_keys:
  "ip_set_entries lib addrs d = Inr d' \<Longrightarrow>
     fst ` set d' = fst ` set d \<union> {n. \<exists>a\<in>set addrs. ip_network lib a = Inr n}"
  by (induction addrs arbitrary: d) (auto simp: keys_dict_set split: sum.splits)

lemma get_prefix_list_entries_loop_sound:
  "get_prefix_list_entries_loop fuel lib be pid ver page token entries tr = (Return res, tr') \<Longrightarrow>
   \<exists>rest. (case token of None \<Rightarrow> rest = []
            | Some t \<Rightarrow> pages_served be (get_managed_prefix_list_entries pid ver) Entries_page
                tr (Some t) rest) \<and>
      prefix_list_entries lib (page @ concat (map fst rest)) entries = Inr res \<and>
      map fst tr' = map fst tr @
        map (get_managed_prefix_list_entries pid ver)
          (filter (\<lambda>t. t \<noteq> None) (token # map snd rest))"
proof (induction fuel arbitrary: page token entries tr)
  case 0
  then show ?case
    by (subst (asm) get_prefix_list_entries_loop.simps) (auto split: option.splits sum.splits)
next
  case (Suc fuel)
  from Suc.prems obtain entries1 where e1: "prefix_list_entries lib page entries = Inr entries1"
    by (subst (asm) get_prefix_list_entries_loop.simps) (auto split: sum.splits)
  show ?case
  proof (cases token)
    case None
    with Suc.prems e1 show ?thesis
      by (subst (asm) get_prefix_list_entries_loop.simps) auto
  next
    case (Some t)
    let ?c = "get_managed_prefix_list_entries pid ver (Some t)"
    let ?tr1 = "tr @ [(?c, be tr ?c)]"
    from Suc.prems Some e1 obtain page' token' where
      resp: "be tr ?c = Inr (Entries_page page' token')"
      and rec: "get_prefix_list_entries_loop fuel lib be pid ver page' token' entries1 ?tr1
          = (Return res, tr')"
      by (subst (asm) get_prefix_list_entries_loop.simps)
         (auto simp: invoke_def split: sum.splits response.splits)
    from Suc.IH[OF rec] obtain rest where
      r1: "case token' of None \<Rightarrow> rest = []
            | Some t \<Rightarrow> pages_served be (get_managed_prefix_list_entries pid ver) Entries_page
                ?tr1 (Some t) rest"
      and r2: "prefix_list_entries lib (page' @ concat (map fst rest)) entries1 = Inr res"
      and r3: "map fst tr' = map fst ?tr1 @
        map (get_managed_prefix_list_entries pid ver)
          (filter (\<lambda>t. t \<noteq> None) (token' # map snd rest))"
      by blast
    show ?thesis
    proof (intro exI[of _ "(page', token') # rest"] conjI)
      show "case token of None \<Rightarrow> (page', token') # rest = []
            | Some t \<Rightarrow> pages_served be (get_managed_prefix_list_entries pid ver) Entries_page
                tr (Some t) ((page', token') # rest)"
        using Some resp r1 by simp
      show "prefix_list_entries lib (page @ concat (map fst ((page', token') # rest))) entries
          = Inr res"
        using r2 e1 by (simp add: prefix_list_entries_append)
      show "map fst tr' = map fst tr @
        map (get_managed_prefix_list_entries pid ver)
          (filter (\<lambda>t. t \<noteq> None) (token # map snd ((page', token') # rest)))"
        using r3 Some by simp
    qed
  qed
qed

lemma get_prefix_list_entries_sound:
  assumes "get_prefix_list_entries fuel lib be name pid ver tr = (Return res, tr')"
  shows "\<exists>pages. pages_served be (get_managed_prefix_list_entries pid ver) Entries_page tr None pages \<and>
      prefix_list_entries lib (concat (map fst pages)) [] = Inr res \<and>
      map fst tr' = map fst tr @ page_requests (get_managed_prefix_list_entries pid ver) pages"
proof -
  let ?c = "get_managed_prefix_list_entries pid ver None"
  let ?tr1 = "tr @ [(?c, be tr ?c)]"
  from assms obtain page token where
    resp: "be tr ?c = Inr (Entries_page page token)"
    and rec: "get_prefix_list_entries_loop fuel lib be pid ver page token [] ?tr1 = (Return res, tr')"
    by (auto simp: get_prefix_list_entries_def invoke_def split: sum.splits response.splits)
  from get_prefix_list_entries_loop_sound[OF rec] obtain rest where
    r1: "case token of None \<Rightarrow> rest = []
            | Some t \<Rightarrow> pages_served be (get_managed_prefix_list_entries pid ver) Entries_page
                ?tr1 (Some t) rest"
    and r2: "prefix_list_entries lib (page @ concat (map fst rest)) [] = Inr res"
    and r3: "map fst tr' = map fst ?tr1 @
        map (get_managed_prefix_list_entries pid ver)
          (filter (\<lambda>t. t \<noteq> None) (token # map snd rest))"
    by blast
  show ?thesis
  proof (intro exI[of _ "(page, token) # rest"] conjI)
    show "pages_served be (get_managed_prefix_list_entries pid ver) Entries_page tr None
        ((page, token) # rest)"
      using resp r1 by simp
    show "prefix_list_entries lib (concat (map fst ((page, token) # rest))) [] = Inr res"
      using r2 by simp
    show "map fst tr' = map fst tr @
        page_requests (get_managed_prefix_list_entries pid ver) ((page, token) # rest)"
      using r3 by (simp add: page_requests_def)
  qed
qed

lemma get_prefix_list_entries_loop_total:
  "(case token of None \<Rightarrow> rest = []
    | Some t \<Rightarrow> pages_served be (get_managed_prefix_list_entries pid ver) Entries_page
        tr (Some t) rest) \<Longrightarrow>
   length rest \<le> fuel \<Longrightarrow>
   prefix_list_entries lib (page @ concat (map fst rest)) entries = Inr res \<Longrightarrow>
   \<exists>tr'. get_prefix_list_entries_loop fuel lib be pid ver page token entries tr = (Return res, tr')"
proof (induction fuel arbitrary: page token entries tr rest)
  case 0
  then show ?case
    by (subst get_prefix_list_entries_loop.simps) (auto split: option.splits)
next
  case (Suc fuel)
  from Suc.prems(3) obtain entries1 where e1: "prefix_list_entries lib page entries = Inr entries1"
    and e2: "prefix_list_entries lib (concat (map fst rest)) entries1 = Inr res"
    by (auto simp: prefix_list_entries_append split: sum.splits)
  show ?case
  proof (cases token)
    case None
    with Suc.prems e1 e2 show ?thesis
      by (subst get_prefix_list_entries_loop.simps) auto
  next
    case (Some t)
    with Suc.prems obtain page' token' rest' where rest: "rest = (page', token') # rest'"
      by (cases rest) auto
    let ?c = "get_managed_prefix_list_entries pid ver (Some t)"
    let ?tr1 = "tr @ [(?c, be tr ?c)]"
    from Suc.prems Some rest have
      resp: "be tr ?c = Inr (Entries_page page' token')"
      and nxt: "case token' of None \<Rightarrow> rest' = []
            | Some t \<Rightarrow> pages_served be (get_managed_prefix_list_entries pid ver) Entries_page
                ?tr1 (Some t) rest'"
      and len: "length rest' \<le> fuel"
      by auto
    have "prefix_list_entries lib (page' @ concat (map fst rest')) entries1 = Inr res"
      using e2 rest by simp
    from Suc.IH[OF nxt len this]
    obtain tr' where "get_prefix_list_entries_loop fuel lib be pid ver page' token' entries1 ?tr1
        = (Return res, tr')"
      by blast
    with Some resp e1 show ?thesis
      by (subst get_prefix_list_entries_loop.simps) (auto simp: invoke_def)
  qed
qed

lemma get_prefix_list_entries_total:
  assumes "pages_served be (get_managed_prefix_list_entries pid ver) Entries_page tr None pages"
    and "length pages \<le> Suc fuel"
    and "prefix_list_entries lib (concat (map fst pages)) [] = Inr res"
  shows "\<exists>tr'. get_prefix_list_entries fuel lib be name pid ver tr = (Return res, tr')"
proof -
  from assms obtain page token rest where pages: "pages = (page, token) # rest"
    by (cases pages) auto
  let ?c = "get_managed_prefix_list_entries pid ver None"
  let ?tr1 = "tr @ [(?c, be tr ?c)]"
  from assms pages have
    resp: "be tr ?c = Inr (Entries_page page token)"
    and nxt: "case token of None \<Rightarrow> rest = []
            | Some t \<Rightarrow> pages_served be (get_managed_prefix_list_entries pid ver) Entries_page
                ?tr1 (Some t) rest"
    and len: "length rest \<le> fuel"
    and res: "prefix_list_entries lib (page @ concat (map fst rest)) [] = Inr res"
    by auto
  from get_prefix_list_entries_loop_total[OF nxt len res] resp show ?thesis
    by (auto simp: get_prefix_list_entries_def invoke_def)
qed

lemma get_ip_set_entries_sound:
  assumes "get_ip_set_entries lib be name scope ipset_id tr = (Return res, tr')"
  shows "\<exists>addrs. be tr (get_ip_set name scope ipset_id) = Inr (IPSet_addresses addrs) \<and>
      ip_set_entries lib addrs [] = Inr res \<and>
      map fst tr' = map fst tr @ [get_ip_set name scope ipset_id]"
  using assms
  by (auto simp: get_ip_set_entries_def invoke_def split: sum.splits response.splits)


text \<open>
  C9. A listing that returns has followed every page. Whenever \<open>list_waf_ipset\<close>,
  \<open>list_prefix_lists\<close> or \<open>get_prefix_list_entries\<close> returns a snapshot, the backend served
  the listing in pages that end with the one page without a continuation token, the
  requests made are the one without a token and one with each token served, in that order
  and no others, and the snapshot is the dictionary filled with the items of all these
  pages: its keys are the names of all items listed, or the networks of all entries
  listed. \<open>get_ip_set_entries\<close> makes the one request of an IP set, whose response carries
  no token, and its snapshot has the networks of all addresses of that response. The loops
  come to that end: with pages served and a fuel of at least the number of tokens, each
  listing returns the snapshot of all pages.
\<close>

theorem complete_snapshots:
  "(list_waf_ipset fuel be scope tr = (Return ipsets, tr1) \<longrightarrow>
      (\<exists>pages. pages_served be (list_ip_sets scope) IPSets_page tr None pages \<and>
         ipsets = fold (\<lambda>ipset. dict_set (IPSet_Name ipset) ipset) (concat (map fst pages)) [] \<and>
         fst ` set ipsets = IPSet_Name ` set (concat (map fst pages)) \<and>
         map fst tr1 = map fst tr @ page_requests (list_ip_sets scope) pages))
   \<and> (get_ip_set_entries lib be name scope ipset_id tr = (Return current, tr2) \<longrightarrow>
      (\<exists>addrs. be tr (get_ip_set name scope ipset_id) = Inr (IPSet_addresses addrs) \<and>
         ip_set_entries lib addrs [] = Inr current \<and>
         fst ` set current = {n. \<exists>a\<in>set addrs. ip_network lib a = Inr n}))
   \<and> (list_prefix_lists fuel be tr = (Return prefix_lists, tr3) \<longrightarrow>
      (\<exists>pages. pages_served be (\<lambda>t. describe_managed_prefix_lists t None) PrefixLists_page
                  tr None pages \<and>
         prefix_lists = fold (\<lambda>pl. dict_set (PrefixListName pl) pl) (concat (map fst pages)) [] \<and>
         fst ` set prefix_lists = PrefixListName ` set (concat (map fst pages)) \<and>
         map fst tr3 = map fst tr @ page_requests (\<lambda>t. describe_managed_prefix_lists t None) pages))
   \<and> (get_prefix_list_entries fuel lib be pname pid ver tr = (Return entries, tr4) \<longrightarrow>
      (\<exists>pages. pages_served be (get_managed_prefix_list_entries pid ver) Entries_page tr None pages \<and>
         prefix_list_entries lib (concat (map fst pages)) [] = Inr entries \<and>
         fst ` set entries =
           {n. \<exists>e\<in>set (concat (map fst pages)). ip_network lib (Cidr e) = Inr n} \<and>
         map fst tr4 = map fst tr @ page_requests (get_managed_prefix_list_entries pid ver) pages))
   \<and> (pages_served be (list_ip_sets scope) IPSets_page tr None ipset_pages \<and>
        length ipset_pages \<le> Suc fuel \<longrightarrow>
      (\<exists>tr'. list_waf_ipset fuel be scope tr =
         (Return (fold (\<lambda>ipset. dict_set (IPSet_Name ipset) ipset)
                    (concat (map fst ipset_pages)) []), tr')))
   \<and> (pages_served be (\<lambda>t. describe_managed_prefix_lists t None) PrefixLists_page tr None
          prefix_list_pages \<and>
        length prefix_list_pages \<le> Suc fuel \<longrightarrow>
      (\<exists>tr'. list_prefix_lists fuel be tr =
         (Return (fold (\<lambda>pl. dict_set (PrefixListName pl) pl)
                    (concat (map fst prefix_list_pages)) []), tr')))
   \<and> (pages_served be (get_managed_prefix_list_entries pid ver) Entries_page tr None entry_pages \<and>
        length entry_pages \<le> Suc fuel \<and>
        prefix_list_entries lib (concat (map fst entry_pages)) [] = Inr all_entries \<longrightarrow>
      (\<exists>tr'. get_prefix_list_entries fuel lib be pname pid ver tr = (Return all_entries, tr')))"
proof (intro conjI impI)
  assume a: "list_waf_ipset fuel be scope tr = (Return ipsets, tr1)"
  from list_waf_ipset_sound[OF a] obtain pages where
    p: "pages_served be (list_ip_sets scope) IPSets_page tr None pages"
    and r: "ipsets = fold (\<lambda>ipset. dict_set (IPSet_Name ipset) ipset) (concat (map fst pages)) []"
    and t: "map fst tr1 = map fst tr @ page_requests (list_ip_sets scope) pages"
    by blast
  have "fst ` set ipsets = IPSet_Name ` set (concat (map fst pages))"
    unfolding r by (simp only: keys_fold_dict_set) simp
  with p r t show "\<exists>pages. pages_served be (list_ip_sets scope) IPSets_page tr None pages \<and>
         ipsets = fold (\<lambda>ipset. dict_set (IPSet_Name ipset) ipset) (concat (map fst pages)) [] \<and>
         fst ` set ipsets = IPSet_Name ` set (concat (map fst pages)) \<and>
         map fst tr1 = map fst tr @ page_requests (list_ip_sets scope) pages"
    by blast
next
  assume a: "get_ip_set_entries lib be name scope ipset_id tr = (Return current, tr2)"
  from get_ip_set_entries_sound[OF a] obtain addrs where
    b: "be tr (get_ip_set name scope ipset_id) = Inr (IPSet_addresses addrs)"
    and e: "ip_set_entries lib addrs [] = Inr current"
    by blast
  from ip_set_entries_keys[OF e] b e
  show "\<exists>addrs. be tr (get_ip_set name scope ipset_id) = Inr (IPSet_addresses addrs) \<and>
         ip_set_entries lib addrs [] = Inr current \<and>
         fst ` set current = {n. \<exists>a\<in>set addrs. ip_network lib a = Inr n}"
    by auto
next
  assume a: "list_prefix_lists fuel be tr = (Return prefix_lists, tr3)"
  from list_prefix_lists_sound[OF a] obtain pages where
    p: "pages_served be (\<lambda>t. describe_managed_prefix_lists t None) PrefixLists_page tr None pages"
    and r: "prefix_lists = fold (\<lambda>pl. dict_set (PrefixListName pl) pl) (concat (map fst pages)) []"
    and t: "map fst tr3 = map fst tr @ page_requests (\<lambda>t. describe_managed_prefix_lists t None) pages"
    by blast
  have "fst ` set prefix_lists = PrefixListName ` set (concat (map fst pages))"
    unfolding r by (simp only: keys_fold_dict_set) simp
  with p r t show "\<exists>pages. pages_served be (\<lambda>t. describe_managed_prefix_lists t None)
         PrefixLists_page tr None pages \<and>
         prefix_lists = fold (\<lambda>pl. dict_set (PrefixListName pl) pl) (concat (map fst pages)) [] \<and>
         fst ` set prefix_lists = PrefixListName ` set (concat (map fst pages)) \<and>
         map fst tr3 = map fst tr @ page_requests (\<lambda>t. describe_managed_prefix_lists t None) pages"
    by blast
next
  assume a: "get_prefix_list_entries fuel lib be pname pid ver tr = (Return entries, tr4)"
  from get_prefix_list_entries_sound[OF a] obtain pages where
    p: "pages_served be (get_managed_prefix_list_entries pid ver) Entries_page tr None pages"
    and e: "prefix_list_entries lib (concat (map fst pages)) [] = Inr entries"
    and t: "map fst tr4 = map fst tr @ page_requests (get_managed_prefix_list_entries pid ver) pages"
    by blast
  from prefix_list_entries_keys[OF e]
  have "fst ` set entries = {n. \<exists>e\<in>set (concat (map fst pages)). ip_network lib (Cidr e) = Inr n}"
    by simp
  with p e t show "\<exists>pages. pages_served be (get_managed_prefix_list_entries pid ver) Entries_page
         tr None pages \<and>
         prefix_list_entries lib (concat (map fst pages)) [] = Inr entries \<and>
         fst ` set entries =
           {n. \<exists>e\<in>set (concat (map fst pages)). ip_network lib (Cidr e) = Inr n} \<and>
         map fst tr4 = map fst tr @ page_requests (get_managed_prefix_list_entries pid ver) pages"
    by blast
next
  assume "pages_served be (list_ip_sets scope) IPSets_page tr None ipset_pages \<and>
        length ipset_pages \<le> Suc fuel"
  then show "\<exists>tr'. list_waf_ipset fuel be scope tr =
         (Return (fold (\<lambda>ipset. dict_set (IPSet_Name ipset) ipset)
                    (concat (map fst ipset_pages)) []), tr')"
    using list_waf_ipset_total by blast
next
  assume "pages_served be (\<lambda>t. describe_managed_prefix_lists t None) PrefixLists_page tr None
          prefix_list_pages \<and>
        length prefix_list_pages \<le> Suc fuel"
  then show "\<exists>tr'. list_prefix_lists fuel be tr =
         (Return (fold (\<lambda>pl. dict_set (PrefixListName pl) pl)
                    (concat (map fst prefix_list_pages)) []), tr')"
    using list_prefix_lists_total by blast
next
  assume "pages_served be (get_managed_prefix_list_entries pid ver) Entries_page tr None entry_pages \<and>
        length entry_pages \<le> Suc fuel \<and>
        prefix_list_entries lib (concat (map fst entry_pages)) [] = Inr all_entries"
  then show "\<exists>tr'. get_prefix_list_entries fuel lib be pname pid ver tr = (Return all_entries, tr')"
    using get_prefix_list_entries_total by blast
qed


theorem complete_snapshots_witness:
  "(\<exists>tr'. list_waf_ipset 1 paging_backend ''REGIONAL'' [] =
      (Return [(''aws-ip-ranges-s3-ipv4'', ip_set_a), (''aws-ip-ranges-s3-ipv6'', ip_set_b)], tr')
      \<and> (\<exists>pages. pages_served paging_backend (list_ip_sets ''REGIONAL'') IPSets_page [] None pages
            \<and> [(''aws-ip-ranges-s3-ipv4'', ip_set_a), (''aws-ip-ranges-s3-ipv6'', ip_set_b)]
                = fold (\<lambda>ipset. dict_set (IPSet_Name ipset) ipset) (concat (map fst pages)) []
            \<and> map fst tr' = page_requests (list_ip_sets ''REGIONAL'') pages))
   \<and> (\<exists>tr'. list_prefix_lists 1 paging_backend [] =
      (Return [(''aws-ip-ranges-s3-ipv4'', example_prefix_list),
               (''aws-ip-ranges-s3-ipv4-continued-1'',
                example_prefix_list\<lparr>PrefixListId := ''pl-0b2'',
                  PrefixListName := ''aws-ip-ranges-s3-ipv4-continued-1''\<rparr>)], tr'))
   \<and> (\<exists>tr'. get_prefix_list_entries 1 ipaddress_text paging_backend ''aws-ip-ranges-s3-ipv4''
          ''pl-0a1'' 1 [] =
      (Return [(Network IPV4 167772160 24, DESCRIPTION), (Network IPV4 167772416 24, [])], tr')
      \<and> (\<exists>pages. pages_served paging_backend (get_managed_prefix_list_entries ''pl-0a1'' 1)
                     Entries_page [] None pages
            \<and> prefix_list_entries ipaddress_text (concat (map fst pages)) []
                = Inr [(Network IPV4 167772160 24, DESCRIPTION), (Network IPV4 167772416 24, [])]
            \<and> map fst tr' = page_requests (get_managed_prefix_list_entries ''pl-0a1'' 1) pages))"
proof -
  let ?ip = "[([ip_set_a], Some ''marker-1''), ([ip_set_b], None :: string option)]"
  let ?pl = "[([example_prefix_list], Some ''token-1''),
              ([example_prefix_list\<lparr>PrefixListId := ''pl-0b2'',
                  PrefixListName := ''aws-ip-ranges-s3-ipv4-continued-1''\<rparr>],
               None :: string option)]"
  let ?en = "[([\<lparr>Cidr = ''10.0.0.0/24'', Description = Some DESCRIPTION\<rparr>], Some ''token-1''),
         ([\<lparr>Cidr = ''10.0.1.0/24'', Description = None\<rparr>], None :: string option)]"
  let ?all = "[(Network IPV4 167772160 24, DESCRIPTION), (Network IPV4 167772416 24, [])]"
  have p1: "pages_served paging_backend (list_ip_sets ''REGIONAL'') IPSets_page [] None ?ip \<and>
      length ?ip \<le> Suc 1"
    by (simp add: paging_backend_def)
  have p2: "pages_served paging_backend (\<lambda>t. describe_managed_prefix_lists t None)
        PrefixLists_page [] None ?pl \<and> length ?pl \<le> Suc 1"
    by (simp add: paging_backend_def)
  have p3: "pages_served paging_backend (get_managed_prefix_list_entries ''pl-0a1'' 1) Entries_page
        [] None ?en \<and> length ?en \<le> Suc 1 \<and>
      prefix_list_entries ipaddress_text (concat (map fst ?en)) [] = Inr ?all"
    by (simp add: paging_backend_def ip_network_def text_defs)
  note t = complete_snapshots[where fuel = 1 and be = paging_backend and scope = "''REGIONAL''"
      and tr = "[]" and lib = ipaddress_text and pid = "''pl-0a1''" and ver = 1
      and pname = "''aws-ip-ranges-s3-ipv4''"
      and ipset_pages = ?ip and prefix_list_pages = ?pl and entry_pages = ?en
      and all_entries = ?all]
  note t1 = t[THEN conjunct1]
  note t4 = t[THEN conjunct2, THEN conjunct2, THEN conjunct2, THEN conjunct1]
  note t5 = t[THEN conjunct2, THEN conjunct2, THEN conjunct2, THEN conjunct2, THEN conjunct1]
  note t6 = t[THEN conjunct2, THEN conjunct2, THEN conjunct2, THEN conjunct2, THEN conjunct2,
      THEN conjunct1]
  note t7 = t[THEN conjunct2, THEN conjunct2, THEN conjunct2, THEN conjunct2, THEN conjunct2,
      THEN conjunct2]
  from t5[THEN mp, OF p1] obtain tr1 where
    "list_waf_ipset 1 paging_backend ''REGIONAL'' [] =
       (Return (fold (\<lambda>ipset. dict_set (IPSet_Name ipset) ipset) (concat (map fst ?ip)) []), tr1)"
    by blast
  hence r1: "list_waf_ipset 1 paging_backend ''REGIONAL'' [] =
      (Return [(''aws-ip-ranges-s3-ipv4'', ip_set_a), (''aws-ip-ranges-s3-ipv6'', ip_set_b)], tr1)"
    by (simp add: ip_set_a_def ip_set_b_def)
  from t1[THEN mp, OF r1] have s1: "\<exists>pages.
      pages_served paging_backend (list_ip_sets ''REGIONAL'') IPSets_page [] None pages
            \<and> [(''aws-ip-ranges-s3-ipv4'', ip_set_a), (''aws-ip-ranges-s3-ipv6'', ip_set_b)]
                = fold (\<lambda>ipset. dict_set (IPSet_Name ipset) ipset) (concat (map fst pages)) []
            \<and> map fst tr1 = page_requests (list_ip_sets ''REGIONAL'') pages"
    by auto
  from t6[THEN mp, OF p2] have r2: "\<exists>tr'. list_prefix_lists 1 paging_backend [] =
      (Return [(''aws-ip-ranges-s3-ipv4'', example_prefix_list),
               (''aws-ip-ranges-s3-ipv4-continued-1'',
                example_prefix_list\<lparr>PrefixListId := ''pl-0b2'',
                  PrefixListName := ''aws-ip-ranges-s3-ipv4-continued-1''\<rparr>)], tr')"
    by (simp add: example_prefix_list_def)
  from t7[THEN mp, OF p3] obtain tr3 where
    r3: "get_prefix_list_entries 1 ipaddress_text paging_backend ''aws-ip-ranges-s3-ipv4''
          ''pl-0a1'' 1 [] = (Return ?all, tr3)"
    by blast
  from t4[THEN mp, OF r3] have s3: "\<exists>pages.
      pages_served paging_backend (get_managed_prefix_list_entries ''pl-0a1'' 1)
                     Entries_page [] None pages
            \<and> prefix_list_entries ipaddress_text (concat (map fst pages)) [] = Inr ?all
            \<and> map fst tr3 = page_requests (get_managed_prefix_list_entries ''pl-0a1'' 1) pages"
    by auto
  from r1 s1 r2 r3 s3 show ?thesis by blast
qed

section \<open>Properties of the waiting between requests\<close>

lemma answered_append:
  "answered be tr (a @ b) \<longleftrightarrow> answered be tr a \<and> answered be (tr @ a) b"
  by (induction a arbitrary: tr) auto

lemma get_prefix_list_by_id_Some:
  "described (be tr (describe_managed_prefix_lists None (Some [pid]))) = Some p \<Longrightarrow>
   get_prefix_list_by_id be pid tr =
     (Return p, tr @ [(describe_managed_prefix_lists None (Some [pid]),
                       be tr (describe_managed_prefix_lists None (Some [pid])))])"
  by (cases "be tr (describe_managed_prefix_lists None (Some [pid]))" rule: described.cases)
     (auto simp: get_prefix_list_by_id_def invoke_def)

lemma get_prefix_list_by_id_None:
  "described (be tr (describe_managed_prefix_lists None (Some [pid]))) = None \<Longrightarrow>
   \<exists>e. get_prefix_list_by_id be pid tr =
     (Raise e, tr @ [(describe_managed_prefix_lists None (Some [pid]),
                      be tr (describe_managed_prefix_lists None (Some [pid])))])"
  by (cases "be tr (describe_managed_prefix_lists None (Some [pid]))" rule: described.cases)
     (auto simp: get_prefix_list_by_id_def invoke_def split: response.splits sum.splits)

lemma polls_Nil [simp]: "polls pid [] = []"
  by (simp add: polls_def)

lemma polls_Cons:
  "polls pid ((c, r) # crs) =
     (sleep (c + (c + 1)), Inr Done) # (describe_managed_prefix_lists None (Some [pid]), r)
       # polls pid crs"
  by (simp add: polls_def)

lemma wait_prefix_list_run:
  "wait_prefix_list be pid complete msg counts tr = (res, tr') \<Longrightarrow>
   \<exists>rs. length rs \<le> length counts \<and> tr' = tr @ polls pid (zip counts rs) \<and>
     answered be tr (polls pid (zip counts rs)) \<and>
     (\<forall>r\<in>set (butlast rs). \<exists>p. described r = Some p \<and> State p \<notin> set complete) \<and>
     (if rs = [] then counts = [] \<and> res = Raise (Exception' msg)
      else case described (last rs) of
             None \<Rightarrow> (\<exists>e. res = Raise e)
           | Some p \<Rightarrow> if State p \<in> set complete then res = Return p
                       else length rs = length counts \<and> res = Raise (Exception' msg))"
proof (induction counts arbitrary: tr)
  case Nil
  then show ?case by (intro exI[of _ "[]"]) simp
next
  case (Cons c counts)
  let ?d = "describe_managed_prefix_lists None (Some [pid])"
  let ?s = "(sleep (c + (c + 1)), Inr Done :: error + response)"
  let ?r = "be (tr @ [?s]) ?d"
  let ?t2 = "tr @ [?s, (?d, ?r)]"
  have ans1: "answered be tr [?s, (?d, ?r)]" by simp
  show ?case
  proof (cases "described ?r")
    case None
    from get_prefix_list_by_id_None[of be "tr @ [?s]" pid, OF None] obtain e where
      "get_prefix_list_by_id be pid (tr @ [?s]) = (Raise e, ?t2)" by auto
    with Cons.prems have "res = Raise e" "tr' = ?t2"
      by (simp_all add: time_sleep_def Let_def)
    with None show ?thesis
      by (intro exI[of _ "[?r]"]) (simp add: polls_Cons)
  next
    case (Some p)
    from get_prefix_list_by_id_Some[of be "tr @ [?s]" pid, OF Some] have
      g: "get_prefix_list_by_id be pid (tr @ [?s]) = (Return p, ?t2)" by simp
    show ?thesis
    proof (cases "State p \<in> set complete")
      case True
      with Cons.prems g have "res = Return p" "tr' = ?t2"
        by (simp_all add: time_sleep_def Let_def)
      with Some True show ?thesis
        by (intro exI[of _ "[?r]"]) (simp add: polls_Cons)
    next
      case False
      with Cons.prems g have "wait_prefix_list be pid complete msg counts ?t2 = (res, tr')"
        by (simp add: time_sleep_def Let_def)
      from Cons.IH[OF this] obtain rs where
        l: "length rs \<le> length counts" and t: "tr' = ?t2 @ polls pid (zip counts rs)"
        and a: "answered be ?t2 (polls pid (zip counts rs))"
        and b: "\<forall>r\<in>set (butlast rs). \<exists>p. described r = Some p \<and> State p \<notin> set complete"
        and o: "if rs = [] then counts = [] \<and> res = Raise (Exception' msg)
      else case described (last rs) of
             None \<Rightarrow> (\<exists>e. res = Raise e)
           | Some p \<Rightarrow> if State p \<in> set complete then res = Return p
                       else length rs = length counts \<and> res = Raise (Exception' msg)"
        by blast
      have 1: "length (?r # rs) \<le> length (c # counts)" using l by simp
      have 2: "tr' = tr @ polls pid (zip (c # counts) (?r # rs))"
        using t by (simp add: polls_Cons)
      have 3: "answered be tr (polls pid (zip (c # counts) (?r # rs)))"
        using a by (simp add: polls_Cons)
      have 4: "\<forall>r\<in>set (butlast (?r # rs)). \<exists>p. described r = Some p \<and> State p \<notin> set complete"
        using b Some False by auto
      have 5: "if ?r # rs = [] then c # counts = [] \<and> res = Raise (Exception' msg)
      else case described (last (?r # rs)) of
             None \<Rightarrow> (\<exists>e. res = Raise e)
           | Some p \<Rightarrow> if State p \<in> set complete then res = Return p
                       else length (?r # rs) = length (c # counts) \<and> res = Raise (Exception' msg)"
        using o Some False by (cases "rs = []") (auto split: option.splits)
      from 1 2 3 4 5 show ?thesis by (intro exI[of _ "?r # rs"] conjI)
    qed
  qed
qed


lemma polls_calls:
  "map fst (polls pid (zip counts rs)) =
     concat (map (\<lambda>c. [sleep (c + (c + 1)), describe_managed_prefix_lists None (Some [pid])])
               (take (length rs) counts))"
proof (induction counts arbitrary: rs)
  case Nil
  then show ?case by simp
next
  case (Cons c counts)
  then show ?case by (cases rs) (simp_all add: polls_Cons)
qed

lemma concat_pairs_take:
  "concat (map (\<lambda>c. [f c, g c]) (take n xs)) = take (2 * n) (concat (map (\<lambda>c. [f c, g c]) xs))"
proof (induction xs arbitrary: n)
  case Nil
  then show ?case by simp
next
  case (Cons x xs)
  then show ?case by (cases n) simp_all
qed

lemma schedule:
  "map fst (polls pid (zip [0..<5] rs)) =
     take (2 * length rs)
       [sleep 1, describe_managed_prefix_lists None (Some [pid]),
        sleep 3, describe_managed_prefix_lists None (Some [pid]),
        sleep 5, describe_managed_prefix_lists None (Some [pid]),
        sleep 7, describe_managed_prefix_lists None (Some [pid]),
        sleep 9, describe_managed_prefix_lists None (Some [pid])]"
proof -
  have "concat (map (\<lambda>c. [sleep (c + (c + 1)), describe_managed_prefix_lists None (Some [pid])])
          [0..<5])
      = [sleep 1, describe_managed_prefix_lists None (Some [pid]),
        sleep 3, describe_managed_prefix_lists None (Some [pid]),
        sleep 5, describe_managed_prefix_lists None (Some [pid]),
        sleep 7, describe_managed_prefix_lists None (Some [pid]),
        sleep 9, describe_managed_prefix_lists None (Some [pid])]"
    by (simp add: upt_conv_Cons)
  thus ?thesis
    by (simp only: polls_calls concat_pairs_take)
qed

text \<open>
  C8. The step of the loop over the later batches, in \<open>create_prefix_list\<close> and in
  \<open>update_prefix_list\<close>, from the answer to the previous request. When that answer reports
  a state in which the program waits, the run goes on with at most five polls, each the
  sleep of 1, 3, 5, 7 and 9 seconds in turn followed by the request for that prefix list,
  answered by the backend; every poll but the last described the prefix list in a state
  that is not one of the completed ones. When the last poll describes it in a completed
  state, the request of this batch follows at once, with the id, version and name of that
  description. When the last poll describes it in another state, five polls were made,
  \<open>msg\<close> is raised and nothing else is requested. When the last poll describes no prefix
  list, its error is raised and nothing else is requested. When the answer reports another
  state, the request of this batch follows at once. The completed states are the only ones
  that end the polls: a failed state does not.
\<close>

theorem bounded_polling:
  assumes pl: "PrefixList_of response = Inr pl"
    and run: "modify_batches be waiting complete msg entries_to_add entries_to_remove
                (index # rest) response tr = (res, tr')"
  shows "if State pl \<in> set waiting
         then \<exists>rs after. rs \<noteq> [] \<and> length rs \<le> 5 \<and>
                tr' = tr @ polls (PrefixListId pl) (zip [0..<5] rs) @ after \<and>
                answered be tr (polls (PrefixListId pl) (zip [0..<5] rs)) \<and>
                map fst (polls (PrefixListId pl) (zip [0..<5] rs)) =
                  take (2 * length rs)
                    [sleep 1, describe_managed_prefix_lists None (Some [PrefixListId pl]),
                     sleep 3, describe_managed_prefix_lists None (Some [PrefixListId pl]),
                     sleep 5, describe_managed_prefix_lists None (Some [PrefixListId pl]),
                     sleep 7, describe_managed_prefix_lists None (Some [PrefixListId pl]),
                     sleep 9, describe_managed_prefix_lists None (Some [PrefixListId pl])] \<and>
                (\<forall>r\<in>set (butlast rs). \<exists>p. described r = Some p \<and> State p \<notin> set complete) \<and>
                (case described (last rs) of
                   None \<Rightarrow> after = [] \<and> (\<exists>e. res = Raise e)
                 | Some p \<Rightarrow>
                     if State p \<in> set complete
                     then \<exists>r after'. after =
                            (modify_managed_prefix_list (PrefixListId p) (Some (Version p))
                               (PrefixListName p) None (take 100 (drop index entries_to_add))
                               (take 100 (drop index entries_to_remove)), r) # after'
                     else length rs = 5 \<and> after = [] \<and> res = Raise (Exception' msg))
         else \<exists>r after. tr' = tr @
                (modify_managed_prefix_list (PrefixListId pl) (Some (Version pl))
                   (PrefixListName pl) None (take 100 (drop index entries_to_add))
                   (take 100 (drop index entries_to_remove)), r) # after"
proof (cases "State pl \<in> set waiting")
  case False
  let ?c = "modify_managed_prefix_list (PrefixListId pl) (Some (Version pl))
                   (PrefixListName pl) None (take 100 (drop index entries_to_add))
                   (take 100 (drop index entries_to_remove))"
  have "\<exists>r after. tr' = tr @ (?c, r) # after"
  proof (cases "be tr ?c")
    case (Inl e)
    with run pl False show ?thesis by (auto simp: invoke_def)
  next
    case (Inr response')
    with run pl False have
      "modify_batches be waiting complete msg entries_to_add entries_to_remove rest response'
         (tr @ [(?c, be tr ?c)]) = (res, tr')"
      by (simp add: invoke_def)
    from modify_batches_extends[OF this] show ?thesis by auto
  qed
  with False show ?thesis by simp
next
  case True
  obtain r1 t1 where w: "wait_prefix_list be (PrefixListId pl) complete msg [0..<5] tr = (r1, t1)"
    by (cases "wait_prefix_list be (PrefixListId pl) complete msg [0..<5] tr")
  from wait_prefix_list_run[OF w] obtain rs where
    l: "length rs \<le> 5" and t: "t1 = tr @ polls (PrefixListId pl) (zip [0..<5] rs)"
    and a: "answered be tr (polls (PrefixListId pl) (zip [0..<5] rs))"
    and b: "\<forall>r\<in>set (butlast rs). \<exists>p. described r = Some p \<and> State p \<notin> set complete"
    and o: "if rs = [] then [0..<5] = [] \<and> r1 = Raise (Exception' msg)
      else case described (last rs) of
             None \<Rightarrow> (\<exists>e. r1 = Raise e)
           | Some p \<Rightarrow> if State p \<in> set complete then r1 = Return p
                       else length rs = length [0..<5] \<and> r1 = Raise (Exception' msg)"
    by auto
  have ne: "rs \<noteq> []"
  proof
    assume "rs = []"
    with o have "[0..<5] = ([] :: nat list)" by simp
    thus False by simp
  qed
  have step: "modify_batches be waiting complete msg entries_to_add entries_to_remove
                (index # rest) response tr =
      (case r1 of
         Raise e \<Rightarrow> (Raise e, t1)
       | Timeout \<Rightarrow> (Timeout, t1)
       | Return pl1 \<Rightarrow>
           (case invoke be (modify_managed_prefix_list (PrefixListId pl1) (Some (Version pl1))
                                  (PrefixListName pl1) None
                                  (take 100 (drop index entries_to_add))
                                  (take 100 (drop index entries_to_remove))) t1 of
                  (Inl e, tr2) \<Rightarrow> (Raise e, tr2)
                | (Inr response', tr2) \<Rightarrow>
                    modify_batches be waiting complete msg entries_to_add entries_to_remove
                      rest response' tr2))"
    using pl True w by (simp del: wait_prefix_list.simps upt_rec_numeral split: result.splits)
  have out: "case described (last rs) of
                   None \<Rightarrow> t1 = tr' \<and> (\<exists>e. res = Raise e)
                 | Some p \<Rightarrow>
                     if State p \<in> set complete
                     then \<exists>r after'. tr' = t1 @
                            (modify_managed_prefix_list (PrefixListId p) (Some (Version p))
                               (PrefixListName p) None (take 100 (drop index entries_to_add))
                               (take 100 (drop index entries_to_remove)), r) # after'
                     else length rs = 5 \<and> t1 = tr' \<and> res = Raise (Exception' msg)"
  proof (cases "described (last rs)")
    case None
    with o ne obtain e where "r1 = Raise e" by auto
    with run step None show ?thesis by simp
  next
    case (Some p)
    show ?thesis
    proof (cases "State p \<in> set complete")
      case c: True
      with o ne Some have r1: "r1 = Return p" by simp
      let ?c = "modify_managed_prefix_list (PrefixListId p) (Some (Version p))
                               (PrefixListName p) None (take 100 (drop index entries_to_add))
                               (take 100 (drop index entries_to_remove))"
      have "\<exists>r after'. tr' = t1 @ (?c, r) # after'"
      proof (cases "be t1 ?c")
        case (Inl e)
        with run step r1 show ?thesis by (auto simp: invoke_def)
      next
        case (Inr response')
        with run step r1 have
          "modify_batches be waiting complete msg entries_to_add entries_to_remove rest response'
             (t1 @ [(?c, be t1 ?c)]) = (res, tr')"
          by (simp add: invoke_def)
        from modify_batches_extends[OF this] show ?thesis by auto
      qed
      with Some c show ?thesis by simp
    next
      case c: False
      with o ne Some have "length rs = 5" "r1 = Raise (Exception' msg)" by simp_all
      with run step Some c show ?thesis by simp
    qed
  qed
  define after where "after = drop (length t1) tr'"
  have ext: "tr' = t1 @ after"
  proof -
    from run step obtain ev where "tr' = t1 @ ev"
    proof (cases r1)
      case (Return pl1)
      let ?c = "modify_managed_prefix_list (PrefixListId pl1) (Some (Version pl1))
                               (PrefixListName pl1) None (take 100 (drop index entries_to_add))
                               (take 100 (drop index entries_to_remove))"
      show ?thesis
      proof (cases "be t1 ?c")
        case (Inl e)
        with run step Return that show ?thesis by (auto simp: invoke_def)
      next
        case (Inr response')
        with run step Return have
          "modify_batches be waiting complete msg entries_to_add entries_to_remove rest response'
             (t1 @ [(?c, be t1 ?c)]) = (res, tr')"
          by (simp add: invoke_def)
        from modify_batches_extends[OF this] that show ?thesis by auto
      qed
    next
      case (Raise e)
      with run step that show ?thesis by auto
    next
      case Timeout
      with run step that show ?thesis by auto
    qed
    thus ?thesis by (simp add: after_def)
  qed
  have out': "case described (last rs) of
                   None \<Rightarrow> after = [] \<and> (\<exists>e. res = Raise e)
                 | Some p \<Rightarrow>
                     if State p \<in> set complete
                     then \<exists>r after'. after =
                            (modify_managed_prefix_list (PrefixListId p) (Some (Version p))
                               (PrefixListName p) None (take 100 (drop index entries_to_add))
                               (take 100 (drop index entries_to_remove)), r) # after'
                     else length rs = 5 \<and> after = [] \<and> res = Raise (Exception' msg)"
    using out ext by (auto split: option.splits if_splits)
  have "rs \<noteq> [] \<and> length rs \<le> 5 \<and>
                tr' = tr @ polls (PrefixListId pl) (zip [0..<5] rs) @ after \<and>
                answered be tr (polls (PrefixListId pl) (zip [0..<5] rs)) \<and>
                map fst (polls (PrefixListId pl) (zip [0..<5] rs)) =
                  take (2 * length rs)
                    [sleep 1, describe_managed_prefix_lists None (Some [PrefixListId pl]),
                     sleep 3, describe_managed_prefix_lists None (Some [PrefixListId pl]),
                     sleep 5, describe_managed_prefix_lists None (Some [PrefixListId pl]),
                     sleep 7, describe_managed_prefix_lists None (Some [PrefixListId pl]),
                     sleep 9, describe_managed_prefix_lists None (Some [PrefixListId pl])] \<and>
                (\<forall>r\<in>set (butlast rs). \<exists>p. described r = Some p \<and> State p \<notin> set complete) \<and>
                (case described (last rs) of
                   None \<Rightarrow> after = [] \<and> (\<exists>e. res = Raise e)
                 | Some p \<Rightarrow>
                     if State p \<in> set complete
                     then \<exists>r after'. after =
                            (modify_managed_prefix_list (PrefixListId p) (Some (Version p))
                               (PrefixListName p) None (take 100 (drop index entries_to_add))
                               (take 100 (drop index entries_to_remove)), r) # after'
                     else length rs = 5 \<and> after = [] \<and> res = Raise (Exception' msg))"
    using ne l ext t a b out' schedule[of "PrefixListId pl" rs]
    by (intro conjI) simp_all
  hence "\<exists>rs after. rs \<noteq> [] \<and> length rs \<le> 5 \<and>
                tr' = tr @ polls (PrefixListId pl) (zip [0..<5] rs) @ after \<and>
                answered be tr (polls (PrefixListId pl) (zip [0..<5] rs)) \<and>
                map fst (polls (PrefixListId pl) (zip [0..<5] rs)) =
                  take (2 * length rs)
                    [sleep 1, describe_managed_prefix_lists None (Some [PrefixListId pl]),
                     sleep 3, describe_managed_prefix_lists None (Some [PrefixListId pl]),
                     sleep 5, describe_managed_prefix_lists None (Some [PrefixListId pl]),
                     sleep 7, describe_managed_prefix_lists None (Some [PrefixListId pl]),
                     sleep 9, describe_managed_prefix_lists None (Some [PrefixListId pl])] \<and>
                (\<forall>r\<in>set (butlast rs). \<exists>p. described r = Some p \<and> State p \<notin> set complete) \<and>
                (case described (last rs) of
                   None \<Rightarrow> after = [] \<and> (\<exists>e. res = Raise e)
                 | Some p \<Rightarrow>
                     if State p \<in> set complete
                     then \<exists>r after'. after =
                            (modify_managed_prefix_list (PrefixListId p) (Some (Version p))
                               (PrefixListName p) None (take 100 (drop index entries_to_add))
                               (take 100 (drop index entries_to_remove)), r) # after'
                     else length rs = 5 \<and> after = [] \<and> res = Raise (Exception' msg))"
    by blast
  with True show ?thesis by simp
qed


lemma example_batch_range: "py_range 100 101 100 = [100]"
  by (simp add: py_range_def)

theorem failed_state_polled:
  "create_prefix_list failed_backend ''aws-ip-ranges-s3-ipv4'' ''IPV4''
     (replicate 101 ''10.0.0.0/24'') []
   = (Raise (Exception' ''Error creating/updating VPC Prefix List. Can't wait anymore.''),
      [(create_managed_prefix_list ''aws-ip-ranges-s3-ipv4''
          (replicate 100 \<lparr>Cidr = ''10.0.0.0/24'', Description = Some DESCRIPTION\<rparr>) 111 ''IPV4'',
        Inr (PrefixList_description (example_prefix_list\<lparr>State := ''create-in-progress''\<rparr>))),
       (sleep 1, Inr Done),
       (describe_managed_prefix_lists None (Some [''pl-0a1'']),
        Inr (PrefixLists_page [example_prefix_list\<lparr>State := ''create-failed''\<rparr>] None)),
       (sleep 3, Inr Done),
       (describe_managed_prefix_lists None (Some [''pl-0a1'']),
        Inr (PrefixLists_page [example_prefix_list\<lparr>State := ''create-failed''\<rparr>] None)),
       (sleep 5, Inr Done),
       (describe_managed_prefix_lists None (Some [''pl-0a1'']),
        Inr (PrefixLists_page [example_prefix_list\<lparr>State := ''create-failed''\<rparr>] None)),
       (sleep 7, Inr Done),
       (describe_managed_prefix_lists None (Some [''pl-0a1'']),
        Inr (PrefixLists_page [example_prefix_list\<lparr>State := ''create-failed''\<rparr>] None)),
       (sleep 9, Inr Done),
       (describe_managed_prefix_lists None (Some [''pl-0a1'']),
        Inr (PrefixLists_page [example_prefix_list\<lparr>State := ''create-failed''\<rparr>] None))])"
  by (simp add: create_prefix_list_def invoke_def example_batch_range Let_def failed_backend_def
      time_sleep_def get_prefix_list_by_id_def example_prefix_list_def upt_conv_Cons)


theorem bounded_polling_witness:
  "create_prefix_list slow_backend ''aws-ip-ranges-s3-ipv4'' ''IPV4''
     (replicate 101 ''10.0.0.0/24'') []
   = (Return (),
      [(create_managed_prefix_list ''aws-ip-ranges-s3-ipv4''
          (replicate 100 \<lparr>Cidr = ''10.0.0.0/24'', Description = Some DESCRIPTION\<rparr>) 111 ''IPV4'',
        Inr (PrefixList_description (example_prefix_list\<lparr>State := ''create-in-progress''\<rparr>))),
       (sleep 1, Inr Done),
       (describe_managed_prefix_lists None (Some [''pl-0a1'']),
        Inr (PrefixLists_page [example_prefix_list\<lparr>State := ''create-in-progress''\<rparr>] None)),
       (sleep 3, Inr Done),
       (describe_managed_prefix_lists None (Some [''pl-0a1'']),
        Inr (PrefixLists_page [example_prefix_list\<lparr>Version := 2\<rparr>] None)),
       (modify_managed_prefix_list ''pl-0a1'' (Some 2) ''aws-ip-ranges-s3-ipv4'' None
          [\<lparr>Cidr = ''10.0.0.0/24'', Description = Some DESCRIPTION\<rparr>] [],
        Inr (PrefixList_description
               (example_prefix_list\<lparr>Version := 3, State := ''modify-complete''\<rparr>)))])
   \<and> (\<exists>rs after. rs \<noteq> [] \<and> length rs \<le> 5 \<and>
         [(create_managed_prefix_list ''aws-ip-ranges-s3-ipv4''
             (replicate 100 \<lparr>Cidr = ''10.0.0.0/24'', Description = Some DESCRIPTION\<rparr>) 111
             ''IPV4'',
           Inr (PrefixList_description (example_prefix_list\<lparr>State := ''create-in-progress''\<rparr>))),
          (sleep 1, Inr Done),
          (describe_managed_prefix_lists None (Some [''pl-0a1'']),
           Inr (PrefixLists_page [example_prefix_list\<lparr>State := ''create-in-progress''\<rparr>] None)),
          (sleep 3, Inr Done),
          (describe_managed_prefix_lists None (Some [''pl-0a1'']),
           Inr (PrefixLists_page [example_prefix_list\<lparr>Version := 2\<rparr>] None)),
          (modify_managed_prefix_list ''pl-0a1'' (Some 2) ''aws-ip-ranges-s3-ipv4'' None
             [\<lparr>Cidr = ''10.0.0.0/24'', Description = Some DESCRIPTION\<rparr>] [],
           Inr (PrefixList_description
                  (example_prefix_list\<lparr>Version := 3, State := ''modify-complete''\<rparr>)))]
         = [(create_managed_prefix_list ''aws-ip-ranges-s3-ipv4''
               (replicate 100 \<lparr>Cidr = ''10.0.0.0/24'', Description = Some DESCRIPTION\<rparr>) 111
               ''IPV4'',
             Inr (PrefixList_description
                    (example_prefix_list\<lparr>State := ''create-in-progress''\<rparr>)))]
           @ polls ''pl-0a1'' (zip [0..<5] rs) @ after \<and>
         map fst (polls ''pl-0a1'' (zip [0..<5] rs)) =
           take (2 * length rs)
             [sleep 1, describe_managed_prefix_lists None (Some [''pl-0a1'']),
              sleep 3, describe_managed_prefix_lists None (Some [''pl-0a1'']),
              sleep 5, describe_managed_prefix_lists None (Some [''pl-0a1'']),
              sleep 7, describe_managed_prefix_lists None (Some [''pl-0a1'']),
              sleep 9, describe_managed_prefix_lists None (Some [''pl-0a1''])] \<and>
         (\<exists>p. described (last rs) = Some p))"
proof -
  let ?e = "\<lparr>Cidr = ''10.0.0.0/24'', Description = Some DESCRIPTION\<rparr>"
  let ?pl = "example_prefix_list\<lparr>State := ''create-in-progress''\<rparr>"
  let ?c = "(create_managed_prefix_list ''aws-ip-ranges-s3-ipv4'' (replicate 100 ?e) 111 ''IPV4'',
             Inr (PrefixList_description ?pl) :: error + response)"
  let ?tr' = "[?c,
       (sleep 1, Inr Done),
       (describe_managed_prefix_lists None (Some [''pl-0a1'']),
        Inr (PrefixLists_page [example_prefix_list\<lparr>State := ''create-in-progress''\<rparr>] None)),
       (sleep 3, Inr Done),
       (describe_managed_prefix_lists None (Some [''pl-0a1'']),
        Inr (PrefixLists_page [example_prefix_list\<lparr>Version := 2\<rparr>] None)),
       (modify_managed_prefix_list ''pl-0a1'' (Some 2) ''aws-ip-ranges-s3-ipv4'' None [?e] [],
        Inr (PrefixList_description
               (example_prefix_list\<lparr>Version := 3, State := ''modify-complete''\<rparr>)))]"
  have h1: "PrefixList_of (PrefixList_description ?pl) = Inr ?pl" by simp
  have h2: "modify_batches slow_backend [''create-in-progress'', ''modify-in-progress'']
              [''create-complete'', ''modify-complete'']
              ''Error creating/updating VPC Prefix List. Can't wait anymore.''
              (replicate 101 ?e) [] [100] (PrefixList_description ?pl) [?c]
            = (Return (PrefixList_description
                 (example_prefix_list\<lparr>Version := 3, State := ''modify-complete''\<rparr>)), ?tr')"
    by (simp add: invoke_def slow_backend_def time_sleep_def get_prefix_list_by_id_def
        example_prefix_list_def upt_conv_Cons)
  have run: "create_prefix_list slow_backend ''aws-ip-ranges-s3-ipv4'' ''IPV4''
     (replicate 101 ''10.0.0.0/24'') [] = (Return (), ?tr')"
    by (simp add: create_prefix_list_def invoke_def example_batch_range Let_def slow_backend_def
      time_sleep_def get_prefix_list_by_id_def example_prefix_list_def upt_conv_Cons)
  have w: "State ?pl \<in> set [''create-in-progress'', ''modify-in-progress'']"
    by (simp add: example_prefix_list_def)
  have "if State ?pl \<in> set [''create-in-progress'', ''modify-in-progress'']
        then \<exists>rs after. rs \<noteq> [] \<and> length rs \<le> 5 \<and>
                ?tr' = [?c] @ polls (PrefixListId ?pl) (zip [0..<5] rs) @ after \<and>
                answered slow_backend [?c] (polls (PrefixListId ?pl) (zip [0..<5] rs)) \<and>
                map fst (polls (PrefixListId ?pl) (zip [0..<5] rs)) =
                  take (2 * length rs)
                    [sleep 1, describe_managed_prefix_lists None (Some [PrefixListId ?pl]),
                     sleep 3, describe_managed_prefix_lists None (Some [PrefixListId ?pl]),
                     sleep 5, describe_managed_prefix_lists None (Some [PrefixListId ?pl]),
                     sleep 7, describe_managed_prefix_lists None (Some [PrefixListId ?pl]),
                     sleep 9, describe_managed_prefix_lists None (Some [PrefixListId ?pl])] \<and>
                (\<forall>r\<in>set (butlast rs). \<exists>p. described r = Some p \<and>
                    State p \<notin> set [''create-complete'', ''modify-complete'']) \<and>
                (case described (last rs) of
                   None \<Rightarrow> after = [] \<and> (\<exists>e. Return (PrefixList_description
                 (example_prefix_list\<lparr>Version := 3, State := ''modify-complete''\<rparr>)) = Raise e)
                 | Some p \<Rightarrow>
                     if State p \<in> set [''create-complete'', ''modify-complete'']
                     then \<exists>r after'. after =
                            (modify_managed_prefix_list (PrefixListId p) (Some (Version p))
                               (PrefixListName p) None (take 100 (drop 100 (replicate 101 ?e)))
                               (take 100 (drop 100 [])), r) # after'
                     else length rs = 5 \<and> after = [] \<and> Return (PrefixList_description
                 (example_prefix_list\<lparr>Version := 3, State := ''modify-complete''\<rparr>))
                        = Raise (Exception'
                            ''Error creating/updating VPC Prefix List. Can't wait anymore.''))
         else \<exists>r after. ?tr' = [?c] @
                (modify_managed_prefix_list (PrefixListId ?pl) (Some (Version ?pl))
                   (PrefixListName ?pl) None (take 100 (drop 100 (replicate 101 ?e)))
                   (take 100 (drop 100 [])), r) # after"
    by (rule bounded_polling[OF h1 h2])
  hence "\<exists>rs after. rs \<noteq> [] \<and> length rs \<le> 5 \<and>
                ?tr' = [?c] @ polls (PrefixListId ?pl) (zip [0..<5] rs) @ after \<and>
                answered slow_backend [?c] (polls (PrefixListId ?pl) (zip [0..<5] rs)) \<and>
                map fst (polls (PrefixListId ?pl) (zip [0..<5] rs)) =
                  take (2 * length rs)
                    [sleep 1, describe_managed_prefix_lists None (Some [PrefixListId ?pl]),
                     sleep 3, describe_managed_prefix_lists None (Some [PrefixListId ?pl]),
                     sleep 5, describe_managed_prefix_lists None (Some [PrefixListId ?pl]),
                     sleep 7, describe_managed_prefix_lists None (Some [PrefixListId ?pl]),
                     sleep 9, describe_managed_prefix_lists None (Some [PrefixListId ?pl])] \<and>
                (\<forall>r\<in>set (butlast rs). \<exists>p. described r = Some p \<and>
                    State p \<notin> set [''create-complete'', ''modify-complete'']) \<and>
                (case described (last rs) of
                   None \<Rightarrow> after = [] \<and> (\<exists>e. Return (PrefixList_description
                 (example_prefix_list\<lparr>Version := 3, State := ''modify-complete''\<rparr>)) = Raise e)
                 | Some p \<Rightarrow>
                     if State p \<in> set [''create-complete'', ''modify-complete'']
                     then \<exists>r after'. after =
                            (modify_managed_prefix_list (PrefixListId p) (Some (Version p))
                               (PrefixListName p) None (take 100 (drop 100 (replicate 101 ?e)))
                               (take 100 (drop 100 [])), r) # after'
                     else length rs = 5 \<and> after = [] \<and> Return (PrefixList_description
                 (example_prefix_list\<lparr>Version := 3, State := ''modify-complete''\<rparr>))
                        = Raise (Exception'
                            ''Error creating/updating VPC Prefix List. Can't wait anymore.''))"
    using w by (simp only: if_True)
  then obtain rs after where
    f: "rs \<noteq> []" "length rs \<le> 5" "?tr' = [?c] @ polls (PrefixListId ?pl) (zip [0..<5] rs) @ after"
      "map fst (polls (PrefixListId ?pl) (zip [0..<5] rs)) =
           take (2 * length rs)
             [sleep 1, describe_managed_prefix_lists None (Some [PrefixListId ?pl]),
              sleep 3, describe_managed_prefix_lists None (Some [PrefixListId ?pl]),
              sleep 5, describe_managed_prefix_lists None (Some [PrefixListId ?pl]),
              sleep 7, describe_managed_prefix_lists None (Some [PrefixListId ?pl]),
              sleep 9, describe_managed_prefix_lists None (Some [PrefixListId ?pl])]"
    and o: "case described (last rs) of
                   None \<Rightarrow> after = [] \<and> (\<exists>e. Return (PrefixList_description
                 (example_prefix_list\<lparr>Version := 3, State := ''modify-complete''\<rparr>)) = Raise e)
                 | Some p \<Rightarrow>
                     if State p \<in> set [''create-complete'', ''modify-complete'']
                     then \<exists>r after'. after =
                            (modify_managed_prefix_list (PrefixListId p) (Some (Version p))
                               (PrefixListName p) None (take 100 (drop 100 (replicate 101 ?e)))
                               (take 100 (drop 100 [])), r) # after'
                     else length rs = 5 \<and> after = [] \<and> Return (PrefixList_description
                 (example_prefix_list\<lparr>Version := 3, State := ''modify-complete''\<rparr>))
                        = Raise (Exception'
                            ''Error creating/updating VPC Prefix List. Can't wait anymore.'')"
    by (elim exE conjE)
  have pid: "PrefixListId ?pl = ''pl-0a1''" by (simp add: example_prefix_list_def)
  from o have "\<exists>p. described (last rs) = Some p" by (cases "described (last rs)") auto
  with f run show ?thesis unfolding pid by blast
qed

end
